(* ===== verification/Prelude.thy ===== *)
theory Prelude
  imports Main "HOL-Library.Char_ord" "HOL-Library.List_Lexorder" "HOL-Library.AList"
    "HOL-Library.Multiset" "HOL-Library.Sublist"
begin

text \<open>
  Shared ground of the development: Go's error values, the result type of fallible
  operations, the lemma collections the component theories add to, and generic lemmas on
  lists, options and association lists.

  Strings are \<^typ>\<open>string\<close>, one character per byte, as Go strings are byte
  sequences; \<^theory_text>\<open>Char_ord\<close> and \<^theory_text>\<open>List_Lexorder\<close> give them Go's
  byte-wise lexicographic order.
\<close>

section \<open>Lemma collections\<close>

named_theorems path_simps \<open>shape and disjointness of the paths of a cadir or an ssldir\<close>
named_theorems os_simps \<open>effect of the file operations on the file view\<close>
named_theorems pki_simps \<open>fields of the objects the PKI primitives build\<close>

section \<open>Go errors\<close>

text \<open>
  An error value keeps what the program inspects: whether it is \<open>os.ErrNotExist\<close>,
  whether it is the store's \<open>ErrNotFound\<close>, its text, and the chain that
  \<open>fmt.Errorf("...: %w", err)\<close> builds.
\<close>

datatype go_error =
    ENotExist string          \<comment> \<open>a \<open>PathError\<close> whose cause is \<open>ENOENT\<close>; the text is "op path"\<close>
  | EOther string             \<comment> \<open>any other error of the system or of the standard library\<close>
  | ENotFound                 \<comment> \<open>\<open>castore.ErrNotFound\<close>\<close>
  | EMsg string               \<comment> \<open>\<open>errors.New\<close> and \<open>fmt.Errorf\<close> without \<open>%w\<close>\<close>
  | EWrap string go_error     \<comment> \<open>\<open>fmt.Errorf\<close> with \<open>%w\<close>\<close>

type_synonym 'a res = "go_error + 'a"

fun err_is_not_exist :: "go_error \<Rightarrow> bool" where
  "err_is_not_exist (ENotExist _) = True"
| "err_is_not_exist (EWrap _ e) = err_is_not_exist e"
| "err_is_not_exist _ = False"

fun err_is_not_found :: "go_error \<Rightarrow> bool" where
  "err_is_not_found ENotFound = True"
| "err_is_not_found (EWrap _ e) = err_is_not_found e"
| "err_is_not_found _ = False"

fun err_text :: "go_error \<Rightarrow> string" where
  "err_text (ENotExist s) = s @ '': no such file or directory''"
| "err_text (EOther s) = s"
| "err_text ENotFound = ''not found''"
| "err_text (EMsg s) = s"
| "err_text (EWrap s e) = s @ '': '' @ err_text e"

definition is_ok :: "'a res \<Rightarrow> bool" where
  "is_ok r = (case r of Inl _ \<Rightarrow> False | Inr _ \<Rightarrow> True)"

lemma is_ok_simps [simp]: "is_ok (Inr x)" "\<not> is_ok (Inl e)"
  by (simp_all add: is_ok_def)

lemma is_ok_iff: "is_ok r \<longleftrightarrow> (\<exists>x. r = Inr x)"
  by (cases r) auto

section \<open>Generic lemmas\<close>

lemma map_of_delete [simp]: "map_of (AList.delete k al) = (map_of al)(k := None)"
  by (rule delete_conv')

lemma map_of_update [simp]: "map_of (AList.update k v al) = (map_of al)(k \<mapsto> v)"
  by (rule update_conv')


section \<open>Codecs\<close>

text \<open>
  The contract of an encoder and its decoder on the values it is meant for; the encoder is
  then injective there, and the decoder finds nothing but encoded values' originals.
\<close>

locale codec =
  fixes enc :: "'a \<Rightarrow> 'b"
    and dec :: "'b \<Rightarrow> 'a option"
    and ok :: "'a \<Rightarrow> bool"
  assumes dec_enc: "ok x \<Longrightarrow> dec (enc x) = Some x"
begin

lemma enc_inject: "ok x \<Longrightarrow> ok y \<Longrightarrow> enc x = enc y \<longleftrightarrow> x = y"
  by (metis dec_enc option.inject)

lemma dec_enc_the: "ok x \<Longrightarrow> dec (enc x) = Some y \<longleftrightarrow> y = x"
  by (auto simp: dec_enc)

lemma dec_map_enc: "list_all ok xs \<Longrightarrow> map dec (map enc xs) = map Some xs"
  by (induction xs) (auto simp: dec_enc)

end

definition res_opt :: "'a res \<Rightarrow> 'a option" where
  "res_opt r = (case r of Inl _ \<Rightarrow> None | Inr x \<Rightarrow> Some x)"

lemma res_opt_simps [simp]: "res_opt (Inr x) = Some x" "res_opt (Inl e) = None"
  by (simp_all add: res_opt_def)

lemma res_opt_Some: "res_opt r = Some x \<longleftrightarrow> r = Inr x"
  by (cases r) auto


section \<open>Transition systems\<close>

text \<open>What every step keeps holds in every state that can be reached.\<close>

locale preserved =
  fixes step :: "'s \<Rightarrow> 's \<Rightarrow> bool" and inv :: "'s \<Rightarrow> bool"
  assumes step_inv: "inv s \<Longrightarrow> step s t \<Longrightarrow> inv t"
begin

lemma steps_inv: "step\<^sup>*\<^sup>* s t \<Longrightarrow> inv s \<Longrightarrow> inv t"
  by (induction rule: rtranclp_induct) (auto intro: step_inv)

lemma always: "step\<^sup>*\<^sup>* s t \<Longrightarrow> inv s \<Longrightarrow> step t u \<Longrightarrow> inv u"
  by (blast intro: steps_inv step_inv)

end

text \<open>What never shrinks along a step never shrinks along a run.\<close>

locale growing =
  fixes step :: "'s \<Rightarrow> 's \<Rightarrow> bool" and view :: "'s \<Rightarrow> 'a list"
  assumes step_grows: "step s t \<Longrightarrow> prefix (view s) (view t)"
begin

lemma steps_grow: "step\<^sup>*\<^sup>* s t \<Longrightarrow> prefix (view s) (view t)"
  by (induction rule: rtranclp_induct) (auto intro: prefix_order.trans step_grows)

lemma steps_keep: "step\<^sup>*\<^sup>* s t \<Longrightarrow> x \<in> set (view s) \<Longrightarrow> x \<in> set (view t)"
  using steps_grow set_mono_prefix by blast

end

end
