(* ===== verification/GoStrings.thy ===== *)
theory GoStrings
  imports Prelude
begin

text \<open>
  The parts of Go's \<open>strings\<close>, \<open>strconv\<close>, \<open>fmt\<close> and \<open>math/big\<close> that the program calls,
  as functions on byte strings: splitting, cutting and trimming, decimal and hexadecimal
  numbers. \<open>strings.TrimSpace\<close> removes the Unicode white space, here by its UTF-8
  encodings; \<open>strings.ToLower\<close> is modelled on the ASCII letters.
\<close>

section \<open>Splitting, cutting, trimming\<close>

text \<open>\<open>strings.Split\<close> and \<open>strings.SplitSeq\<close> with a separator of one byte.\<close>

fun str_split :: "char \<Rightarrow> string \<Rightarrow> string list" where
  "str_split c [] = [[]]"
| "str_split c (x # xs) =
     (if x = c then [] # str_split c xs
      else (case str_split c xs of [] \<Rightarrow> [[x]] | w # ws \<Rightarrow> (x # w) # ws))"

fun str_join :: "string \<Rightarrow> string list \<Rightarrow> string" where
  "str_join sep [] = []"
| "str_join sep [w] = w"
| "str_join sep (w # ws) = w @ sep @ str_join sep ws"

text \<open>\<open>strings.Cut\<close> with a separator of one byte; \<open>None\<close> is \<open>found = false\<close>.\<close>

fun str_cut :: "char \<Rightarrow> string \<Rightarrow> (string \<times> string) option" where
  "str_cut c [] = None"
| "str_cut c (x # xs) =
     (if x = c then Some ([], xs) else map_option (\<lambda>(a, b). (x # a, b)) (str_cut c xs))"

definition has_prefix :: "string \<Rightarrow> string \<Rightarrow> bool" where
  "has_prefix p s \<longleftrightarrow> take (length p) s = p"

definition has_suffix :: "string \<Rightarrow> string \<Rightarrow> bool" where
  "has_suffix p s \<longleftrightarrow> has_prefix (rev p) (rev s)"

definition trim_suffix :: "string \<Rightarrow> string \<Rightarrow> string" where
  "trim_suffix p s = (if has_suffix p s then take (length s - length p) s else s)"

fun str_contains :: "string \<Rightarrow> string \<Rightarrow> bool" where
  "str_contains p [] \<longleftrightarrow> p = []"
| "str_contains p (x # xs) \<longleftrightarrow> has_prefix p (x # xs) \<or> str_contains p xs"

text \<open>White space by its UTF-8 encodings of one, two and three bytes.\<close>

definition space1 :: "char \<Rightarrow> bool" where
  "space1 a \<longleftrightarrow> a \<in> {CHR 0x09, CHR 0x0A, CHR 0x0B, CHR 0x0C, CHR 0x0D, CHR 0x20}"

definition space2 :: "char \<Rightarrow> char \<Rightarrow> bool" where
  "space2 a b \<longleftrightarrow> a = CHR 0xC2 \<and> b \<in> {CHR 0x85, CHR 0xA0}"

definition space3 :: "char \<Rightarrow> char \<Rightarrow> char \<Rightarrow> bool" where
  "space3 a b c \<longleftrightarrow>
     a = CHR 0xE1 \<and> b = CHR 0x9A \<and> c = CHR 0x80 \<or>
     a = CHR 0xE2 \<and> b = CHR 0x80 \<and>
       (CHR 0x80 \<le> c \<and> c \<le> CHR 0x8A \<or> c \<in> {CHR 0xA8, CHR 0xA9, CHR 0xAF}) \<or>
     a = CHR 0xE2 \<and> b = CHR 0x81 \<and> c = CHR 0x9F \<or>
     a = CHR 0xE3 \<and> b = CHR 0x80 \<and> c = CHR 0x80"

fun trim_front :: "(char \<Rightarrow> char \<Rightarrow> bool) \<Rightarrow> (char \<Rightarrow> char \<Rightarrow> char \<Rightarrow> bool) \<Rightarrow> string \<Rightarrow> string" where
  "trim_front s2 s3 [] = []"
| "trim_front s2 s3 [a] = (if space1 a then [] else [a])"
| "trim_front s2 s3 [a, b] =
     (if space1 a then trim_front s2 s3 [b] else if s2 a b then [] else [a, b])"
| "trim_front s2 s3 (a # b # c # s) =
     (if space1 a then trim_front s2 s3 (b # c # s)
      else if s2 a b then trim_front s2 s3 (c # s)
      else if s3 a b c then trim_front s2 s3 s
      else a # b # c # s)"

definition trim_space :: "string \<Rightarrow> string" where
  "trim_space s =
     rev (trim_front (\<lambda>a b. space2 b a) (\<lambda>a b c. space3 c b a)
       (rev (trim_front space2 space3 s)))"

definition ascii_lower :: "char \<Rightarrow> char" where
  "ascii_lower c =
     (if CHR ''A'' \<le> c \<and> c \<le> CHR ''Z'' then char_of (of_char c + 32 :: nat) else c)"

definition to_lower :: "string \<Rightarrow> string" where
  "to_lower = map ascii_lower"

section \<open>Numbers as text\<close>

definition digit_char :: "nat \<Rightarrow> char" where
  "digit_char d = ''0123456789ABCDEF'' ! d"

definition digit_val :: "char \<Rightarrow> nat option" where
  "digit_val c =
     (if CHR ''0'' \<le> c \<and> c \<le> CHR ''9'' then Some (of_char c - 48)
      else if CHR ''A'' \<le> c \<and> c \<le> CHR ''F'' then Some (of_char c - 55)
      else if CHR ''a'' \<le> c \<and> c \<le> CHR ''f'' then Some (of_char c - 87)
      else None)"

text \<open>Digits of a number in base \<open>b\<close> (10 or 16), most significant first.\<close>

fun show_base :: "nat \<Rightarrow> nat \<Rightarrow> string" where
  "show_base b n =
     (if n < b \<or> b < 2 then [digit_char n] else show_base b (n div b) @ [digit_char (n mod b)])"

declare show_base.simps [simp del]

text \<open>The value of a digit string; \<open>None\<close> when a character is no digit of the base.\<close>

fun read_base :: "nat \<Rightarrow> nat \<Rightarrow> string \<Rightarrow> nat option" where
  "read_base b acc [] = Some acc"
| "read_base b acc (c # cs) =
     (case digit_val c of None \<Rightarrow> None
      | Some d \<Rightarrow> if d < b then read_base b (b * acc + d) cs else None)"

definition show_nat :: "nat \<Rightarrow> string" where
  "show_nat n = show_base 10 n"

text \<open>\<open>%d\<close> of an integer and \<open>(big.Int).String\<close>.\<close>

definition show_int :: "int \<Rightarrow> string" where
  "show_int i = (if i < 0 then ''-'' else '''') @ show_nat (nat \<bar>i\<bar>)"

text \<open>An optional sign, then at least one digit, and nothing else.\<close>

definition read_signed :: "nat \<Rightarrow> string \<Rightarrow> int option" where
  "read_signed b s =
     (let (neg, ds) = (case s of
          [] \<Rightarrow> (False, [])
        | c # cs \<Rightarrow> if c = CHR ''-'' then (True, cs) else if c = CHR ''+'' then (False, cs)
                   else (False, s))
      in if ds = [] then None
         else map_option (\<lambda>n. if neg then - int n else int n) (read_base b 0 ds))"

text \<open>\<open>strconv.Atoi\<close>: a decimal number in the range of a 64-bit \<open>int\<close>.\<close>

definition go_atoi :: "string \<Rightarrow> int option" where
  "go_atoi s = (case read_signed 10 s of None \<Rightarrow> None
     | Some i \<Rightarrow> if - (2 ^ 63) \<le> i \<and> i < 2 ^ 63 then Some i else None)"

text \<open>\<open>fmt\<close>'s \<open>%04X\<close> of a \<open>big.Int\<close>: the zeros go between the sign and the digits.\<close>

definition fmt_04X :: "int \<Rightarrow> string" where
  "fmt_04X i =
     (let ds = show_base 16 (nat \<bar>i\<bar>); sg = (if i < 0 then ''-'' else '''')
      in sg @ replicate (4 - length sg - length ds) (CHR ''0'') @ ds)"

text \<open>\<open>%0wd\<close> for a non-negative number, as the time layouts use it.\<close>

definition pad_nat :: "nat \<Rightarrow> nat \<Rightarrow> string" where
  "pad_nat w n = (let ds = show_nat n in replicate (w - length ds) (CHR ''0'') @ ds)"

text \<open>\<open>%q\<close>, for the quotes and control characters of an ASCII string.\<close>

definition go_quote :: "string \<Rightarrow> string" where
  "go_quote s = CHR 0x22 # concat (map (\<lambda>c.
     if c = CHR 0x22 then [CHR 0x5C, CHR 0x22]
     else if c = CHR 0x5C then [CHR 0x5C, CHR 0x5C]
     else if c = CHR 0x0A then [CHR 0x5C, CHR ''n'']
     else if c = CHR 0x0D then [CHR 0x5C, CHR ''r'']
     else if c = CHR 0x09 then [CHR 0x5C, CHR ''t'']
     else [c]) s) @ [CHR 0x22]"

section \<open>Lemmas\<close>

lemma str_split_not_Nil [simp]: "str_split c s \<noteq> []"
  by (induction s) (auto split: list.splits)

lemma str_split_parts: "w \<in> set (str_split c s) \<Longrightarrow> c \<notin> set w"
  by (induction s arbitrary: w) (auto split: if_splits list.splits)

lemma str_join_split: "str_join [c] (str_split c s) = s"
proof (induction s)
  case Nil
  then show ?case by simp
next
  case (Cons x xs)
  obtain w ws where "str_split c xs = w # ws"
    by (cases "str_split c xs") auto
  with Cons.IH show ?case by (cases ws) auto
qed

lemma str_split_append_sep:
  "c \<notin> set w \<Longrightarrow> str_split c (w @ c # s) = w # str_split c s"
  by (induction w) auto

lemma str_split_single: "c \<notin> set w \<Longrightarrow> str_split c w = [w]"
  by (induction w) auto

lemma str_split_join:
  assumes "ws \<noteq> []" and "\<And>w. w \<in> set ws \<Longrightarrow> c \<notin> set w"
  shows "str_split c (str_join [c] ws) = ws"
  using assms
proof (induction "[c]" ws rule: str_join.induct)
  case (3 w v vs)
  then show ?case by (simp add: str_split_append_sep)
qed (auto simp: str_split_single)

lemma str_cut_Some: "str_cut c s = Some (a, b) \<longleftrightarrow> s = a @ c # b \<and> c \<notin> set a"
proof (induction s arbitrary: a)
  case (Cons x xs)
  then show ?case by (cases a) auto
qed simp

lemma str_cut_None: "str_cut c s = None \<longleftrightarrow> c \<notin> set s"
  by (induction s) auto

lemma has_prefix_iff: "has_prefix p s \<longleftrightarrow> (\<exists>t. s = p @ t)"
  by (auto simp: has_prefix_def) (metis append_take_drop_id)

lemma str_contains_iff: "str_contains p s \<longleftrightarrow> (\<exists>a b. s = a @ p @ b)"
proof (induction s)
  case (Cons x xs)
  have "(\<exists>a b. x # xs = a @ p @ b) \<longleftrightarrow> (\<exists>b. x # xs = p @ b) \<or> (\<exists>a b. xs = a @ p @ b)"
    by (metis append_Cons append_Nil list.exhaust list.inject)
  with Cons.IH show ?case by (simp add: has_prefix_iff)
qed simp

subsection \<open>Digits\<close>

lemma digit_val_char: "d < 16 \<Longrightarrow> digit_val (digit_char d) = Some d"
  by (simp add: numeral_eq_Suc less_Suc_eq digit_char_def digit_val_def)
    (elim disjE; simp; code_simp)

lemma read_base_append:
  "read_base b acc (xs @ ys) = Option.bind (read_base b acc xs) (\<lambda>a. read_base b a ys)"
  by (induction xs arbitrary: acc) (auto split: option.splits)

lemma read_base_zeros: "0 < b \<Longrightarrow> read_base b 0 (replicate k (CHR ''0'') @ ds) = read_base b 0 ds"
  by (induction k) (auto simp: digit_val_def)

lemma read_show_base:
  assumes "2 \<le> b" and "b \<le> 16"
  shows "read_base b 0 (show_base b n) = Some n"
proof (induction n rule: less_induct)
  case (less n)
  show ?case
  proof (cases "n < b")
    case True
    with assms show ?thesis by (simp add: show_base.simps [of b n] digit_val_char)
  next
    case False
    with assms less have "read_base b 0 (show_base b (n div b)) = Some (n div b)" by simp
    moreover have "n mod b < b" using assms by simp
    moreover from this have "digit_val (digit_char (n mod b)) = Some (n mod b)"
      using assms by (intro digit_val_char) linarith
    ultimately show ?thesis using False assms
      by (simp add: show_base.simps [of b n] read_base_append)
  qed
qed

lemma show_base_not_Nil [simp]: "show_base b n \<noteq> []"
  by (subst show_base.simps) simp

definition digit_chars :: "char set" where
  "digit_chars = set ''0123456789ABCDEF''"

lemma digit_char_in: "d < 16 \<Longrightarrow> digit_char d \<in> digit_chars"
  unfolding digit_char_def digit_chars_def by (rule nth_mem) simp

lemma set_show_base: "b \<le> 16 \<Longrightarrow> 2 \<le> b \<Longrightarrow> set (show_base b n) \<subseteq> digit_chars"
proof (induction n rule: less_induct)
  case (less n)
  show ?case
  proof (cases "n < b")
    case True
    with less.prems show ?thesis by (simp add: show_base.simps [of b n] digit_char_in)
  next
    case False
    with less.prems less.IH [of "n div b"] have "set (show_base b (n div b)) \<subseteq> digit_chars" by simp
    moreover have "n mod b < b" using less.prems by simp
    then have "n mod b < 16" using less.prems(1) by linarith
    ultimately show ?thesis using False less.prems
      by (simp add: show_base.simps [of b n] digit_char_in)
  qed
qed

lemma digit_chars_simps [simp]:
  "CHR ''-'' \<notin> digit_chars" "CHR ''+'' \<notin> digit_chars" "CHR ''.'' \<notin> digit_chars"
  "CHR 0x0A \<notin> digit_chars" "CHR ''0'' \<in> digit_chars"
  by (simp_all add: digit_chars_def)

lemma read_signed_digits:
  assumes "set ds \<subseteq> digit_chars" and "ds \<noteq> []"
  shows "read_signed b ds = map_option int (read_base b 0 ds)"
    and "read_signed b (CHR ''-'' # ds) = map_option (\<lambda>n. - int n) (read_base b 0 ds)"
proof -
  obtain c cs where "ds = c # cs" using assms(2) by (cases ds) auto
  with assms(1) have "c \<noteq> CHR ''-''" "c \<noteq> CHR ''+''" by auto
  with \<open>ds = c # cs\<close> show "read_signed b ds = map_option int (read_base b 0 ds)"
    by (simp add: read_signed_def)
  show "read_signed b (CHR ''-'' # ds) = map_option (\<lambda>n. - int n) (read_base b 0 ds)"
    using assms(2) by (simp add: read_signed_def)
qed

lemma fmt_04X_shape:
  obtains ds where "set ds \<subseteq> digit_chars" "ds \<noteq> []" "read_base 16 0 ds = Some (nat \<bar>i\<bar>)"
    "fmt_04X i = (if i < 0 then ''-'' else '''') @ ds"
proof
  let ?ds = "show_base 16 (nat \<bar>i\<bar>)" and ?sg = "if i < 0 then ''-'' else ''''"
  let ?p = "replicate (4 - length ?sg - length ?ds) (CHR ''0'') @ ?ds"
  show "set ?p \<subseteq> digit_chars" using set_show_base [of 16 "nat \<bar>i\<bar>"] by auto
  show "?p \<noteq> []" by simp
  show "read_base 16 0 ?p = Some (nat \<bar>i\<bar>)" by (simp add: read_base_zeros read_show_base)
  show "fmt_04X i = ?sg @ ?p" by (simp add: fmt_04X_def Let_def)
qed

lemma read_fmt_04X: "read_signed 16 (fmt_04X i) = Some i"
proof -
  obtain ds where "set ds \<subseteq> digit_chars" "ds \<noteq> []" "read_base 16 0 ds = Some (nat \<bar>i\<bar>)"
    "fmt_04X i = (if i < 0 then ''-'' else '''') @ ds"
    by (rule fmt_04X_shape)
  then show ?thesis by (simp add: read_signed_digits)
qed

lemma set_show_int: "set (show_int i) \<subseteq> insert (CHR ''-'') digit_chars"
  using set_show_base [of 10 "nat \<bar>i\<bar>"] by (auto simp: show_int_def show_nat_def)

lemma read_show_int: "read_signed 10 (show_int i) = Some i"
proof -
  have "set (show_base 10 (nat \<bar>i\<bar>)) \<subseteq> digit_chars" by (simp add: set_show_base)
  from read_signed_digits [OF this show_base_not_Nil, of 10] show ?thesis
    by (cases "i < 0") (simp_all add: show_int_def show_nat_def read_show_base)
qed

lemma show_int_inject: "show_int i = show_int j \<longleftrightarrow> i = j"
  by (metis read_show_int option.inject)

subsection \<open>Trimming\<close>

definition plain_char :: "char \<Rightarrow> bool" where
  "plain_char c \<longleftrightarrow> 0x21 \<le> (of_char c :: nat) \<and> (of_char c :: nat) \<le> 0x7E"

lemma plain_char_not_space:
  assumes "plain_char c"
  shows "\<not> space1 c" "\<not> space2 c b" "\<not> space2 b c" "\<not> space3 c a b" "\<not> space3 a b c"
  using assms by (auto simp: plain_char_def space1_def space2_def space3_def less_eq_char_def)

lemma trim_front_plain:
  assumes "plain_char c" and "\<And>b. \<not> s2 c b" and "\<And>a b. \<not> s3 c a b"
  shows "trim_front s2 s3 (c # s) = c # s"
  using assms plain_char_not_space(1) [OF assms(1)]
  by (cases s rule: remdups_adj.cases) auto

lemma trim_front_newline: "trim_front s2 s3 (CHR 0x0A # c # s) = trim_front s2 s3 (c # s)"
  by (cases s) (simp_all add: space1_def)

text \<open>A string that starts and ends with printing ASCII characters is left as it is.\<close>

lemma trim_space_plain:
  assumes "s \<noteq> []" and "plain_char (hd s)" and "plain_char (last s)"
  shows "trim_space s = s"
proof -
  obtain a t where s: "s = a # t" using assms(1) by (cases s) auto
  obtain u b where r: "s = u @ [b]" using assms(1) by (cases s rule: rev_cases) auto
  have "trim_front space2 space3 s = s"
    unfolding s using assms(2) s by (intro trim_front_plain) (auto simp: plain_char_not_space)
  moreover have "trim_front (\<lambda>a b. space2 b a) (\<lambda>a b c. space3 c b a) (rev s) = rev s"
    unfolding r rev_append rev.simps append_Nil append_Cons using assms(3) r
    by (intro trim_front_plain) (auto simp: plain_char_not_space)
  ultimately show ?thesis by (simp add: trim_space_def)
qed

lemma trim_space_newline:
  assumes "s \<noteq> []" and "plain_char (hd s)" and "plain_char (last s)"
  shows "trim_space (s @ [CHR 0x0A]) = s"
proof -
  obtain a t where s: "s = a # t" using assms(1) by (cases s) auto
  obtain u b where r: "s = u @ [b]" using assms(1) by (cases s rule: rev_cases) auto
  have "trim_front space2 space3 (s @ [CHR 0x0A]) = s @ [CHR 0x0A]"
    unfolding s append_Cons using assms(2) s
    by (intro trim_front_plain) (auto simp: plain_char_not_space)
  moreover have "trim_front (\<lambda>a b. space2 b a) (\<lambda>a b c. space3 c b a) (rev (s @ [CHR 0x0A])) = rev s"
    unfolding r using assms(3) r
    by (simp add: trim_front_newline) (intro trim_front_plain; simp add: plain_char_not_space)
  ultimately show ?thesis by (simp add: trim_space_def)
qed

lemma digit_chars_plain: "c \<in> digit_chars \<Longrightarrow> plain_char c"
  by (auto simp: digit_chars_def plain_char_def)

lemma trim_space_fmt_04X: "trim_space (fmt_04X i @ [CHR 0x0A]) = fmt_04X i"
proof -
  obtain ds where ds: "set ds \<subseteq> digit_chars" "ds \<noteq> []"
    "fmt_04X i = (if i < 0 then ''-'' else '''') @ ds"
    by (rule fmt_04X_shape)
  have minus: "plain_char (CHR ''-'')" by (simp add: plain_char_def)
  from ds(1,2) have "plain_char (hd ds)" "plain_char (last ds)"
    by (auto intro!: digit_chars_plain)
  with ds(2,3) minus show ?thesis by (intro trim_space_newline) auto
qed


text \<open>The text of the serial file: a codec on all integers.\<close>

interpretation serial_text: codec
  "\<lambda>i. fmt_04X i @ [CHR 0x0A]" "\<lambda>s. read_signed 16 (trim_space s)" "\<lambda>_. True"
  by unfold_locales (simp add: trim_space_fmt_04X read_fmt_04X)


section \<open>Evaluation of decimal and hexadecimal output\<close>

text \<open>The same digits computed on binary integers, for evaluation only.\<close>

function show_base_int :: "int \<Rightarrow> int \<Rightarrow> string" where
  "show_base_int b i =
     (if i < b \<or> b < 2 then [digit_char (nat i)]
      else show_base_int b (i div b) @ [digit_char (nat (i mod b))])"
  by pat_completeness auto
termination
proof (relation "measure (\<lambda>(b, i). nat i)")
  fix b i :: int
  assume "\<not> (i < b \<or> b < 2)"
  then have "i div b < i" "0 \<le> i div b" by (auto simp: int_div_less_self pos_imp_zdiv_nonneg_iff)
  then show "((b, i div b), b, i) \<in> measure (\<lambda>(b, i). nat i)" by simp
qed simp

declare show_base_int.simps [simp del]

lemma show_base_int: "show_base_int (int b) (int n) = show_base b n"
proof (induction b n rule: show_base.induct)
  case (1 b n)
  show ?case
  proof (cases "n < b \<or> b < 2")
    case True
    then have "show_base_int (int b) (int n) = [digit_char n]"
      by (subst show_base_int.simps) auto
    with True show ?thesis by (subst show_base.simps) simp
  next
    case False
    then have "show_base_int (int b) (int n)
        = show_base_int (int b) (int n div int b) @ [digit_char (nat (int n mod int b))]"
      by (subst show_base_int.simps) auto
    also have "\<dots> = show_base b (n div b) @ [digit_char (n mod b)]"
      using 1 [OF False] by (simp add: zdiv_int [symmetric] zmod_int [symmetric] del: of_nat_div)
    finally show ?thesis using False by (subst show_base.simps) simp
  qed
qed

lemma show_nat_abs: "show_nat (nat \<bar>i\<bar>) = show_base_int 10 \<bar>i\<bar>"
  using show_base_int [of 10 "nat \<bar>i\<bar>"] by (simp add: show_nat_def)

lemma show_int_code [code]: "show_int i = (if i < 0 then ''-'' else '''') @ show_base_int 10 \<bar>i\<bar>"
  by (simp add: show_int_def show_nat_abs)

lemma fmt_04X_code [code]:
  "fmt_04X i = (let ds = show_base_int 16 \<bar>i\<bar>; sg = (if i < 0 then ''-'' else '''')
     in sg @ replicate (4 - length sg - length ds) (CHR ''0'') @ ds)"
  using show_base_int [of 16 "nat \<bar>i\<bar>"] by (simp add: fmt_04X_def Let_def)

end
