(* ===== verification/GoAsn1.thy ===== *)
theory GoAsn1
  imports GoStrings
begin

text \<open>
  The parts of \<open>encoding/asn1\<close> the program calls, on byte strings: object identifiers,
  \<open>Marshal\<close> and \<open>Unmarshal\<close> of a \<open>RawValue\<close> (identifier octets, DER length, contents).
\<close>

section \<open>Object identifiers\<close>

type_synonym oid = "int list"

definition oid_string :: "oid \<Rightarrow> string" where
  "oid_string a = str_join ''.'' (map show_int a)"

text \<open>
  Go's parsers read each number of an encoded identifier into 31 bits; the first number encodes the
  first two arcs. Marshalling has no such limit, so an identifier can be written that nobody reads back.
  (Where that first number exceeds the machine's 63 bits, marshalling leaves it out; the identifier that is
  read then is another one, which these theories do not follow: they take it as unreadable.)
\<close>

definition oid_fits :: "oid \<Rightarrow> bool" where
  "oid_fits a = (case a of
       v # w # r \<Rightarrow> 40 * v + w \<le> 2147483647 \<and> list_all (\<lambda>x. x \<le> 2147483647) r
     | _ \<Rightarrow> False)"

lemma dot_notin_show_int: "CHR ''.'' \<notin> set (show_int i)"
  using set_show_int [of i] by auto

lemma oid_string_inject:
  assumes "a \<noteq> []" and "b \<noteq> []" and "oid_string a = oid_string b"
  shows "a = b"
proof -
  have "map show_int c = str_split (CHR ''.'') (oid_string c)" if "c \<noteq> []" for c
    unfolding oid_string_def using that
    by (intro str_split_join [symmetric]) (auto simp: dot_notin_show_int)
  with assms have "map show_int a = map show_int b" by metis
  moreover have "inj show_int" by (rule injI) (simp add: show_int_inject)
  ultimately show ?thesis by (simp add: inj_map_eq_map)
qed

section \<open>Raw values\<close>

text \<open>\<open>asn1.RawValue\<close>: class (0 is universal), constructed bit, tag number and contents.\<close>

record raw_value =
  raw_class :: nat
  raw_compound :: bool
  raw_tag :: nat
  raw_bytes :: string

fun be_bytes :: "nat \<Rightarrow> string" where
  "be_bytes n = (if n < 256 then [char_of n] else be_bytes (n div 256) @ [char_of (n mod 256)])"

declare be_bytes.simps [simp del]

text \<open>\<open>appendTagAndLength\<close>, for tag numbers below 31 (the program marshals no other).\<close>

definition asn1_length :: "nat \<Rightarrow> string" where
  "asn1_length n =
     (if n < 128 then [char_of n]
      else (let bs = be_bytes n in char_of (128 + length bs) # bs))"

definition asn1_marshal :: "raw_value \<Rightarrow> string" where
  "asn1_marshal v =
     char_of (raw_class v * 64 + (if raw_compound v then 32 else 0) + raw_tag v)
       # asn1_length (length (raw_bytes v)) @ raw_bytes v"

text \<open>\<open>parseBase128Int\<close>: at most five octets, minimal, at most \<open>2^31 - 1\<close>.\<close>

fun base128 :: "nat \<Rightarrow> nat \<Rightarrow> string \<Rightarrow> (nat \<times> string) option" where
  "base128 k acc [] = None"
| "base128 k acc (c # cs) =
     (if k = 5 then None
      else let b = of_char c :: nat in
        if k = 0 \<and> b = 128 then None
        else let a = acc * 128 + b mod 128 in
          if b < 128 then (if a > 2147483647 then None else Some (a, cs))
          else base128 (Suc k) a cs)"

fun length_octets :: "nat \<Rightarrow> nat \<Rightarrow> string \<Rightarrow> (nat \<times> string) option" where
  "length_octets 0 acc s = Some (acc, s)"
| "length_octets (Suc k) acc [] = None"
| "length_octets (Suc k) acc (c # cs) =
     (if acc \<ge> 8388608 then None
      else let a = acc * 256 + of_char c in
        if a = 0 then None else length_octets k a cs)"

text \<open>The length after the identifier octets: DER, so definite and minimal.\<close>

definition parse_length :: "string \<Rightarrow> (nat \<times> string) option" where
  "parse_length s = (case s of
       [] \<Rightarrow> None
     | c # cs \<Rightarrow>
         (let b = of_char c :: nat in
          if b < 128 then Some (b, cs)
          else if b = 128 then None
          else (case length_octets (b - 128) 0 cs of
              None \<Rightarrow> None
            | Some (n, r) \<Rightarrow> if n < 128 then None else Some (n, r))))"

text \<open>\<open>asn1.Unmarshal(der, &raw)\<close>: the first value and the bytes after it.\<close>

definition asn1_unmarshal :: "string \<Rightarrow> (raw_value \<times> string) option" where
  "asn1_unmarshal s = (case s of
       [] \<Rightarrow> None
     | c # cs \<Rightarrow>
         (let b = of_char c :: nat in
          (case (if b mod 32 = 31
                 then (case base128 0 0 cs of None \<Rightarrow> None
                       | Some (t, r) \<Rightarrow> if t < 31 then None else Some (t, r))
                 else Some (b mod 32, cs)) of
              None \<Rightarrow> None
            | Some (t, r) \<Rightarrow>
                (case parse_length r of
                   None \<Rightarrow> None
                 | Some (n, r') \<Rightarrow>
                     if length r' < n then None
                     else Some (\<lparr>raw_class = b div 64, raw_compound = (b div 32 mod 2 = 1),
                                 raw_tag = t, raw_bytes = take n r'\<rparr>, drop n r')))))"

section \<open>Round trip\<close>

lemma of_char_of: "n < 256 \<Longrightarrow> of_char (char_of (n :: nat) :: char) = n"
  by simp

lemma length_octets_be_bytes:
  "0 < n \<Longrightarrow> n < 2147483648 \<Longrightarrow>
     length_octets (length (be_bytes n) + k) 0 (be_bytes n @ s) = length_octets k n s"
proof (induction n arbitrary: k s rule: be_bytes.induct)
  case (1 n)
  show ?case
  proof (cases "n < 256")
    case True
    with "1.prems" show ?thesis by (simp add: be_bytes.simps [of n])
  next
    case False
    have "length_octets (length (be_bytes (n div 256)) + Suc k) 0
            (be_bytes (n div 256) @ char_of (n mod 256) # s)
          = length_octets (Suc k) (n div 256) (char_of (n mod 256) # s)"
      using False "1.prems" by (intro "1.IH") (auto simp: div_greater_zero_iff)
    moreover have "n div 256 < 8388608" using "1.prems" by simp
    moreover have "n div 256 * 256 + n mod 256 = n" by simp
    ultimately show ?thesis using False "1.prems"
      by (simp add: be_bytes.simps [of n] Let_def)
  qed
qed

lemma length_be_bytes: "n < 256 ^ k \<Longrightarrow> 0 < k \<Longrightarrow> length (be_bytes n) \<le> k"
proof (induction n arbitrary: k rule: be_bytes.induct)
  case (1 n)
  show ?case
  proof (cases "n < 256")
    case True
    with "1.prems" show ?thesis by (simp add: be_bytes.simps [of n])
  next
    case False
    with "1.prems" obtain j where "k = Suc j" "0 < j" by (cases k; cases "k - 1") auto
    with False "1.prems" "1.IH" [of j] show ?thesis
      by (simp add: be_bytes.simps [of n] less_mult_imp_div_less mult.commute)
  qed
qed

lemma parse_asn1_length:
  assumes "n < 2147483648"
  shows "parse_length (asn1_length n @ s) = Some (n, s)"
proof (cases "n < 128")
  case True
  then show ?thesis by (simp add: parse_length_def asn1_length_def)
next
  case False
  have "length (be_bytes n) \<le> 4" using assms by (intro length_be_bytes) simp_all
  moreover have "0 < length (be_bytes n)" by (subst be_bytes.simps) simp
  ultimately have "(128 + length (be_bytes n)) mod 256 = 128 + length (be_bytes n)"
    "length (be_bytes n) \<noteq> 0" by auto
  with False length_octets_be_bytes [of n 0 s] assms show ?thesis
    by (simp add: parse_length_def asn1_length_def Let_def)
qed

lemma identifier_octet:
  fixes c t :: nat
  assumes "t < 31" and b: "b = c * 64 + (if p then 32 else 0) + t"
  shows "b mod 32 = t" and "b div 64 = c" and "b div 32 mod 2 = 1 \<longleftrightarrow> p"
proof -
  have b32: "b = t + (2 * c + (if p then 1 else 0)) * 32" using b by simp
  show "b mod 32 = t" unfolding b32 using assms(1) by (simp only: mod_mult_self1 mod_less)
  have "b div 32 = 2 * c + (if p then 1 else 0)"
    unfolding b32 using assms(1) by (subst div_mult_self1) simp_all
  then show "b div 32 mod 2 = 1 \<longleftrightarrow> p" by simp
  have b64: "b = ((if p then 32 else 0) + t) + c * 64" using b by simp
  show "b div 64 = c" unfolding b64 using assms(1) by (subst div_mult_self1) simp_all
qed

text \<open>A marshalled value of less than \<open>2^31\<close> bytes is read back, whatever follows it.\<close>

lemma asn1_unmarshal_marshal:
  assumes "raw_class v < 4" and "raw_tag v < 31" and "length (raw_bytes v) < 2147483648"
  shows "asn1_unmarshal (asn1_marshal v @ s) = Some (v, s)"
proof -
  let ?b = "raw_class v * 64 + (if raw_compound v then 32 else 0) + raw_tag v"
  have "?b < 256" using assms by auto
  moreover note identifier_octet [OF assms(2) refl, of "raw_class v" "raw_compound v"]
  ultimately have "asn1_unmarshal (asn1_marshal v @ s) =
      Some (\<lparr>raw_class = raw_class v, raw_compound = raw_compound v, raw_tag = raw_tag v,
              raw_bytes = raw_bytes v\<rparr>, s)"
    using assms(2) parse_asn1_length [OF assms(3), of "raw_bytes v @ s"]
    unfolding asn1_unmarshal_def asn1_marshal_def Let_def
    by (simp del: One_nat_def)
  then show ?thesis by simp
qed


section \<open>Progress of the reader\<close>

lemma base128_shorter: "base128 k acc s = Some (n, r) \<Longrightarrow> length r < length s"
  by (induction s arbitrary: k acc) (auto simp: Let_def split: if_splits intro: less_SucI)

lemma length_octets_shorter: "length_octets k acc s = Some (n, r) \<Longrightarrow> length r \<le> length s"
  by (induction k acc s rule: length_octets.induct) (fastforce simp: Let_def split: if_splits)+

lemma parse_length_shorter: "parse_length s = Some (n, r) \<Longrightarrow> length r < length s"
  by (auto simp: parse_length_def Let_def split: list.splits if_splits option.splits
      dest!: length_octets_shorter)

lemma asn1_unmarshal_shorter:
  assumes "asn1_unmarshal s = Some (v, r)"
  shows "length r < length s"
  using assms
  by (fastforce simp: asn1_unmarshal_def Let_def split: list.splits if_splits option.splits
      dest: parse_length_shorter base128_shorter)

end
