(* ===== verification/GoTime.thy ===== *)
theory GoTime
  imports GoStrings
begin

text \<open>
  \<open>time.Time\<close> as nanoseconds since the Unix epoch (UTC) and \<open>time.Duration\<close> as nanoseconds,
  with the two layouts the program prints and \<open>time.ParseDuration\<close>.
\<close>

type_synonym time = int
type_synonym duration = int

definition second :: duration where "second = 1000000000"
definition hour :: duration where "hour = 3600 * second"

text \<open>The whole second a time lies in: X.509 times carry no fraction.\<close>

definition trunc_second :: "time \<Rightarrow> time" where
  "trunc_second t = t - t mod second"

lemma trunc_second_le: "trunc_second t \<le> t"
  by (simp add: trunc_second_def second_def)

lemma trunc_second_idem [simp]: "trunc_second (trunc_second t) = trunc_second t"
  by (simp add: trunc_second_def second_def mod_diff_left_eq [symmetric])

lemma trunc_second_mono: "s \<le> t \<Longrightarrow> trunc_second s \<le> trunc_second t"
  by (simp add: trunc_second_def second_def minus_mod_eq_mult_div zdiv_mono1)

section \<open>Calendar and layouts\<close>

text \<open>Year, month and day of a number of days since 1970-01-01 (proleptic Gregorian).\<close>

definition civil_of_days :: "int \<Rightarrow> int \<times> int \<times> int" where
  "civil_of_days days =
     (let z = days + 719468;
          era = z div 146097;
          doe = z mod 146097;
          yoe = (doe - doe div 1460 + doe div 36524 - doe div 146096) div 365;
          doy = doe - (365 * yoe + yoe div 4 - yoe div 100);
          mp = (5 * doy + 2) div 153;
          d = doy - (153 * mp + 2) div 5 + 1;
          m = (if mp < 10 then mp + 3 else mp - 9);
          y = yoe + era * 400 + (if m \<le> 2 then 1 else 0)
      in (y, m, d))"

definition pad_int :: "nat \<Rightarrow> int \<Rightarrow> string" where
  "pad_int w i = (if i < 0 then ''-'' else '''') @ pad_nat w (nat \<bar>i\<bar>)"

lemma pad_int_code [code]:
  "pad_int w i = (if i < 0 then ''-'' else '''') @
     (let ds = show_base_int 10 \<bar>i\<bar> in replicate (w - length ds) (CHR ''0'') @ ds)"
  by (simp add: pad_int_def pad_nat_def show_nat_abs)

text \<open>The layout \<open>2006-01-02T15:04:05\<close> in UTC.\<close>

definition format_utc :: "time \<Rightarrow> string" where
  "format_utc t =
     (let s = t div second; days = s div 86400; r = s mod 86400;
          (y, m, d) = civil_of_days days
      in pad_int 4 y @ ''-'' @ pad_int 2 m @ ''-'' @ pad_int 2 d @ ''T'' @
         pad_int 2 (r div 3600) @ '':'' @ pad_int 2 (r div 60 mod 60) @ '':'' @ pad_int 2 (r mod 60))"

text \<open>\<open>time.RFC3339\<close> of a UTC time.\<close>

definition format_rfc3339 :: "time \<Rightarrow> string" where
  "format_rfc3339 t = format_utc t @ ''Z''"

section \<open>ParseDuration\<close>

definition is_digit :: "char \<Rightarrow> bool" where
  "is_digit c \<longleftrightarrow> CHR ''0'' \<le> c \<and> c \<le> CHR ''9''"

text \<open>\<open>leadingInt\<close>: \<open>None\<close> on overflow past \<open>2^63\<close>.\<close>

fun leading_int :: "nat \<Rightarrow> string \<Rightarrow> nat option" where
  "leading_int x [] = Some x"
| "leading_int x (c # cs) =
     (if x > 2 ^ 63 div 10 then None
      else let y = x * 10 + (of_char c - 48) in if y > 2 ^ 63 then None else leading_int y cs)"

text \<open>\<open>leadingFraction\<close>: digits past the overflow are read and ignored; value and scale.\<close>

fun leading_fraction :: "nat \<Rightarrow> nat \<Rightarrow> string \<Rightarrow> nat \<times> nat" where
  "leading_fraction x sc [] = (x, sc)"
| "leading_fraction x sc (c # cs) =
     (if x > (2 ^ 63 - 1) div 10 then (x, sc)
      else let y = x * 10 + (of_char c - 48) in
        if y > 2 ^ 63 then (x, sc) else leading_fraction y (sc * 10) cs)"

definition unit_map :: "(string \<times> nat) list" where
  "unit_map = [(''ns'', 1), (''us'', 1000),
     ([CHR 0xC2, CHR 0xB5, CHR ''s''], 1000), ([CHR 0xCE, CHR 0xBC, CHR ''s''], 1000),
     (''ms'', 1000000), (''s'', 1000000000), (''m'', 60000000000), (''h'', 3600000000000)]"

text \<open>
  One term of a duration: digits, an optional fraction and a unit; the value in nanoseconds
  and the text after it. The fraction is its exact value rounded down (Go computes it in
  \<open>float64\<close>, to the nanosecond).
\<close>

definition duration_term :: "string \<Rightarrow> (nat \<times> string) option" where
  "duration_term s =
     (let ds = takeWhile is_digit s; s1 = dropWhile is_digit s;
          dot = (s1 \<noteq> [] \<and> hd s1 = CHR ''.'');
          fs = (if dot then takeWhile is_digit (tl s1) else []);
          s2 = (if dot then dropWhile is_digit (tl s1) else s1);
          un = takeWhile (\<lambda>c. \<not> (c = CHR ''.'' \<or> is_digit c)) s2;
          s3 = dropWhile (\<lambda>c. \<not> (c = CHR ''.'' \<or> is_digit c)) s2
      in (case leading_int 0 ds of None \<Rightarrow> None
        | Some v \<Rightarrow>
            if ds = [] \<and> fs = [] \<or> un = [] then None
            else (case map_of unit_map un of None \<Rightarrow> None
              | Some u \<Rightarrow>
                  if v > 2 ^ 63 div u then None
                  else let (f, sc) = leading_fraction 0 1 fs; w = v * u + f * u div sc in
                    if w > 2 ^ 63 then None else Some (w, s3))))"

lemma duration_term_shorter:
  assumes "duration_term s = Some (w, r)"
  shows "length r < length s"
proof -
  let ?s1 = "dropWhile is_digit s" and ?p = "\<lambda>c. \<not> (c = CHR ''.'' \<or> is_digit c)"
  let ?s2 = "if ?s1 \<noteq> [] \<and> hd ?s1 = CHR ''.'' then dropWhile is_digit (tl ?s1) else ?s1"
  from assms have un: "takeWhile ?p ?s2 \<noteq> []" and r: "r = dropWhile ?p ?s2"
    unfolding duration_term_def Let_def by (auto split: option.splits prod.splits if_splits)
  have "length ?s2 = length (takeWhile ?p ?s2) + length r"
    unfolding r by (metis length_append takeWhile_dropWhile_id)
  with un have "length r < length ?s2" by (cases "takeWhile ?p ?s2") auto
  also have "length ?s2 \<le> length ?s1"
    using length_dropWhile_le [of is_digit "tl ?s1"] by (auto intro: le_trans)
  also have "length ?s1 \<le> length s" by (rule length_dropWhile_le)
  finally show ?thesis .
qed

function duration_terms :: "nat \<Rightarrow> string \<Rightarrow> nat option" where
  "duration_terms d s =
     (if s = [] then Some d
      else (case duration_term s of None \<Rightarrow> None
        | Some (w, r) \<Rightarrow> if d + w > 2 ^ 63 then None else duration_terms (d + w) r))"
  by pat_completeness auto
termination
  by (relation "measure (\<lambda>(d, s). length s)") (auto dest: duration_term_shorter)

declare duration_terms.simps [simp del]

definition parse_duration :: "string \<Rightarrow> duration res" where
  "parse_duration s =
     (let neg = (s \<noteq> [] \<and> hd s = CHR ''-'');
          r = (if s \<noteq> [] \<and> (hd s = CHR ''-'' \<or> hd s = CHR ''+'') then tl s else s);
          bad = EOther (''time: invalid duration '' @ go_quote s)
      in if r = ''0'' then Inr 0
         else if r = [] then Inl bad
         else (case duration_terms 0 r of None \<Rightarrow> Inl bad
           | Some d \<Rightarrow> if neg then Inr (- int d)
                       else if d > 2 ^ 63 - 1 then Inl bad else Inr (int d)))"


section \<open>Duration.String\<close>

text \<open>\<open>fmtFrac\<close>: the fraction with its trailing zeros left out, and no point for none.\<close>

definition frac_string :: "nat \<Rightarrow> nat \<Rightarrow> string" where
  "frac_string prec v =
     (let ds = rev (dropWhile (\<lambda>c. c = CHR ''0'') (rev (pad_nat prec (v mod 10 ^ prec))))
      in if ds = [] then [] else CHR ''.'' # ds)"

definition duration_string :: "duration \<Rightarrow> string" where
  "duration_string d =
     (let u = nat \<bar>d\<bar>; sg = (if d < 0 then ''-'' else '''') in
      if u = 0 then ''0s''
      else if u < 1000 then sg @ show_nat u @ ''ns''
      else if u < 1000000 then sg @ show_nat (u div 1000) @ frac_string 3 u @ [CHR 0xC2, CHR 0xB5, CHR ''s'']
      else if u < 1000000000 then sg @ show_nat (u div 1000000) @ frac_string 6 u @ ''ms''
      else (let s = u div 1000000000; m = s div 60; h = m div 60 in
        sg @ (if h > 0 then show_nat h @ ''h'' else '''') @
        (if m > 0 then show_nat (m mod 60) @ ''m'' else '''') @
        show_nat (s mod 60) @ frac_string 9 u @ ''s''))"

end
