(* ===== verification/GoNet.thy ===== *)
theory GoNet
  imports GoTime "HOL-Library.Word"
begin

text \<open>
  The parts of Go's \<open>net\<close> the program calls: \<open>ParseIP\<close>, \<open>IP.String\<close>, \<open>IP.To4\<close>,
  \<open>SplitHostPort\<close> and \<open>JoinHostPort\<close>. An \<open>net.IP\<close> is its bytes: 4 or 16 of them.
\<close>

type_synonym byte = "8 word"
type_synonym ip = "byte list"

section \<open>Parsing addresses\<close>

definition v4_field :: "string \<Rightarrow> byte option" where
  "v4_field w =
     (if w = [] \<or> \<not> list_all is_digit w \<or> (length w > 1 \<and> hd w = CHR ''0'') then None
      else (case read_base 10 0 w of
          None \<Rightarrow> None
        | Some n \<Rightarrow> if n \<le> 255 then Some (of_nat n) else None))"

fun opt_all :: "'a option list \<Rightarrow> 'a list option" where
  "opt_all [] = Some []"
| "opt_all (None # xs) = None"
| "opt_all (Some x # xs) = map_option (\<lambda>ys. x # ys) (opt_all xs)"

definition v4_fields :: "string \<Rightarrow> byte list option" where
  "v4_fields s =
     (let ws = str_split (CHR ''.'') s in
      if length ws = 4 then opt_all (map v4_field ws) else None)"

definition is_hex :: "char \<Rightarrow> bool" where
  "is_hex c \<longleftrightarrow> digit_val c \<noteq> None"

text \<open>
  The loop of \<open>netip.parseIPv6\<close>: pairs still to fill, the rest of the text, the bytes so far
  and the position of the ellipsis.
\<close>

fun v6_loop :: "nat \<Rightarrow> string \<Rightarrow> byte list \<Rightarrow> nat option \<Rightarrow> (byte list \<times> nat option \<times> string) option" where
  "v6_loop 0 s acc e = Some (acc, e, s)"
| "v6_loop (Suc n) s acc e =
     (let hs = takeWhile is_hex s; rest = dropWhile is_hex s in
      if hs = [] \<or> length hs > 4 then None
      else if rest \<noteq> [] \<and> hd rest = CHR ''.'' then
        (if e = None \<and> length acc \<noteq> 12 \<or> length acc + 4 > 16 then None
         else map_option (\<lambda>f. (acc @ f, e, [])) (v4_fields s))
      else (case read_base 16 0 hs of None \<Rightarrow> None
        | Some v \<Rightarrow>
            (let acc' = acc @ [of_nat (v div 256), of_nat (v mod 256)] in
             case rest of
               [] \<Rightarrow> Some (acc', e, [])
             | c # r1 \<Rightarrow>
                 if c \<noteq> CHR '':'' then None
                 else (case r1 of
                     [] \<Rightarrow> None
                   | d # r2 \<Rightarrow>
                       if d = CHR '':'' then
                         (if e \<noteq> None then None
                          else if r2 = [] then Some (acc', Some (length acc'), [])
                          else v6_loop n r2 acc' (Some (length acc')))
                       else v6_loop n r1 acc' e))))"

definition parse_ipv6 :: "string \<Rightarrow> ip option" where
  "parse_ipv6 s =
     (if take 2 s = ''::'' \<and> length s = 2 then Some (replicate 16 0)
      else (case (if take 2 s = ''::'' then v6_loop 8 (drop 2 s) [] (Some 0) else v6_loop 8 s [] None) of
          None \<Rightarrow> None
        | Some (acc, e, rest) \<Rightarrow>
            if rest \<noteq> [] then None
            else if length acc < 16 then
              (case e of None \<Rightarrow> None
               | Some k \<Rightarrow> Some (take k acc @ replicate (16 - length acc) 0 @ drop k acc))
            else if e \<noteq> None then None else Some acc))"

definition v4_in_v6 :: "byte list \<Rightarrow> ip" where
  "v4_in_v6 b = replicate 10 0 @ [255, 255] @ b"

text \<open>\<open>net.ParseIP\<close>: the first of \<open>.\<close> and \<open>:\<close> decides the family; zones are refused.\<close>

definition parse_ip :: "string \<Rightarrow> ip option" where
  "parse_ip s =
     (if CHR ''%'' \<in> set s then None
      else (case find (\<lambda>c. c = CHR ''.'' \<or> c = CHR '':'') s of
          None \<Rightarrow> None
        | Some c \<Rightarrow> if c = CHR ''.'' then map_option v4_in_v6 (v4_fields s) else parse_ipv6 s))"

definition ip_to4 :: "ip \<Rightarrow> ip option" where
  "ip_to4 i =
     (if length i = 4 then Some i
      else if length i = 16 \<and> take 10 i = replicate 10 0 \<and> i ! 10 = 255 \<and> i ! 11 = 255
           then Some (drop 12 i) else None)"

section \<open>Printing addresses\<close>

definition hex_lower :: "nat \<Rightarrow> string" where
  "hex_lower n = to_lower (show_base 16 n)"

fun v6_groups :: "byte list \<Rightarrow> nat list" where
  "v6_groups (a # b # r) = (unat a * 256 + unat b) # v6_groups r"
| "v6_groups _ = []"

definition zero_run :: "nat list \<Rightarrow> nat \<Rightarrow> nat" where
  "zero_run gs i = length (takeWhile (\<lambda>g. g = 0) (drop i gs))"

text \<open>The first longest run of at least two zero groups, as start and end.\<close>

definition longest_zeros :: "nat list \<Rightarrow> nat \<times> nat" where
  "longest_zeros gs = foldl (\<lambda>(s, e) i.
     let l = zero_run gs i in if l \<ge> 2 \<and> l > e - s then (i, i + l) else (s, e)) (255, 255) [0..<8]"

definition v6_string :: "byte list \<Rightarrow> string" where
  "v6_string b =
     (let gs = v6_groups b; (s, e) = longest_zeros gs in
      if s = 255 then str_join '':'' (map hex_lower gs)
      else str_join '':'' (map hex_lower (take s gs)) @ ''::'' @
           str_join '':'' (map hex_lower (drop e gs)))"

definition ip_string :: "ip \<Rightarrow> string" where
  "ip_string i =
     (if i = [] then ''<nil>''
      else (case ip_to4 i of
          Some b \<Rightarrow> str_join ''.'' (map (\<lambda>w. show_nat (unat w)) b)
        | None \<Rightarrow> if length i = 16 then v6_string i
                 else CHR ''?'' # concat (map (\<lambda>w. to_lower [digit_char (unat w div 16), digit_char (unat w mod 16)]) i)))"

section \<open>Host and port\<close>

definition last_index :: "char \<Rightarrow> string \<Rightarrow> nat option" where
  "last_index c s = (if c \<in> set s then Some (length s - 1 - length (takeWhile (\<lambda>x. x \<noteq> c) (rev s))) else None)"

definition split_host_port :: "string \<Rightarrow> (string \<times> string) option" where
  "split_host_port hp = (case last_index (CHR '':'') hp of
       None \<Rightarrow> None
     | Some i \<Rightarrow>
         if hd hp = CHR ''['' then
           (if CHR '']'' \<notin> set hp then None
            else let e = length (takeWhile (\<lambda>x. x \<noteq> CHR '']'') hp) in
              if e + 1 \<noteq> i then None
              else if CHR ''['' \<in> set (tl hp) \<or> CHR '']'' \<in> set (drop (e + 1) hp) then None
              else Some (take (e - 1) (tl hp), drop (i + 1) hp))
         else if CHR '':'' \<in> set (take i hp) \<or> CHR ''['' \<in> set hp \<or> CHR '']'' \<in> set hp then None
         else Some (take i hp, drop (i + 1) hp))"

definition join_host_port :: "string \<Rightarrow> string \<Rightarrow> string" where
  "join_host_port h p =
     (if CHR '':'' \<in> set h then ''['' @ h @ '']:'' @ p else h @ '':'' @ p)"

end
