(* ===== verification/GoOS.thy ===== *)
theory GoOS
  imports GoStrings
begin

text \<open>
  The operating-system surface the program uses: \<open>path/filepath\<close> on cleaned paths and the
  file calls of \<open>os\<close> over an explicit file system, with a fault oracle so that every error
  branch of the callers (permissions, I/O errors) is reachable. A call either does its whole
  effect or fails and leaves the file system as it was.
\<close>

section \<open>Paths\<close>

text \<open>A cleaned path: rooted or not, and its components.\<close>

datatype path = Path (rooted: bool) (comps: "string list")

definition path_string :: "path \<Rightarrow> string" where
  "path_string p =
     (if rooted p then CHR ''/'' # str_join ''/'' (comps p)
      else if comps p = [] then ''.'' else str_join ''/'' (comps p))"

text \<open>The loop of \<open>filepath.Clean\<close>: the accumulator is the output, last component first.\<close>

fun clean_comps :: "bool \<Rightarrow> string list \<Rightarrow> string list \<Rightarrow> string list" where
  "clean_comps r acc [] = rev acc"
| "clean_comps r acc (w # ws) =
     (if w = [] \<or> w = ''.'' then clean_comps r acc ws
      else if w = ''..'' then
        (case acc of
           [] \<Rightarrow> clean_comps r (if r then [] else [w]) ws
         | a # as \<Rightarrow> clean_comps r (if a = ''..'' then w # acc else as) ws)
      else clean_comps r (w # acc) ws)"

definition is_abs :: "string \<Rightarrow> bool" where
  "is_abs s = has_prefix ''/'' s"

definition filepath_clean :: "string \<Rightarrow> path" where
  "filepath_clean s = Path (is_abs s) (clean_comps (is_abs s) [] (str_split (CHR ''/'') s))"

text \<open>
  \<open>filepath.Join\<close> cleans the elements from the first non-empty one on. (With no such element
  Go returns the empty string; the program never joins only empty strings.)
\<close>

definition filepath_join :: "string list \<Rightarrow> path" where
  "filepath_join es = filepath_clean (str_join ''/'' (dropWhile (\<lambda>e. e = []) es))"

definition sub_path :: "path \<Rightarrow> string list \<Rightarrow> path" where
  "sub_path p ws = Path (rooted p) (comps p @ ws)"

definition parent_path :: "path \<Rightarrow> path" where
  "parent_path p = Path (rooted p) (butlast (comps p))"

text \<open>A component that cleaning keeps: one segment, not empty, no dot directory.\<close>

definition plain_comp :: "string \<Rightarrow> bool" where
  "plain_comp w \<longleftrightarrow> w \<noteq> [] \<and> w \<noteq> ''.'' \<and> w \<noteq> ''..'' \<and> CHR ''/'' \<notin> set w"

lemma clean_comps_plain:
  "list_all plain_comp ws \<Longrightarrow> clean_comps r acc (xs @ ws) = clean_comps r acc xs @ ws"
proof (induction xs arbitrary: acc)
  case Nil
  then show ?case
    by (induction ws arbitrary: acc) (auto simp: plain_comp_def)
next
  case (Cons x xs)
  then show ?case by (auto split: list.splits)
qed

lemma str_split_join_plain:
  "list_all plain_comp ws \<Longrightarrow> ws \<noteq> [] \<Longrightarrow> str_split (CHR ''/'') (str_join ''/'' ws) = ws"
  by (rule str_split_join) (auto simp: list_all_iff plain_comp_def)

lemma is_abs_append: "a \<noteq> [] \<Longrightarrow> is_abs (a @ b) = is_abs a"
  by (cases a) (auto simp: is_abs_def has_prefix_def)

lemma str_split_append:
  "str_split c (a @ c # b) = str_split c a @ str_split c b"
proof (induction a)
  case (Cons x a)
  then show ?case by (cases "str_split c a") auto
qed simp

lemma str_join_Cons: "ws \<noteq> [] \<Longrightarrow> str_join sep (w # ws) = w @ sep @ str_join sep ws"
  by (cases ws) auto

text \<open>Joining plain components to a directory extends its cleaned path by exactly them.\<close>

lemma filepath_join_plain [path_simps]:
  assumes "list_all plain_comp ws"
  shows "filepath_join (dir # ws) = sub_path (filepath_clean dir) ws"
proof (cases "dir = [] \<or> ws = []")
  case True
  have abs: "\<not> is_abs (str_join ''/'' ws)" if "ws \<noteq> []"
    using that assms
    by (cases ws; cases "tl ws"; cases "hd ws")
      (auto simp: is_abs_def has_prefix_def plain_comp_def)
  have drop: "dropWhile (\<lambda>e. e = []) ws = ws"
    using assms by (cases ws) (auto simp: plain_comp_def)
  have empty: "clean_comps False [] (str_split (CHR ''/'') []) = []" "\<not> is_abs []"
    by (simp_all add: is_abs_def has_prefix_def)
  show ?thesis
  proof (cases "ws = []")
    case True
    then show ?thesis by (cases "dir = []") (simp_all add: filepath_join_def sub_path_def filepath_clean_def)
  next
    case False
    with \<open>dir = [] \<or> ws = []\<close> have "dir = []" by simp
    with False assms drop abs empty clean_comps_plain [OF assms, of False "[]" "[]"] show ?thesis
      by (simp add: filepath_join_def filepath_clean_def str_split_join_plain sub_path_def)
  qed
next
  case False
  then have "filepath_join (dir # ws) = filepath_clean (dir @ ''/'' @ str_join ''/'' ws)"
    by (simp add: filepath_join_def str_join_Cons)
  with False assms show ?thesis
    by (simp add: filepath_clean_def is_abs_append str_split_append str_split_join_plain
        clean_comps_plain sub_path_def)
qed

lemma sub_path_inject [simp]: "sub_path p ws = sub_path p vs \<longleftrightarrow> ws = vs"
  by (simp add: sub_path_def)

lemma parent_sub_path [simp]: "ws \<noteq> [] \<Longrightarrow> parent_path (sub_path p ws) = sub_path p (butlast ws)"
  by (simp add: parent_path_def sub_path_def butlast_append)

section \<open>The file system\<close>

datatype fs_op = OpRead | OpStat | OpWrite | OpRemove | OpMkdir | OpReadDir

record 'b os =
  os_files :: "(path \<times> 'b) list"
  os_dirs :: "path list"
  os_fault :: "fs_op \<Rightarrow> path \<Rightarrow> string option"

definition is_dir :: "'b os \<Rightarrow> path \<Rightarrow> bool" where
  "is_dir s p \<longleftrightarrow> comps p = [] \<or> p \<in> set (os_dirs s)"

definition file_at :: "'b os \<Rightarrow> path \<Rightarrow> 'b option" where
  "file_at s p = (if is_dir s p then None else map_of (os_files s) p)"

definition os_read_file :: "'b os \<Rightarrow> path \<Rightarrow> 'b res" where
  "os_read_file s p = (case os_fault s OpRead p of
       Some t \<Rightarrow> Inl (EOther t)
     | None \<Rightarrow> if is_dir s p then Inl (EOther (''read '' @ path_string p @ '': is a directory''))
        else (case map_of (os_files s) p of
             None \<Rightarrow> Inl (ENotExist (''open '' @ path_string p))
           | Some b \<Rightarrow> Inr b))"

text \<open>\<open>os.Stat\<close>: the result tells whether the path is a directory.\<close>

definition os_stat :: "'b os \<Rightarrow> path \<Rightarrow> bool res" where
  "os_stat s p = (case os_fault s OpStat p of
       Some t \<Rightarrow> Inl (EOther t)
     | None \<Rightarrow> if is_dir s p then Inr True
        else (case map_of (os_files s) p of
             None \<Rightarrow> Inl (ENotExist (''stat '' @ path_string p))
           | Some b \<Rightarrow> Inr False))"

definition os_write_file :: "'b os \<Rightarrow> path \<Rightarrow> 'b \<Rightarrow> 'b os \<times> go_error option" where
  "os_write_file s p b = (case os_fault s OpWrite p of
       Some t \<Rightarrow> (s, Some (EOther t))
     | None \<Rightarrow> if is_dir s p then (s, Some (EOther (''open '' @ path_string p @ '': is a directory'')))
        else if \<not> is_dir s (parent_path p) then (s, Some (ENotExist (''open '' @ path_string p)))
        else (s\<lparr>os_files := AList.update p b (os_files s)\<rparr>, None))"

text \<open>
  \<open>os.OpenFile\<close> with \<open>O_APPEND|O_CREATE|O_WRONLY\<close> and one write: the new contents as a
  function of the old ones.
\<close>

definition os_append_file :: "'b os \<Rightarrow> path \<Rightarrow> ('b option \<Rightarrow> 'b) \<Rightarrow> 'b os \<times> go_error option" where
  "os_append_file s p f = os_write_file s p (f (map_of (os_files s) p))"

definition os_remove :: "'b os \<Rightarrow> path \<Rightarrow> 'b os \<times> go_error option" where
  "os_remove s p = (case os_fault s OpRemove p of
       Some t \<Rightarrow> (s, Some (EOther t))
     | None \<Rightarrow> if is_dir s p then (s, Some (EOther (''remove '' @ path_string p @ '': is a directory'')))
        else (case map_of (os_files s) p of
             None \<Rightarrow> (s, Some (ENotExist (''remove '' @ path_string p)))
           | Some b \<Rightarrow> (s\<lparr>os_files := AList.delete p (os_files s)\<rparr>, None)))"

text \<open>\<open>os.MkdirAll\<close>: every prefix of the path becomes a directory.\<close>

definition path_prefixes :: "path \<Rightarrow> path list" where
  "path_prefixes p = map (\<lambda>k. Path (rooted p) (take k (comps p))) [1..<Suc (length (comps p))]"

definition os_mkdir_all :: "'b os \<Rightarrow> path \<Rightarrow> 'b os \<times> go_error option" where
  "os_mkdir_all s p = (case os_fault s OpMkdir p of
       Some t \<Rightarrow> (s, Some (EOther t))
     | None \<Rightarrow> if list_ex (\<lambda>q. file_at s q \<noteq> None) (path_prefixes p)
        then (s, Some (EOther (''mkdir '' @ path_string p @ '': not a directory'')))
        else (s\<lparr>os_dirs := os_dirs s @ filter (\<lambda>q. q \<notin> set (os_dirs s)) (path_prefixes p)\<rparr>, None))"

text \<open>\<open>os.ReadDir\<close>: the entries in order of their names, each with whether it is a directory.\<close>

definition child_of :: "path \<Rightarrow> path \<Rightarrow> bool" where
  "child_of d p \<longleftrightarrow> comps p \<noteq> [] \<and> parent_path p = d"

definition os_read_dir :: "'b os \<Rightarrow> path \<Rightarrow> (string \<times> bool) list res" where
  "os_read_dir s d = (case os_fault s OpReadDir d of
       Some t \<Rightarrow> Inl (EOther t)
     | None \<Rightarrow> if \<not> is_dir s d then Inl (ENotExist (''open '' @ path_string d))
        else (let ds = map (\<lambda>p. last (comps p)) (filter (child_of d) (os_dirs s));
                  fs = map (\<lambda>(p, b). last (comps p)) (filter (\<lambda>(p, b). child_of d p) (os_files s))
              in Inr (map (\<lambda>n. (n, n \<in> set ds)) (sort (remdups (ds @ fs))))))"

section \<open>Contract of the file calls\<close>

text \<open>
  What the stores rely on: a successful read returns the file, a read that reports a missing
  file means there is none, a write or a removal that succeeds changes exactly one path, and a
  failing call changes nothing.
\<close>

locale file_store =
  fixes rd :: "'s \<Rightarrow> path \<Rightarrow> 'b res"
    and wr :: "'s \<Rightarrow> path \<Rightarrow> 'b \<Rightarrow> 's \<times> go_error option"
    and rm :: "'s \<Rightarrow> path \<Rightarrow> 's \<times> go_error option"
    and view :: "'s \<Rightarrow> path \<Rightarrow> 'b option"
  assumes rd_found: "rd s p = Inr b \<Longrightarrow> view s p = Some b"
    and rd_missing: "rd s p = Inl e \<Longrightarrow> err_is_not_exist e \<Longrightarrow> view s p = None"
    and wr_done: "wr s p b = (s', None) \<Longrightarrow> view s' = (view s)(p \<mapsto> b)"
    and wr_fail: "wr s p b = (s', Some e) \<Longrightarrow> s' = s"
    and rm_done: "rm s p = (s', None) \<Longrightarrow> view s' = (view s)(p := None)"
    and rm_fail: "rm s p = (s', Some e) \<Longrightarrow> s' = s"
    and rm_missing: "rm s p = (s', Some e) \<Longrightarrow> err_is_not_exist e \<Longrightarrow> view s p = None"
begin

lemma wr_frame: "wr s p b = (s', e) \<Longrightarrow> q \<noteq> p \<Longrightarrow> view s' q = view s q"
  by (cases e) (auto dest: wr_done wr_fail)

lemma rm_frame: "rm s p = (s', e) \<Longrightarrow> q \<noteq> p \<Longrightarrow> view s' q = view s q"
  by (cases e) (auto dest: rm_done rm_fail)

lemma wr_then_rd:
  assumes "wr s p b = (s', None)" and "rd s' p = Inr c"
  shows "c = b"
  using wr_done [OF assms(1)] rd_found [OF assms(2)] by simp

lemma rm_then_not_rd:
  assumes "rm s p = (s', None)"
  shows "rd s' p \<noteq> Inr c"
  using rm_done [OF assms] rd_found [of s' p c] by auto

lemma rm_at_most: "rm s p = (s', e) \<Longrightarrow> view s' p = Some b \<Longrightarrow> view s p = Some b"
  by (cases e) (auto dest: rm_done rm_fail)

end

lemma file_at_update:
  "\<not> is_dir s p \<Longrightarrow> file_at (s\<lparr>os_files := AList.update p b (os_files s)\<rparr>) = (file_at s)(p \<mapsto> b)"
  by (auto simp: file_at_def is_dir_def fun_eq_iff)

lemma file_at_delete:
  "\<not> is_dir s p \<Longrightarrow> file_at (s\<lparr>os_files := AList.delete p (os_files s)\<rparr>) = (file_at s)(p := None)"
  by (auto simp: file_at_def is_dir_def fun_eq_iff)

interpretation osf: file_store os_read_file os_write_file os_remove file_at
proof
  fix s :: "'b os" and p b s' e
  show "os_read_file s p = Inr b \<Longrightarrow> file_at s p = Some b"
    by (auto simp: os_read_file_def file_at_def split: option.splits if_splits)
  show "os_read_file s p = Inl e \<Longrightarrow> err_is_not_exist e \<Longrightarrow> file_at s p = None"
    by (auto simp: os_read_file_def file_at_def split: option.splits if_splits)
  show "os_write_file s p b = (s', None) \<Longrightarrow> file_at s' = (file_at s)(p \<mapsto> b)"
    by (auto simp: os_write_file_def file_at_update split: option.splits if_splits)
  show "os_write_file s p b = (s', Some e) \<Longrightarrow> s' = s"
    by (auto simp: os_write_file_def split: option.splits if_splits)
  show "os_remove s p = (s', None) \<Longrightarrow> file_at s' = (file_at s)(p := None)"
    by (auto simp: os_remove_def file_at_delete split: option.splits if_splits)
  show "os_remove s p = (s', Some e) \<Longrightarrow> s' = s"
    by (auto simp: os_remove_def split: option.splits if_splits)
  show "os_remove s p = (s', Some e) \<Longrightarrow> err_is_not_exist e \<Longrightarrow> file_at s p = None"
    by (auto simp: os_remove_def file_at_def split: option.splits if_splits)
qed

text \<open>A state in which no call is made to fail.\<close>

definition no_faults :: "'b os \<Rightarrow> bool" where
  "no_faults s \<longleftrightarrow> (\<forall>c p. os_fault s c p = None)"

lemma os_write_keeps [os_simps]:
  assumes "os_write_file s p b = (s', e)"
  shows "os_dirs s' = os_dirs s" "os_fault s' = os_fault s" "is_dir s' = is_dir s"
    "no_faults s' = no_faults s"
  using assms by (auto simp: os_write_file_def is_dir_def no_faults_def fun_eq_iff split: option.splits if_splits)

lemma os_remove_keeps [os_simps]:
  assumes "os_remove s p = (s', e)"
  shows "os_dirs s' = os_dirs s" "os_fault s' = os_fault s" "is_dir s' = is_dir s"
    "no_faults s' = no_faults s"
  using assms by (auto simp: os_remove_def is_dir_def no_faults_def fun_eq_iff split: option.splits if_splits)

lemma os_read_no_fault:
  "no_faults s \<Longrightarrow> \<not> is_dir s p \<Longrightarrow>
     os_read_file s p = (case file_at s p of None \<Rightarrow> Inl (ENotExist (''open '' @ path_string p)) | Some b \<Rightarrow> Inr b)"
  by (simp add: os_read_file_def no_faults_def file_at_def)

lemma os_write_no_fault:
  "no_faults s \<Longrightarrow> \<not> is_dir s p \<Longrightarrow> is_dir s (parent_path p) \<Longrightarrow>
     os_write_file s p b = (s\<lparr>os_files := AList.update p b (os_files s)\<rparr>, None)"
  by (simp add: os_write_file_def no_faults_def)

text \<open>The names \<open>os.ReadDir\<close> lists are the last components of the files and directories below.\<close>

lemma os_read_dir_files:
  assumes "os_read_dir s d = Inr es" and "file_at s (sub_path d [n]) = Some b"
  shows "n \<in> fst ` set es"
proof -
  have "(sub_path d [n], b) \<in> set (os_files s)"
    using assms(2) by (auto simp: file_at_def split: if_splits dest: map_of_SomeD)
  then have "n \<in> (\<lambda>(p, b). last (comps p)) ` {x \<in> set (os_files s). case x of (p, b) \<Rightarrow> child_of d p}"
    by (force simp: child_of_def sub_path_def parent_path_def butlast_append)
  with assms(1) show ?thesis
    by (auto simp: os_read_dir_def Let_def image_image split: option.splits if_splits)
qed

text \<open>A directory is made only where no prefix of the path is a file, so files stay visible.\<close>

lemma mkdir_file_at: "os_mkdir_all s p = (t, e) \<Longrightarrow> file_at t = file_at s \<and> os_fault t = os_fault s"
  by (auto simp: os_mkdir_all_def file_at_def is_dir_def list_ex_iff fun_eq_iff
      split: option.splits if_splits)

end
