(* ===== verification/GoX509.thy ===== *)
theory GoX509
  imports GoAsn1 GoNet GoOS
begin

text \<open>
  The parts of \<open>crypto/rsa\<close>, \<open>crypto/x509\<close> and \<open>encoding/pem\<close> the program calls, modelled
  symbolically: a DER encoding is a term that carries the object it encodes, and a signature
  is the public key it verifies under (\<open>None\<close> for a signature that verifies under no key).
  The bytes of a file or of a message body are a list of single bytes and whole PEM blocks,
  so text before, between and after blocks is kept and blocks can be concatenated.
\<close>

section \<open>Keys, names, extensions\<close>

record rsa_public =
  rsa_N :: int
  rsa_E :: int

record rsa_private =
  priv_public :: rsa_public
  priv_D :: int

datatype pubkey = RSAKey rsa_public | OtherKey string

text \<open>A distinguished name: its common name and the encoding of its other attributes.\<close>

record pkix_name =
  nm_cn :: string
  nm_rest :: string

record extension =
  ext_id :: oid
  ext_critical :: bool
  ext_value :: string

definition oid_subject_alt_name :: oid where
  "oid_subject_alt_name = [2, 5, 29, 17]"

datatype key_usage = DigitalSignature | KeyEncipherment | CertSign | CRLSign | OtherUsage
datatype ext_key_usage = EkuServerAuth | EkuClientAuth | EkuOther

section \<open>Requests, certificates, revocation lists\<close>

record csr =
  csr_subject :: pkix_name
  csr_dns :: "string list"
  csr_ips :: "ip list"
  csr_exts :: "extension list"
  csr_pub :: pubkey
  csr_signer :: "pubkey option"

text \<open>
  \<open>crt_exts\<close> holds the extensions that the fields before it do not decode (key usage, basic
  constraints, key identifiers and alternative names are decoded).
\<close>

record certificate =
  crt_serial :: int
  crt_issuer :: pkix_name
  crt_subject :: pkix_name
  crt_not_before :: time
  crt_not_after :: time
  crt_pub :: pubkey
  crt_key_usage :: "key_usage list"
  crt_ext_key_usage :: "ext_key_usage list"
  crt_bc_valid :: bool
  crt_is_ca :: bool
  crt_ski :: "byte list"
  crt_dns :: "string list"
  crt_ips :: "ip list"
  crt_exts :: "extension list"
  crt_signer :: "pubkey option"

record crl =
  crl_issuer :: pkix_name
  crl_number :: int
  crl_this_update :: time
  crl_next_update :: time
  crl_entries :: "(int \<times> time) list"
  crl_signer :: "pubkey option"

datatype der =
    CertDER certificate
  | CsrDER csr
  | CrlDER crl
  | Pkcs1DER rsa_private
  | Pkcs8DER rsa_private
  | Pkcs8Other string        \<comment> \<open>a PKCS#8 key that is not RSA\<close>
  | RsaPubDER rsa_public     \<comment> \<open>the bit string inside an RSA SPKI\<close>
  | SpkiDER rsa_public
  | RawDER string            \<comment> \<open>bytes that are none of these\<close>

section \<open>PEM\<close>

datatype chunk = Ch char | Pem string der

type_synonym bytes = "chunk list"

definition text_bytes :: "string \<Rightarrow> bytes" where
  "text_bytes = map Ch"

text \<open>\<open>string(b)\<close>: a block shows its first and its last line (the base64 body is left out).\<close>

fun bytes_string :: "bytes \<Rightarrow> string" where
  "bytes_string [] = []"
| "bytes_string (Ch c # r) = c # bytes_string r"
| "bytes_string (Pem t d # r) =
     ''-----BEGIN '' @ t @ ''-----'' @ CHR 0x0A # ''-----END '' @ t @ ''-----'' @ CHR 0x0A # bytes_string r"

lemma bytes_string_text [simp]: "bytes_string (text_bytes s) = s"
  by (induction s) (auto simp: text_bytes_def)

definition pem_encode :: "string \<Rightarrow> der \<Rightarrow> bytes" where
  "pem_encode t d = [Pem t d]"

text \<open>\<open>pem.Decode\<close>: the first block (type and contents) and the bytes after it.\<close>

fun pem_decode :: "bytes \<Rightarrow> ((string \<times> der) \<times> bytes) option" where
  "pem_decode [] = None"
| "pem_decode (Ch c # r) = pem_decode r"
| "pem_decode (Pem t d # r) = Some ((t, d), r)"

lemma pem_decode_encode [simp]: "pem_decode (pem_encode t d) = Some ((t, d), [])"
  by (simp add: pem_encode_def)

section \<open>Parsing DER\<close>

text \<open>
  The library refuses requests and certificates with two extensions of one identifier, and
  extensions whose identifier has a number of more than 31 bits.
\<close>

abbreviation ids_fit :: "extension list \<Rightarrow> bool" where
  "ids_fit es \<equiv> list_all (\<lambda>e. oid_fits (ext_id e)) es"

definition parse_certificate :: "der \<Rightarrow> certificate res" where
  "parse_certificate d = (case d of
       CertDER c \<Rightarrow> if \<not> ids_fit (crt_exts c) then Inl (EOther ''x509: malformed extension OID field'')
                    else if distinct (map ext_id (crt_exts c)) then Inr c
                    else Inl (EOther ''x509: certificate contains duplicate extensions'')
     | _ \<Rightarrow> Inl (EOther ''x509: malformed certificate''))"

definition parse_csr :: "der \<Rightarrow> csr res" where
  "parse_csr d = (case d of
       CsrDER c \<Rightarrow> if \<not> ids_fit (csr_exts c) then Inl (EOther ''asn1: structure error: base 128 integer too large'')
                   else if distinct (map ext_id (csr_exts c)) then Inr c
                   else Inl (EOther ''x509: certificate request contains duplicate requested extensions'')
     | _ \<Rightarrow> Inl (EOther ''asn1: structure error''))"

definition parse_crl :: "der \<Rightarrow> crl res" where
  "parse_crl d = (case d of CrlDER c \<Rightarrow> Inr c | _ \<Rightarrow> Inl (EOther ''x509: malformed crl''))"

definition parse_pkcs1_private :: "der \<Rightarrow> rsa_private res" where
  "parse_pkcs1_private d =
     (case d of Pkcs1DER k \<Rightarrow> Inr k | _ \<Rightarrow> Inl (EOther ''x509: failed to parse private key''))"

datatype pkcs8_key = Pkcs8Rsa rsa_private | Pkcs8NonRsa string

definition parse_pkcs8_private :: "der \<Rightarrow> pkcs8_key res" where
  "parse_pkcs8_private d = (case d of
       Pkcs8DER k \<Rightarrow> Inr (Pkcs8Rsa k)
     | Pkcs8Other s \<Rightarrow> Inr (Pkcs8NonRsa s)
     | _ \<Rightarrow> Inl (EOther ''x509: failed to parse private key''))"

text \<open>\<open>(*CertificateRequest).CheckSignature\<close>: signed by the key the request carries.\<close>

definition csr_check_signature :: "csr \<Rightarrow> bool" where
  "csr_check_signature c \<longleftrightarrow> csr_signer c = Some (csr_pub c)"

section \<open>Building certificates, requests and revocation lists\<close>

text \<open>A \<open>big.Int\<close> serial is in the template; \<open>MaxPathLen\<close> is used with its zero flag only.\<close>

record cert_template =
  tm_serial :: int
  tm_subject :: pkix_name
  tm_not_before :: time
  tm_not_after :: time
  tm_key_usage :: "key_usage list"
  tm_ext_key_usage :: "ext_key_usage list"
  tm_bc_valid :: bool
  tm_is_ca :: bool
  tm_max_path_len_zero :: bool
  tm_ski :: "byte list"
  tm_dns :: "string list"
  tm_ips :: "ip list"
  tm_extra_exts :: "extension list"

definition is_ia5 :: "string \<Rightarrow> bool" where
  "is_ia5 s \<longleftrightarrow> list_all (\<lambda>c. (of_char c :: nat) < 128) s"

text \<open>An IPv4 address is encoded in four bytes whatever its form in the template.\<close>

definition san_ip :: "ip \<Rightarrow> ip" where
  "san_ip i = (case ip_to4 i of Some b \<Rightarrow> b | None \<Rightarrow> i)"

text \<open>
  \<open>x509.CreateCertificate\<close>: the parent gives the issuer name and, when it is a parsed
  certificate, the public key the signing key must match. Times lose their fraction of a second.
\<close>

definition create_certificate ::
  "cert_template \<Rightarrow> pkix_name \<Rightarrow> pubkey option \<Rightarrow> rsa_public \<Rightarrow> rsa_private \<Rightarrow> der res" where
  "create_certificate tm issuer parent_pub pub priv =
     (if tm_serial tm < 0 then Inl (EOther ''x509: serial number must be positive'')
      else if tm_bc_valid tm \<and> \<not> tm_is_ca tm \<and> tm_max_path_len_zero tm
        then Inl (EOther ''x509: only CAs are allowed to specify MaxPathLen'')
      else if \<not> list_all is_ia5 (tm_dns tm)
        then Inl (EOther ''x509: cannot be encoded as an IA5String'')
      else if parent_pub \<noteq> None \<and> parent_pub \<noteq> Some (RSAKey (priv_public priv))
        then Inl (EOther ''x509: provided PrivateKey does not match parent's PublicKey'')
      else Inr (CertDER \<lparr>
        crt_serial = tm_serial tm, crt_issuer = issuer, crt_subject = tm_subject tm,
        crt_not_before = trunc_second (tm_not_before tm),
        crt_not_after = trunc_second (tm_not_after tm),
        crt_pub = RSAKey pub, crt_key_usage = tm_key_usage tm,
        crt_ext_key_usage = tm_ext_key_usage tm, crt_bc_valid = tm_bc_valid tm,
        crt_is_ca = tm_is_ca tm, crt_ski = tm_ski tm, crt_dns = tm_dns tm,
        crt_ips = map san_ip (tm_ips tm), crt_exts = tm_extra_exts tm,
        crt_signer = Some (RSAKey (priv_public priv))\<rparr>))"

text \<open>The value of a subjectAltName extension, and its reading back.\<close>

definition byte_char :: "byte \<Rightarrow> char" where
  "byte_char b = char_of (unat b)"

definition san_name :: "nat \<Rightarrow> string \<Rightarrow> string" where
  "san_name t v = asn1_marshal \<lparr>raw_class = 2, raw_compound = False, raw_tag = t, raw_bytes = v\<rparr>"

definition marshal_sans :: "string list \<Rightarrow> ip list \<Rightarrow> string" where
  "marshal_sans dns ips = asn1_marshal \<lparr>raw_class = 0, raw_compound = True, raw_tag = 16,
     raw_bytes = concat (map (san_name 2) dns) @
                 concat (map (\<lambda>i. san_name 7 (map byte_char (san_ip i))) ips)\<rparr>"

text \<open>
  \<open>parseSANExtension\<close>: names of type 2 (DNS, IA5 only) and 7 (IP, 4 or 16 bytes) are kept in
  order, other types are skipped.
\<close>

definition char_byte :: "char \<Rightarrow> byte" where
  "char_byte c = of_nat (of_char c)"

function san_names :: "string \<Rightarrow> string list \<Rightarrow> ip list \<Rightarrow> (string list \<times> ip list) option" where
  "san_names s dns ips =
     (if s = [] then Some (dns, ips)
      else (case asn1_unmarshal s of None \<Rightarrow> None
        | Some (v, r) \<Rightarrow>
            if raw_class v = 2 \<and> raw_tag v = 2
              then (if is_ia5 (raw_bytes v) then san_names r (dns @ [raw_bytes v]) ips else None)
            else if raw_class v = 2 \<and> raw_tag v = 7
              then (if length (raw_bytes v) = 4 \<or> length (raw_bytes v) = 16
                    then san_names r dns (ips @ [map char_byte (raw_bytes v)]) else None)
            else san_names r dns ips))"
  by pat_completeness auto
termination
  by (relation "measure (\<lambda>(s, dns, ips). length s)") (auto dest: asn1_unmarshal_shorter)

declare san_names.simps [simp del]

definition parse_sans :: "string \<Rightarrow> (string list \<times> ip list) option" where
  "parse_sans s = (case asn1_unmarshal s of
       Some (v, _) \<Rightarrow> if raw_class v = 0 \<and> raw_compound v \<and> raw_tag v = 16
                      then san_names (raw_bytes v) [] [] else None
     | None \<Rightarrow> None)"

record csr_template =
  ct_subject :: pkix_name
  ct_dns :: "string list"
  ct_ips :: "ip list"
  ct_extra_exts :: "extension list"

text \<open>
  \<open>x509.CreateCertificateRequest\<close>: the alternative names become the first extension, unless
  the caller's extensions already hold one. The library reads the names of a request from that
  extension, so then they are what the caller's bytes say; a request whose bytes do not parse
  is one that \<open>ParseCertificateRequest\<close> refuses.
\<close>

definition create_certificate_request :: "csr_template \<Rightarrow> rsa_private \<Rightarrow> der res" where
  "create_certificate_request ct priv =
     (let own = find (\<lambda>e. ext_id e = oid_subject_alt_name) (ct_extra_exts ct);
          san = \<lparr>ext_id = oid_subject_alt_name, ext_critical = False,
                 ext_value = marshal_sans (ct_dns ct) (ct_ips ct)\<rparr>;
          has = (ct_dns ct \<noteq> [] \<or> ct_ips ct \<noteq> []);
          req = (\<lambda>dns ips exts. \<lparr>csr_subject = ct_subject ct, csr_dns = dns, csr_ips = ips,
             csr_exts = exts, csr_pub = RSAKey (priv_public priv),
             csr_signer = Some (RSAKey (priv_public priv))\<rparr>)
      in (case own of
          Some e \<Rightarrow> (case parse_sans (ext_value e) of
              None \<Rightarrow> Inr (RawDER (ext_value e))
            | Some (dns, ips) \<Rightarrow> Inr (CsrDER (req dns ips (ct_extra_exts ct))))
        | None \<Rightarrow>
            if \<not> list_all is_ia5 (ct_dns ct) then Inl (EOther ''x509: cannot be encoded as an IA5String'')
            else Inr (CsrDER (req (ct_dns ct) (map san_ip (ct_ips ct))
                   ((if has then [san] else []) @ ct_extra_exts ct)))))"

text \<open>\<open>x509.CreateRevocationList\<close>.\<close>

definition create_revocation_list ::
  "int \<Rightarrow> time \<Rightarrow> time \<Rightarrow> (int \<times> time) list \<Rightarrow> certificate \<Rightarrow> rsa_private \<Rightarrow> der res" where
  "create_revocation_list number this_update next_update entries issuer priv =
     (if CRLSign \<notin> set (crt_key_usage issuer)
        then Inl (EOther ''x509: issuer must have the crlSign key usage bit set'')
      else if crt_ski issuer = []
        then Inl (EOther ''x509: issuer certificate does not contain a subject key identifier'')
      else if next_update < this_update
        then Inl (EOther ''x509: template.ThisUpdate is after template.NextUpdate'')
      else Inr (CrlDER \<lparr>
        crl_issuer = crt_subject issuer, crl_number = number,
        crl_this_update = trunc_second this_update, crl_next_update = trunc_second next_update,
        crl_entries = map (\<lambda>(s, t). (s, trunc_second t)) entries,
        crl_signer = Some (RSAKey (priv_public priv))\<rparr>))"

section \<open>Verification\<close>

text \<open>\<open>(*CertPool).AppendCertsFromPEM\<close> on an empty pool: every certificate block that parses.\<close>

fun certs_of_pem :: "bytes \<Rightarrow> certificate list" where
  "certs_of_pem [] = []"
| "certs_of_pem (Ch c # r) = certs_of_pem r"
| "certs_of_pem (Pem t d # r) =
     (case (if t = ''CERTIFICATE'' then parse_certificate d else Inl (EMsg [])) of
        Inl e \<Rightarrow> certs_of_pem r
      | Inr c \<Rightarrow> c # certs_of_pem r)"

definition time_valid :: "time \<Rightarrow> certificate \<Rightarrow> bool" where
  "time_valid now c \<longleftrightarrow> crt_not_before c \<le> now \<and> now \<le> crt_not_after c"

definition no_unhandled_critical :: "certificate \<Rightarrow> bool" where
  "no_unhandled_critical c \<longleftrightarrow> list_all (\<lambda>e. \<not> ext_critical e) (crt_exts c)"

definition check_signature_from :: "certificate \<Rightarrow> certificate \<Rightarrow> bool" where
  "check_signature_from c parent \<longleftrightarrow>
     crt_bc_valid parent \<and> crt_is_ca parent \<and>
     (crt_key_usage parent = [] \<or> CertSign \<in> set (crt_key_usage parent)) \<and>
     crt_signer c = Some (crt_pub parent)"

text \<open>
  \<open>(*Certificate).Verify\<close> with a pool of roots, no intermediates, no host name and any
  extended key usage: the certificate is a root itself or is issued directly by a root.
\<close>

definition x509_verify :: "time \<Rightarrow> certificate list \<Rightarrow> certificate \<Rightarrow> bool" where
  "x509_verify now roots c \<longleftrightarrow>
     no_unhandled_critical c \<and> time_valid now c \<and>
     (c \<in> set roots \<or>
      list_ex (\<lambda>r. crt_subject r = crt_issuer c \<and> no_unhandled_critical r \<and> time_valid now r \<and>
                   check_signature_from c r) roots)"

section \<open>What a call reads from its environment\<close>

text \<open>
  The clock (one reading per call), the entropy behind \<open>rsa.GenerateKey\<close> and \<open>rand.Int\<close>,
  and the digests of encodings, which the symbolic model leaves open.
\<close>

record env =
  env_now :: time
  env_genkey :: "int \<Rightarrow> rsa_private res"
  env_rand128 :: "int res"
  env_sha1 :: "der \<Rightarrow> byte list"
  env_sha256 :: "der \<Rightarrow> byte list"

end
