(* ===== verification/Ppext.thy ===== *)
theory Ppext
  imports GoX509
begin

text \<open>
  \<open>internal/ppext/ppext.go\<close>: the identifiers of Puppet's certificate extensions (the arc
  1.3.6.1.4.1.34380.1), their short names, and the encoding of their values.
\<close>

section \<open>Identifiers and short names\<close>

definition base_arc :: oid where
  "base_arc = [1, 3, 6, 1, 4, 1, 34380, 1]"

definition pp_oid :: "int \<Rightarrow> int \<Rightarrow> oid" where
  "pp_oid sub n = base_arc @ [sub, n]"

definition pp_reg :: "int \<Rightarrow> oid" where "pp_reg n = pp_oid 1 n"
definition pp_auth :: "int \<Rightarrow> oid" where "pp_auth n = pp_oid 3 n"

definition pp_names :: "(string \<times> oid) list" where
  "pp_names = [
     (''pp_uuid'', pp_reg 1), (''pp_instance_id'', pp_reg 2), (''pp_image_name'', pp_reg 3),
     (''pp_preshared_key'', pp_reg 4), (''pp_cost_center'', pp_reg 5), (''pp_product'', pp_reg 6),
     (''pp_project'', pp_reg 7), (''pp_application'', pp_reg 8), (''pp_service'', pp_reg 9),
     (''pp_employee'', pp_reg 10), (''pp_created_by'', pp_reg 11), (''pp_environment'', pp_reg 12),
     (''pp_role'', pp_reg 13), (''pp_software_version'', pp_reg 14), (''pp_department'', pp_reg 15),
     (''pp_cluster'', pp_reg 16), (''pp_provisioner'', pp_reg 17), (''pp_region'', pp_reg 18),
     (''pp_datacenter'', pp_reg 19), (''pp_zone'', pp_reg 20), (''pp_network'', pp_reg 21),
     (''pp_securitypolicy'', pp_reg 22), (''pp_cloudplatform'', pp_reg 23),
     (''pp_apptier'', pp_reg 24), (''pp_hostname'', pp_reg 25),
     (''pp_authorization'', pp_auth 1), (''pp_auth_role'', pp_auth 13)]"

definition oid_to_name :: "(string \<times> string) list" where
  "oid_to_name = map (\<lambda>(n, a). (oid_string a, n)) pp_names"

text \<open>The arcs of a dotted identifier; \<open>strconv.Atoi\<close> takes a sign and leading zeros too.\<close>

fun resolve_arcs :: "string \<Rightarrow> string list \<Rightarrow> oid res" where
  "resolve_arcs nm [] = Inr []"
| "resolve_arcs nm (p # ps) =
     (case go_atoi p of
        None \<Rightarrow> Inl (EMsg (''invalid OID '' @ go_quote nm @ '': bad arc '' @ go_quote p))
      | Some v \<Rightarrow>
          if v < 0 then Inl (EMsg (''invalid OID '' @ go_quote nm @ '': bad arc '' @ go_quote p))
          else (case resolve_arcs nm ps of Inl e \<Rightarrow> Inl e | Inr vs \<Rightarrow> Inr (v # vs)))"

definition resolve_oid :: "string \<Rightarrow> oid res" where
  "resolve_oid nm = (case map_of pp_names nm of
       Some a \<Rightarrow> Inr a
     | None \<Rightarrow>
         (let parts = str_split (CHR ''.'') nm in
          if length parts < 3 then Inl (EMsg (''unknown extension name or OID '' @ go_quote nm))
          else (case resolve_arcs nm parts of
              Inl e \<Rightarrow> Inl e
            | Inr a \<Rightarrow>
                if a ! 0 > 2 \<or> a ! 0 < 2 \<and> a ! 1 > 39
                then Inl (EMsg (''invalid OID '' @ go_quote nm @ '': leading arcs out of range''))
                else Inr a)))"

definition name_for :: "oid \<Rightarrow> string" where
  "name_for a = (case map_of oid_to_name (oid_string a) of Some n \<Rightarrow> n | None \<Rightarrow> oid_string a)"

text \<open>The loop compares arc by arc once the length is enough.\<close>

definition is_puppet_oid :: "oid \<Rightarrow> bool" where
  "is_puppet_oid a \<longleftrightarrow>
     length a \<ge> length base_arc \<and> list_all (\<lambda>(i, v). a ! i = v) (enumerate 0 base_arc)"

definition is_auth_oid :: "oid \<Rightarrow> bool" where
  "is_auth_oid a \<longleftrightarrow>
     is_puppet_oid a \<and> length a > length base_arc \<and> a ! length base_arc = 3"

section \<open>Values\<close>

definition tag_utf8 :: nat where "tag_utf8 = 12"
definition tag_printable :: nat where "tag_printable = 19"

text \<open>\<open>asn1.Marshal\<close> of a \<open>RawValue\<close> with its contents given does not fail.\<close>

definition encode_value :: "string \<Rightarrow> string res" where
  "encode_value v = Inr (asn1_marshal
     \<lparr>raw_class = 0, raw_compound = False, raw_tag = tag_utf8, raw_bytes = v\<rparr>)"

definition decode_value :: "string \<Rightarrow> string" where
  "decode_value d = (case asn1_unmarshal d of
       Some (v, rest) \<Rightarrow>
         if rest = [] \<and> raw_class v = 0 \<and> (raw_tag v = tag_utf8 \<or> raw_tag v = tag_printable)
         then raw_bytes v else d
     | None \<Rightarrow> d)"

section \<open>Lemmas\<close>

lemma is_puppet_oid_iff: "is_puppet_oid a \<longleftrightarrow> take (length base_arc) a = base_arc"
proof
  assume "is_puppet_oid a"
  then have len: "length base_arc \<le> length a"
    and nth: "\<And>i. i < length base_arc \<Longrightarrow> a ! i = base_arc ! i"
    by (force simp: is_puppet_oid_def list_all_iff in_set_enumerate_eq)+
  from len nth show "take (length base_arc) a = base_arc"
    by (intro nth_equalityI) auto
next
  assume t: "take (length base_arc) a = base_arc"
  then have "length base_arc \<le> length a"
    by (metis length_take min.cobounded1)
  moreover have "a ! i = base_arc ! i" if "i < length base_arc" for i
    using that t by (metis nth_take)
  ultimately show "is_puppet_oid a"
    by (auto simp: is_puppet_oid_def list_all_iff in_set_enumerate_eq)
qed

lemma is_puppet_oid_prefix: "is_puppet_oid a \<longleftrightarrow> (\<exists>r. a = base_arc @ r)"
  by (auto simp: is_puppet_oid_iff) (metis append_take_drop_id)

lemma is_auth_oid_prefix: "is_auth_oid a \<longleftrightarrow> (\<exists>r. a = base_arc @ 3 # r)"
proof
  assume "is_auth_oid a"
  then obtain r where "a = base_arc @ r" "r \<noteq> []" "r ! 0 = 3"
    by (auto simp: is_auth_oid_def is_puppet_oid_prefix nth_append)
  then show "\<exists>r. a = base_arc @ 3 # r" by (cases r) auto
qed (auto simp: is_auth_oid_def is_puppet_oid_prefix)

lemma san_not_puppet: "\<not> is_puppet_oid oid_subject_alt_name"
  by (simp add: is_puppet_oid_def oid_subject_alt_name_def base_arc_def)

lemma decode_encode_value:
  assumes "length v < 2 ^ 31" and "encode_value v = Inr d"
  shows "decode_value d = v"
  using assms asn1_unmarshal_marshal
    [of "\<lparr>raw_class = 0, raw_compound = False, raw_tag = tag_utf8, raw_bytes = v\<rparr>" "[]"]
  by (auto simp: encode_value_def decode_value_def tag_utf8_def)


section \<open>Short names and dotted identifiers\<close>

lemma distinct_pp_names: "distinct (map fst pp_names)" "distinct (map snd pp_names)"
  by (simp_all add: pp_names_def pp_reg_def pp_auth_def pp_oid_def)

lemma pp_names_puppet: "(n, a) \<in> set pp_names \<Longrightarrow> is_puppet_oid a"
  by (auto simp: pp_names_def pp_reg_def pp_auth_def pp_oid_def is_puppet_oid_prefix)

lemma pp_names_ne: "(n, a) \<in> set pp_names \<Longrightarrow> a \<noteq> []"
  by (auto dest!: pp_names_puppet simp: is_puppet_oid_prefix base_arc_def)

lemma pp_names_underscore: "(n, a) \<in> set pp_names \<Longrightarrow> CHR ''_'' \<in> set n"
  by (auto simp: pp_names_def)

lemma set_str_join: "set (str_join sep ws) \<subseteq> set sep \<union> \<Union> (set ` set ws)"
  by (induction sep ws rule: str_join.induct) auto

lemma set_oid_string: "set (oid_string a) \<subseteq> insert (CHR ''.'') (insert (CHR ''-'') digit_chars)"
proof -
  have "set (oid_string a) \<subseteq> {CHR ''.''} \<union> \<Union> (set ` set (map show_int a))"
    using set_str_join [of "''.''" "map show_int a"] by (simp add: oid_string_def)
  also have "\<dots> \<subseteq> insert (CHR ''.'') (insert (CHR ''-'') digit_chars)"
    using set_show_int by fastforce
  finally show ?thesis .
qed

lemma oid_string_no_underscore: "CHR ''_'' \<notin> set (oid_string a)"
  using set_oid_string [of a] by (auto simp: digit_chars_def)

lemma oid_string_not_short: "map_of pp_names (oid_string a) = None"
  using oid_string_no_underscore [of a]
  by (auto simp: map_of_eq_None_iff dest: pp_names_underscore)

lemma oid_to_name_iff:
  assumes "a \<noteq> []"
  shows "map_of oid_to_name (oid_string a) = Some n \<longleftrightarrow> (n, a) \<in> set pp_names"
proof -
  have "inj_on oid_string (set (map snd pp_names))"
    by (rule inj_onI) (metis imageE oid_string_inject pp_names_ne prod.collapse set_map)
  then have dist: "distinct (map fst oid_to_name)"
    using distinct_pp_names(2)
    by (simp add: oid_to_name_def distinct_map comp_def case_prod_beta inj_on_def)
  show ?thesis
  proof
    assume "map_of oid_to_name (oid_string a) = Some n"
    then obtain b where "(n, b) \<in> set pp_names" "oid_string b = oid_string a"
      by (auto simp: oid_to_name_def dest!: map_of_SomeD)
    with assms show "(n, a) \<in> set pp_names" by (metis oid_string_inject pp_names_ne)
  next
    assume "(n, a) \<in> set pp_names"
    then have "(oid_string a, n) \<in> set oid_to_name" by (force simp: oid_to_name_def)
    with dist show "map_of oid_to_name (oid_string a) = Some n" by simp
  qed
qed

lemma name_for_disj:
  "a \<noteq> [] \<Longrightarrow> (name_for a, a) \<in> set pp_names \<or> name_for a = oid_string a"
  using oid_to_name_iff [of a]
  by (cases "map_of oid_to_name (oid_string a)") (auto simp: name_for_def)

lemma show_int_not_Nil [simp]: "show_int i \<noteq> []"
  using read_show_int [of i] by (auto simp: read_signed_def)

lemma oid_string_empty: "oid_string a = [] \<longleftrightarrow> a = []"
  by (cases a; cases "tl a") (auto simp: oid_string_def str_join_Cons)

text \<open>Looking the identifier up itself gives the same name; evaluation uses this form.\<close>

lemma name_for_find [code]:
  "name_for a = (case find (\<lambda>(n, b). b = a) pp_names of Some (n, _) \<Rightarrow> n | None \<Rightarrow> oid_string a)"
proof (cases "find (\<lambda>(n, b). b = a) pp_names")
  case (Some p)
  then obtain n where n: "(n, a) \<in> set pp_names" "p = (n, a)"
    by (auto simp: find_Some_iff) (metis nth_mem)
  then have "map_of oid_to_name (oid_string a) = Some n" using oid_to_name_iff pp_names_ne by blast
  with Some n show ?thesis by (simp add: name_for_def)
next
  case None
  then have none: "(n, a) \<notin> set pp_names" for n by (auto simp: find_None_iff)
  have "map_of oid_to_name (oid_string a) = None"
  proof (rule ccontr)
    assume "map_of oid_to_name (oid_string a) \<noteq> None"
    then obtain n b where nb: "(n, b) \<in> set pp_names" "oid_string b = oid_string a"
      by (auto simp: oid_to_name_def dest!: map_of_SomeD)
    then have "a \<noteq> []" using pp_names_ne [OF nb(1)]
      using oid_string_empty [of b] oid_string_empty [of a] by auto
    with nb none show False by (metis oid_string_inject pp_names_ne)
  qed
  with None show ?thesis by (simp add: name_for_def)
qed

lemma name_for_inject:
  assumes "a \<noteq> []" and "b \<noteq> []" and "name_for a = name_for b"
  shows "a = b"
  using name_for_disj [OF assms(1)] name_for_disj [OF assms(2)]
proof (elim disjE)
  assume "(name_for a, a) \<in> set pp_names" "(name_for b, b) \<in> set pp_names"
  with assms(3) distinct_pp_names(1) show ?thesis by (metis eq_key_imp_eq_value)
next
  assume "name_for a = oid_string a" "name_for b = oid_string b"
  with assms show ?thesis by (metis oid_string_inject)
qed (metis assms(3) oid_string_no_underscore pp_names_underscore)+

text \<open>An identifier \<open>ResolveOID\<close> can return from a dotted string.\<close>

definition wf_oid :: "oid \<Rightarrow> bool" where
  "wf_oid a \<longleftrightarrow> length a \<ge> 3 \<and> list_all (\<lambda>v. 0 \<le> v \<and> v < 2 ^ 63) a \<and>
     \<not> (a ! 0 > 2 \<or> a ! 0 < 2 \<and> a ! 1 > 39)"

lemma go_atoi_show_int: "0 \<le> v \<Longrightarrow> v < 2 ^ 63 \<Longrightarrow> go_atoi (show_int v) = Some v"
  by (simp add: go_atoi_def read_show_int)

lemma resolve_arcs_show:
  "list_all (\<lambda>v. 0 \<le> v \<and> v < 2 ^ 63) a \<Longrightarrow> resolve_arcs nm (map show_int a) = Inr a"
  by (induction a) (auto simp: go_atoi_show_int)

lemma resolve_oid_string:
  assumes "wf_oid a"
  shows "resolve_oid (oid_string a) = Inr a"
proof -
  have "str_split (CHR ''.'') (oid_string a) = map show_int a"
    using assms unfolding oid_string_def
    by (intro str_split_join) (auto simp: wf_oid_def dot_notin_show_int)
  with assms show ?thesis
    by (simp add: resolve_oid_def oid_string_not_short wf_oid_def resolve_arcs_show)
qed

lemma resolve_short: "(n, a) \<in> set pp_names \<Longrightarrow> resolve_oid n = Inr a"
  using distinct_pp_names(1) by (simp add: resolve_oid_def)

lemma resolve_arcs_wf:
  "resolve_arcs nm ps = Inr a \<Longrightarrow> length a = length ps \<and> list_all (\<lambda>v. 0 \<le> v \<and> v < 2 ^ 63) a"
  by (induction ps arbitrary: a)
    (auto simp: go_atoi_def split: option.splits if_splits sum.splits)

lemma resolve_oid_wf: "resolve_oid nm = Inr a \<Longrightarrow> wf_oid a"
proof (cases "map_of pp_names nm")
  case None
  assume "resolve_oid nm = Inr a"
  with None show ?thesis
    by (auto simp: resolve_oid_def Let_def wf_oid_def split: if_splits sum.splits
        dest: resolve_arcs_wf)
next
  case (Some b)
  assume "resolve_oid nm = Inr a"
  with Some have "(nm, a) \<in> set pp_names"
    by (auto simp: resolve_oid_def dest: map_of_SomeD)
  then show ?thesis
    by (auto simp: pp_names_def pp_reg_def pp_auth_def pp_oid_def base_arc_def wf_oid_def)
qed


text \<open>An extension value is a codec on strings of less than \<open>2^31\<close> bytes.\<close>

interpretation ext_text: codec
  "\<lambda>v. the (res_opt (encode_value v))" "\<lambda>d. Some (decode_value d)" "\<lambda>v. length v < 2 ^ 31"
  by unfold_locales (simp add: encode_value_def decode_encode_value [OF _ encode_value_def])

end
