(* ===== verification/Requests.thy ===== *)
theory Requests
  imports Ppext
begin

text \<open>
  \<open>internal/ppext/requests.go\<close>: extension requests of a CSR, the extensions the CA copies, and
  the reader of \<open>csr_attributes.yaml\<close>. A Go map that is only built and looked up is an
  association list, later entries replacing earlier ones in place; a result map is a function.
\<close>

section \<open>Extension requests\<close>

text \<open>\<open>m[k]\<close> of a Go map of strings: the empty string for a missing key.\<close>

definition map_get :: "(string \<times> string) list \<Rightarrow> string \<Rightarrow> string" where
  "map_get m k = (case map_of m k of Some v \<Rightarrow> v | None \<Rightarrow> [])"

fun build_loop :: "(string \<times> string) list \<Rightarrow> string list \<Rightarrow> (string \<times> string) list
    \<Rightarrow> extension list \<Rightarrow> extension list res" where
  "build_loop m [] seen out = Inr out"
| "build_loop m (k # ks) seen out =
     (case resolve_oid k of
        Inl e \<Rightarrow> Inl e
      | Inr a \<Rightarrow>
          (case map_of seen (oid_string a) of
             Some prev \<Rightarrow> Inl (EMsg (''duplicate extension OID '' @ oid_string a @ '' from '' @
                             go_quote prev @ '' and '' @ go_quote k))
           | None \<Rightarrow>
               (case encode_value (map_get m k) of
                  Inl e \<Rightarrow> Inl e
                | Inr val \<Rightarrow> build_loop m ks ((oid_string a, k) # seen)
                    (out @ [\<lparr>ext_id = a, ext_critical = False, ext_value = val\<rparr>]))))"

definition build_extensions :: "(string \<times> string) list \<Rightarrow> extension list res" where
  "build_extensions m = build_loop m (sort (remdups (map fst m))) [] []"

definition allowed_from_csr :: "extension list \<Rightarrow> extension list" where
  "allowed_from_csr exts =
     map (\<lambda>e. \<lparr>ext_id = ext_id e, ext_critical = False, ext_value = ext_value e\<rparr>)
       (filter (\<lambda>e. is_puppet_oid (ext_id e)) exts)"

text \<open>Both readers of extensions write \<open>out[NameFor(id)]\<close> for the ones they select.\<close>

definition decode_selected :: "(oid \<Rightarrow> bool) \<Rightarrow> extension list \<Rightarrow> string \<rightharpoonup> string" where
  "decode_selected P exts =
     foldl (\<lambda>m e. if P (ext_id e) then m(name_for (ext_id e) \<mapsto> decode_value (ext_value e)) else m)
       Map.empty exts"

definition describe_exts :: "extension list \<Rightarrow> string \<rightharpoonup> string" where
  "describe_exts exts = decode_selected is_puppet_oid exts"

definition auth_extensions :: "extension list \<Rightarrow> string \<rightharpoonup> string" where
  "auth_extensions exts = decode_selected is_auth_oid exts"

section \<open>csr\_attributes.yaml\<close>

text \<open>The quote the scan is inside of, if any.\<close>

fun strip_comment :: "char option \<Rightarrow> string \<Rightarrow> string" where
  "strip_comment q [] = []"
| "strip_comment q (c # cs) =
     (case q of
        Some d \<Rightarrow> c # strip_comment (if c = d then None else q) cs
      | None \<Rightarrow>
          if c = CHR 0x22 \<or> c = CHR 0x27 then c # strip_comment (Some c) cs
          else if c = CHR ''#'' then []
          else c # strip_comment None cs)"

definition unquote :: "string \<Rightarrow> string" where
  "unquote s =
     (if length s \<ge> 2 \<and> (hd s = CHR 0x22 \<or> hd s = CHR 0x27) \<and> last s = hd s
      then butlast (tl s) else s)"

datatype attr_section = NoSection | ExtRequests | CustomAttrs

record attr_state =
  at_ext :: "(string \<times> string) list"
  at_custom :: "(string \<times> string) list"
  at_cur :: attr_section

definition attr_put :: "attr_state \<Rightarrow> string \<Rightarrow> string \<Rightarrow> attr_state" where
  "attr_put st k v = (case at_cur st of
       NoSection \<Rightarrow> st
     | ExtRequests \<Rightarrow> st\<lparr>at_ext := AList.update k v (at_ext st)\<rparr>
     | CustomAttrs \<Rightarrow> st\<lparr>at_custom := AList.update k v (at_custom st)\<rparr>)"

definition attr_line :: "attr_state \<Rightarrow> string \<Rightarrow> attr_state" where
  "attr_line st raw =
     (let line = strip_comment None raw in
      if trim_space line = [] then st
      else let indented = (hd line = CHR '' '' \<or> hd line = CHR 0x09);
               key = trim_space (trim_suffix '':'' (trim_space line)) in
        if key = ''extension_requests'' \<and> \<not> indented then st\<lparr>at_cur := ExtRequests\<rparr>
        else if key = ''custom_attributes'' \<and> \<not> indented then st\<lparr>at_cur := CustomAttrs\<rparr>
        else (case str_cut (CHR '':'') line of
            None \<Rightarrow> st
          | Some (k, v) \<Rightarrow> attr_put st (trim_space k) (unquote (trim_space v))))"

definition parse_csr_attributes ::
  "bytes os \<Rightarrow> path \<Rightarrow> ((string \<times> string) list \<times> (string \<times> string) list) res" where
  "parse_csr_attributes fs p = (case os_read_file fs p of
       Inl e \<Rightarrow> Inl e
     | Inr b \<Rightarrow>
         (let st = foldl attr_line \<lparr>at_ext = [], at_custom = [], at_cur = NoSection\<rparr>
                     (str_split (CHR 0x0A) (bytes_string b))
          in Inr (at_ext st, at_custom st)))"

section \<open>What is copied and what is read\<close>

lemma allowed_ids: "e \<in> set (allowed_from_csr exts) \<Longrightarrow> is_puppet_oid (ext_id e) \<and> \<not> ext_critical e"
  by (auto simp: allowed_from_csr_def)

lemma map_ext_id_allowed [simp]:
  "map ext_id (allowed_from_csr exts) = filter is_puppet_oid (map ext_id exts)"
  by (induction exts) (auto simp: allowed_from_csr_def)

lemma allowed_distinct: "distinct (map ext_id exts) \<Longrightarrow> distinct (map ext_id (allowed_from_csr exts))"
  by simp

text \<open>
  With distinct identifiers the reading map has, for each selected extension, exactly its
  decoded value: no two identifiers share a name.
\<close>

lemma foldl_decode_other:
  "(\<And>e. e \<in> set exts \<Longrightarrow> P (ext_id e) \<Longrightarrow> name_for (ext_id e) \<noteq> k) \<Longrightarrow>
   foldl (\<lambda>m e. if P (ext_id e) then m(name_for (ext_id e) \<mapsto> decode_value (ext_value e)) else m) m0 exts k
     = m0 k"
  by (induction exts arbitrary: m0) auto

lemma foldl_decode_hit:
  assumes "distinct (map ext_id exts)" and "\<And>e. e \<in> set exts \<Longrightarrow> ext_id e \<noteq> []"
    and "e \<in> set exts" and "P (ext_id e)"
  shows "foldl (\<lambda>m e. if P (ext_id e) then m(name_for (ext_id e) \<mapsto> decode_value (ext_value e)) else m) m0 exts
           (name_for (ext_id e)) = Some (decode_value (ext_value e))"
  using assms
proof (induction exts arbitrary: m0)
  case Nil
  then show ?case by simp
next
  case (Cons x xs)
  show ?case
  proof (cases "e = x")
    case True
    have "name_for (ext_id y) \<noteq> name_for (ext_id e)" if "y \<in> set xs" for y
    proof -
      have "ext_id x \<notin> ext_id ` set xs" using Cons.prems(1) by simp
      with that True have "ext_id y \<noteq> ext_id e" by (metis image_eqI)
      then show ?thesis using Cons.prems(2,3) that
        by (metis list.set_intros(2) name_for_inject)
    qed
    then have "foldl (\<lambda>m e. if P (ext_id e) then m(name_for (ext_id e) \<mapsto> decode_value (ext_value e)) else m)
        m1 xs (name_for (ext_id e)) = m1 (name_for (ext_id e))" for m1
      by (intro foldl_decode_other) auto
    with True Cons.prems(4) show ?thesis by simp
  next
    case False
    with Cons show ?thesis by simp
  qed
qed

lemma decode_selected_hit:
  assumes "distinct (map ext_id exts)" and "\<And>e. e \<in> set exts \<Longrightarrow> ext_id e \<noteq> []"
    and "e \<in> set exts" and "P (ext_id e)"
  shows "decode_selected P exts (name_for (ext_id e)) = Some (decode_value (ext_value e))"
  unfolding decode_selected_def using assms by (rule foldl_decode_hit [where P = P])

lemma decode_selected_dom:
  "dom (decode_selected P exts) \<subseteq> name_for ` {ext_id e | e. e \<in> set exts \<and> P (ext_id e)}"
proof
  fix k assume "k \<in> dom (decode_selected P exts)"
  then show "k \<in> name_for ` {ext_id e | e. e \<in> set exts \<and> P (ext_id e)}"
    using foldl_decode_other [of exts P k Map.empty] by (force simp: decode_selected_def)
qed

section \<open>What is requested\<close>

lemma build_loop_shape:
  assumes "build_loop m ks seen out = Inr exts"
    and "set (map ext_id out) \<subseteq> {a. a \<noteq> [] \<and> oid_string a \<in> fst ` set seen}"
    and "distinct (map ext_id out)"
  shows "\<exists>new. exts = out @ new \<and> distinct (map ext_id exts) \<and>
     list_all2 (\<lambda>k e. resolve_oid k = Inr (ext_id e) \<and> \<not> ext_critical e \<and>
                      encode_value (map_get m k) = Inr (ext_value e)) ks new"
  using assms
proof (induction m ks seen out rule: build_loop.induct)
  case (1 m seen out)
  then show ?case by simp
next
  case (2 m k ks seen out)
  let ?e = "\<lambda>a val. \<lparr>ext_id = a, ext_critical = False, ext_value = val\<rparr>"
  from "2.prems"(1) obtain a val where a: "resolve_oid k = Inr a"
    and new: "map_of seen (oid_string a) = None" and val: "encode_value (map_get m k) = Inr val"
    and rest: "build_loop m ks ((oid_string a, k) # seen)
        (out @ [\<lparr>ext_id = a, ext_critical = False, ext_value = val\<rparr>]) = Inr exts"
    by (auto split: sum.splits option.splits)
  from a have "a \<noteq> []" by (auto dest!: resolve_oid_wf simp: wf_oid_def)
  moreover have "a \<notin> set (map ext_id out)"
    using new "2.prems"(2) by (auto simp: map_of_eq_None_iff)
  ultimately have pre:
    "set (map ext_id (out @ [?e a val])) \<subseteq> {b. b \<noteq> [] \<and> oid_string b \<in> fst ` set ((oid_string a, k) # seen)}"
    "distinct (map ext_id (out @ [?e a val]))"
    using "2.prems"(2,3) by auto
  obtain ext where "exts = (out @ [?e a val]) @ ext" "distinct (map ext_id exts)"
    "list_all2 (\<lambda>k e. resolve_oid k = Inr (ext_id e) \<and> \<not> ext_critical e \<and>
                      encode_value (map_get m k) = Inr (ext_value e)) ks ext"
    using "2.IH" [OF a new val rest pre] by blast
  with a val show ?case by (intro exI [of _ "?e a val # ext"]) simp
qed

lemma build_extensions_shape:
  assumes "build_extensions m = Inr exts"
  shows "distinct (map ext_id exts)"
    and "list_all2 (\<lambda>k e. resolve_oid k = Inr (ext_id e) \<and> \<not> ext_critical e \<and>
            encode_value (map_get m k) = Inr (ext_value e)) (sort (remdups (map fst m))) exts"
  using build_loop_shape [OF assms [unfolded build_extensions_def]] by auto

text \<open>Every requested attribute is in the result, under the identifier its key resolves to.\<close>

lemma build_extensions_complete:
  assumes "build_extensions m = Inr exts" and "map_of m k = Some v"
  obtains e where "e \<in> set exts" "resolve_oid k = Inr (ext_id e)" "encode_value v = Inr (ext_value e)"
proof -
  have "k \<in> set (sort (remdups (map fst m)))"
    using assms(2) by (simp add: map_of_eq_None_iff [symmetric])
      (metis image_eqI map_of_SomeD fst_conv)
  then obtain i where i: "i < length (sort (remdups (map fst m)))" "sort (remdups (map fst m)) ! i = k"
    by (metis in_set_conv_nth)
  note shape = build_extensions_shape(2) [OF assms(1)]
  have "exts ! i \<in> set exts" using i(1) list_all2_lengthD [OF shape] by simp
  moreover have "resolve_oid k = Inr (ext_id (exts ! i))" "encode_value v = Inr (ext_value (exts ! i))"
    using list_all2_nthD [OF shape i(1)] i(2) assms(2) by (auto simp: map_get_def)
  ultimately show thesis by (rule that)
qed

section \<open>Comments and quotes\<close>

lemma strip_comment_prefix: "prefix (strip_comment q s) s"
proof (induction s arbitrary: q)
  case (Cons c cs)
  then show ?case by (cases q) simp_all
qed simp

lemma strip_comment_plain:
  "CHR ''#'' \<notin> set s \<Longrightarrow> strip_comment q s = s"
proof (induction s arbitrary: q)
  case (Cons c cs)
  then show ?case by (cases q) auto
qed simp

end
