(* ===== verification/Policy.thy ===== *)
theory Policy
  imports Requests
begin

text \<open>
  \<open>internal/castore/policy.go\<close>: the input a policy executable gets for a CSR, its run, and the
  bounded buffer that keeps its standard error. The executable itself is outside the program:
  it is an argument \<open>run\<close>, from its path, its time limit and the JSON on its standard
  input to what \<open>exec.Cmd.Run\<close> reports.
\<close>

section \<open>The policy input\<close>

definition defaultAutosignPolicyTimeout :: duration where
  "defaultAutosignPolicyTimeout = 5 * second"

definition maxAutosignPolicyStderr :: nat where
  "maxAutosignPolicyStderr = 4096"

record policy_sans =
  ps_dns :: "string list"
  ps_ip :: "string list"

record policy_input =
  pi_version :: int
  pi_certname :: string
  pi_sans :: policy_sans
  pi_ext_requests :: "(string \<times> string) list"
  pi_ext_san :: "policy_sans option"
  pi_source_ip :: string

definition policy_sans_from_csr :: "csr \<Rightarrow> policy_sans" where
  "policy_sans_from_csr c = \<lparr>ps_dns = csr_dns c, ps_ip = map ip_string (csr_ips c)\<rparr>"

definition decode_puppet_policy_value :: "extension \<Rightarrow> string res" where
  "decode_puppet_policy_value e = (case asn1_unmarshal (ext_value e) of
       None \<Rightarrow> Inl (EMsg (''decode Puppet extension '' @ oid_string (ext_id e)))
     | Some (raw, rest) \<Rightarrow>
         if rest \<noteq> [] \<or> raw_class raw \<noteq> 0 \<or>
            (raw_tag raw \<noteq> tag_utf8 \<and> raw_tag raw \<noteq> tag_printable)
         then Inl (EMsg (''decode Puppet extension '' @ oid_string (ext_id e)))
         else Inr (raw_bytes raw))"

text \<open>The loop over the extensions of the CSR.\<close>

fun policy_exts :: "csr \<Rightarrow> policy_input \<Rightarrow> extension list \<Rightarrow> policy_input res" where
  "policy_exts c inp [] = Inr inp"
| "policy_exts c inp (e # es) =
     (if ext_id e = oid_subject_alt_name
      then policy_exts c (inp\<lparr>pi_ext_san := Some (policy_sans_from_csr c)\<rparr>) es
      else if is_puppet_oid (ext_id e)
      then (case decode_puppet_policy_value e of
              Inl err \<Rightarrow> Inl err
            | Inr v \<Rightarrow> policy_exts c
                (inp\<lparr>pi_ext_requests := AList.update (name_for (ext_id e)) v (pi_ext_requests inp)\<rparr>) es)
      else if ext_critical e
      then Inl (EMsg (''unknown critical extension '' @ oid_string (ext_id e)))
      else policy_exts c inp es)"

definition build_policy_input :: "string \<Rightarrow> csr \<Rightarrow> string \<Rightarrow> policy_input res" where
  "build_policy_input certname c source_ip =
     policy_exts c
       \<lparr>pi_version = 1, pi_certname = certname, pi_sans = policy_sans_from_csr c,
        pi_ext_requests = [], pi_ext_san = None, pi_source_ip = source_ip\<rparr>
       (csr_exts c)"

section \<open>Its JSON\<close>

datatype json = JStr string | JInt int | JArr "json list" | JObj "(string \<times> json) list"

text \<open>\<open>omitempty\<close> leaves out empty lists and the absent pointer; map keys come sorted.\<close>

definition sans_json :: "policy_sans \<Rightarrow> json" where
  "sans_json s = JObj
     ((if ps_dns s = [] then [] else [(''dns'', JArr (map JStr (ps_dns s)))]) @
      (if ps_ip s = [] then [] else [(''ip'', JArr (map JStr (ps_ip s)))]))"

definition marshal_policy_input :: "policy_input \<Rightarrow> json res" where
  "marshal_policy_input i = Inr (JObj
     [(''version'', JInt (pi_version i)),
      (''certname'', JStr (pi_certname i)),
      (''subject_alt_names'', sans_json (pi_sans i)),
      (''extension_requests'',
        JObj (map (\<lambda>k. (k, JStr (map_get (pi_ext_requests i) k)))
          (sort (remdups (map fst (pi_ext_requests i)))))),
      (''extensions'', JObj (case pi_ext_san i of
           None \<Rightarrow> [] | Some s \<Rightarrow> [(''subject_alt_name'', sans_json s)])),
      (''request'', JObj [(''source_ip'', JStr (pi_source_ip i))])])"

section \<open>The bounded buffer\<close>

text \<open>\<open>cappedBuffer.Write\<close>: the count it reports and the new contents.\<close>

definition capped_write :: "string \<Rightarrow> string \<Rightarrow> nat \<times> string" where
  "capped_write b p =
     (let n = length p; remain = int maxAutosignPolicyStderr - int (length b) in
      if remain > 0
      then (n, b @ (if int (length p) > remain then take (nat remain) p else p))
      else (n, b))"

definition capped_writes :: "string \<Rightarrow> string list \<Rightarrow> string" where
  "capped_writes b ps = foldl (\<lambda>b p. snd (capped_write b p)) b ps"

section \<open>Running the executable\<close>

datatype policy_outcome = PolicyApproved | PolicyDenied | PolicyError

record policy_result =
  pr_outcome :: policy_outcome
  pr_stderr :: string
  pr_err :: "go_error option"

text \<open>What a run reports: the deadline, the error of \<open>Run\<close>, the writes to standard error.\<close>

datatype run_error = ExitError int | RunFailed string

record exec_result =
  ex_deadline :: bool
  ex_err :: "run_error option"
  ex_stderr :: "string list"

type_synonym runner = "string \<Rightarrow> duration \<Rightarrow> json \<Rightarrow> exec_result"

definition run_error_text :: "run_error \<Rightarrow> go_error" where
  "run_error_text e = (case e of
       ExitError n \<Rightarrow> EOther (''exit status '' @ show_int n) | RunFailed s \<Rightarrow> EOther s)"

definition run_autosign_policy :: "runner \<Rightarrow> string \<Rightarrow> duration \<Rightarrow> policy_input \<Rightarrow> policy_result" where
  "run_autosign_policy run exe timeout0 inp =
     (let timeout = (if timeout0 \<le> 0 then defaultAutosignPolicyTimeout else timeout0) in
      case marshal_policy_input inp of
        Inl e \<Rightarrow> \<lparr>pr_outcome = PolicyError, pr_stderr = [], pr_err = Some (EWrap ''marshal policy input'' e)\<rparr>
      | Inr body \<Rightarrow>
          (let r = run exe timeout body; errs = capped_writes [] (ex_stderr r) in
           if ex_deadline r
           then \<lparr>pr_outcome = PolicyError, pr_stderr = errs,
                 pr_err = Some (EMsg (''autosign policy timed out after '' @ duration_string timeout))\<rparr>
           else (case ex_err r of
               None \<Rightarrow> \<lparr>pr_outcome = PolicyApproved, pr_stderr = errs, pr_err = None\<rparr>
             | Some err \<Rightarrow>
                 if err = ExitError 1
                 then \<lparr>pr_outcome = PolicyDenied, pr_stderr = errs, pr_err = None\<rparr>
                 else \<lparr>pr_outcome = PolicyError, pr_stderr = errs, pr_err = Some (run_error_text err)\<rparr>)))"

section \<open>Lemmas\<close>

lemma capped_write_eq: 
  "capped_write b p = (length p, b @ take (maxAutosignPolicyStderr - length b) p)"
  by (auto simp: capped_write_def Let_def nat_diff_distrib')

lemma take_max_append: 
  "length b \<le> n \<Longrightarrow> b @ take (n - length b) p = take n (b @ p)"
  by simp

lemma capped_writes_eq:
  "length b \<le> maxAutosignPolicyStderr \<Longrightarrow>
     capped_writes b ps = take maxAutosignPolicyStderr (b @ concat ps)"
proof (induction ps arbitrary: b)
  case Nil
  then show ?case by (simp add: capped_writes_def)
next
  case (Cons p ps)
  let ?b = "b @ take (maxAutosignPolicyStderr - length b) p"
  have "capped_writes b (p # ps) = capped_writes ?b ps"
    by (simp add: capped_writes_def capped_write_eq)
  also have "\<dots> = take maxAutosignPolicyStderr (?b @ concat ps)"
    using Cons by simp
  also have "\<dots> = take maxAutosignPolicyStderr (b @ concat (p # ps))"
    using Cons.prems by (cases "length p \<le> maxAutosignPolicyStderr - length b") simp_all
  finally show ?case .
qed

text \<open>Exit status 0 before the deadline is the only way to an approval.\<close>

lemma policy_approved_iff:
  "pr_outcome (run_autosign_policy run exe t inp) = PolicyApproved \<longleftrightarrow>
     (let r = run exe (if t \<le> 0 then defaultAutosignPolicyTimeout else t) (the (res_opt (marshal_policy_input inp)))
      in \<not> ex_deadline r \<and> ex_err r = None)"
  by (auto simp: run_autosign_policy_def marshal_policy_input_def Let_def split: option.splits)

end
