(* ===== verification/Pki.thy ===== *)
theory Pki
  imports GoX509
begin

unbundle bit_operations_syntax

text \<open>
  \<open>pki/pki.go\<close>: key generation, certificate requests, the CA certificate, signing, revocation
  lists, fingerprints and PEM input and output, over the library model of \<open>GoX509\<close>.
\<close>

section \<open>Keys\<close>

definition DefaultKeyBits :: int where "DefaultKeyBits = 4096"

definition DefaultCATTL :: duration where "DefaultCATTL = 5 * 365 * 24 * hour"

definition generate_key :: "env \<Rightarrow> int \<Rightarrow> rsa_private res" where
  "generate_key E bits = env_genkey E (if bits \<le> 0 then DefaultKeyBits else bits)"

section \<open>Certificate requests\<close>

text \<open>The closure \<open>add\<close> of \<open>CreateCSR\<close>: names seen so far, DNS names, addresses.\<close>

definition csr_add_name ::
  "string list \<times> string list \<times> ip list \<Rightarrow> string \<Rightarrow> string list \<times> string list \<times> ip list" where
  "csr_add_name st raw =
     (let (seen, dns, ips) = st; n = trim_space raw in
      if n = [] \<or> n \<in> set seen then st
      else (case parse_ip n of
          Some i \<Rightarrow> (n # seen, dns, ips @ [i])
        | None \<Rightarrow> (n # seen, dns @ [n], ips)))"

definition create_csr ::
  "rsa_private \<Rightarrow> string \<Rightarrow> string list \<Rightarrow> extension list \<Rightarrow> bytes res" where
  "create_csr key certname dns_alt_names extra_exts =
     (let (seen, dns, ips) =
            (if dns_alt_names = [] then ([], [], [])
             else foldl csr_add_name (csr_add_name ([], [], []) certname) dns_alt_names)
      in (case create_certificate_request
              \<lparr>ct_subject = \<lparr>nm_cn = certname, nm_rest = []\<rparr>, ct_dns = dns, ct_ips = ips,
               ct_extra_exts = extra_exts\<rparr> key of
            Inl e \<Rightarrow> Inl e
          | Inr d \<Rightarrow> Inr (pem_encode ''CERTIFICATE REQUEST'' d)))"

section \<open>The CA certificate\<close>

definition ca_name :: "string \<Rightarrow> pkix_name" where
  "ca_name name = \<lparr>nm_cn = ''Puppet CA: '' @ name, nm_rest = []\<rparr>"

text \<open>The bit string inside the subject public key info, which the key identifier digests.\<close>

definition spki_bit_string :: "der \<Rightarrow> der option" where
  "spki_bit_string d = (case d of SpkiDER p \<Rightarrow> Some (RsaPubDER p) | _ \<Rightarrow> None)"

definition set_ski :: "env \<Rightarrow> cert_template \<Rightarrow> rsa_public \<Rightarrow> cert_template" where
  "set_ski E tm pub = (case spki_bit_string (SpkiDER pub) of
       None \<Rightarrow> tm
     | Some info \<Rightarrow> tm\<lparr>tm_ski := env_sha1 E info\<rparr>)"

definition create_ca :: "env \<Rightarrow> string \<Rightarrow> int \<Rightarrow> duration \<Rightarrow> (rsa_private \<times> certificate) res" where
  "create_ca E name bits ttl0 =
     (let ttl = (if ttl0 \<le> 0 then 10 * 365 * 24 * hour else ttl0) in
      case generate_key E bits of
        Inl e \<Rightarrow> Inl e
      | Inr key \<Rightarrow>
          (let now = env_now E;
               tm = \<lparr>tm_serial = 1, tm_subject = ca_name name, tm_not_before = now - hour,
                     tm_not_after = now + ttl, tm_key_usage = [CertSign, CRLSign],
                     tm_ext_key_usage = [], tm_bc_valid = True, tm_is_ca = True,
                     tm_max_path_len_zero = True, tm_ski = [], tm_dns = [], tm_ips = [],
                     tm_extra_exts = []\<rparr>;
               tm' = set_ski E tm (priv_public key)
           in (case create_certificate tm' (tm_subject tm') None (priv_public key) key of
                 Inl e \<Rightarrow> Inl e
               | Inr d \<Rightarrow> (case parse_certificate d of
                     Inl e \<Rightarrow> Inl e
                   | Inr crt \<Rightarrow> Inr (key, crt)))))"

section \<open>Signing\<close>

record sign_opts =
  so_serial :: "int option"
  so_ttl :: duration
  so_dns_alt_names :: "string list"
  so_allow_alt_san :: bool
  so_extra_exts :: "extension list"

definition default_sign_opts :: sign_opts where
  "default_sign_opts = \<lparr>so_serial = None, so_ttl = 0, so_dns_alt_names = [],
     so_allow_alt_san = False, so_extra_exts = []\<rparr>"

text \<open>The closure \<open>addName\<close>: DNS names of the template, addresses.\<close>

definition sign_add_name :: "string list \<times> ip list \<Rightarrow> string \<Rightarrow> string list \<times> ip list" where
  "sign_add_name st raw =
     (let (dns, ips) = st; n = trim_space raw in
      if n = [] then st
      else (case parse_ip n of
          Some i \<Rightarrow> (dns, ips @ [i])
        | None \<Rightarrow> if n \<in> set dns then st else (dns @ [n], ips)))"

text \<open>
  The alternative names of the leaf: those of the request when allowed, those of the operator,
  and then the certname; the addresses reach the template only when there is a name at all.
\<close>

definition leaf_sans :: "csr \<Rightarrow> sign_opts \<Rightarrow> string list \<times> ip list" where
  "leaf_sans c opts =
     (let (dns1, ips1) =
            (if so_allow_alt_san opts
             then (let (d, i) = foldl sign_add_name ([], []) (csr_dns c) in (d, i @ csr_ips c))
             else ([], []));
          (dns2, ips2) = foldl sign_add_name (dns1, ips1) (so_dns_alt_names opts)
      in if dns2 \<noteq> [] \<or> ips2 \<noteq> []
         then sign_add_name (dns2, ips2) (nm_cn (csr_subject c))
         else (dns2, []))"

definition leaf_serial :: "env \<Rightarrow> sign_opts \<Rightarrow> int res" where
  "leaf_serial E opts = (case so_serial opts of
       Some s \<Rightarrow> Inr s
     | None \<Rightarrow> (case env_rand128 E of Inl e \<Rightarrow> Inl e | Inr r \<Rightarrow> Inr (r + 1)))"

definition sign_csr ::
  "env \<Rightarrow> csr \<Rightarrow> certificate \<Rightarrow> rsa_private \<Rightarrow> sign_opts \<Rightarrow> certificate res" where
  "sign_csr E c ca_crt ca_key opts =
     (if \<not> csr_check_signature c
      then Inl (EWrap ''csr signature invalid'' (EOther ''x509: signature check failed''))
      else let ttl = (if so_ttl opts \<le> 0 then DefaultCATTL else so_ttl opts) in
       (case leaf_serial E opts of
          Inl e \<Rightarrow> Inl e
        | Inr serial \<Rightarrow>
            (let now = env_now E;
                 not_after = (if now + ttl > crt_not_after ca_crt then crt_not_after ca_crt else now + ttl);
                 (dns, ips) = leaf_sans c opts
             in (case csr_pub c of
                   OtherKey _ \<Rightarrow> Inl (EMsg ''only RSA CSRs are supported'')
                 | RSAKey pub \<Rightarrow>
                     (let tm = \<lparr>tm_serial = serial,
                            tm_subject = \<lparr>nm_cn = nm_cn (csr_subject c), nm_rest = []\<rparr>,
                            tm_not_before = now - hour, tm_not_after = not_after,
                            tm_key_usage = [DigitalSignature, KeyEncipherment],
                            tm_ext_key_usage = [EkuServerAuth, EkuClientAuth],
                            tm_bc_valid = True, tm_is_ca = False, tm_max_path_len_zero = False,
                            tm_ski = [], tm_dns = dns, tm_ips = ips, tm_extra_exts = []\<rparr>;
                          tm' = (set_ski E tm pub)\<lparr>tm_extra_exts := so_extra_exts opts\<rparr>
                      in (case create_certificate tm' (crt_subject ca_crt) (Some (crt_pub ca_crt)) pub ca_key of
                            Inl e \<Rightarrow> Inl e
                          | Inr d \<Rightarrow> parse_certificate d))))))"

section \<open>Revocation lists\<close>

record revoked_entry =
  re_serial :: int
  re_when :: time

definition create_crl ::
  "env \<Rightarrow> certificate \<Rightarrow> rsa_private \<Rightarrow> revoked_entry list \<Rightarrow> duration \<Rightarrow> bytes res" where
  "create_crl E ca_crt ca_key revoked valid_for0 =
     (let valid_for = (if valid_for0 \<le> 0 then 24 * hour else valid_for0);
          entries = map (\<lambda>r. (re_serial r, re_when r)) revoked;
          now = env_now E
      in (case create_revocation_list (now div second) (now - hour) (now + valid_for) entries ca_crt ca_key of
            Inl e \<Rightarrow> Inl e
          | Inr d \<Rightarrow> Inr (pem_encode ''X509 CRL'' d)))"

section \<open>Fingerprints\<close>

definition hex_upper :: "byte \<Rightarrow> char" where
  "hex_upper v = ''0123456789ABCDEF'' ! unat v"

text \<open>The loop fills a buffer of \<open>3 * len - 1\<close> bytes; \<open>i\<close> and \<open>j\<close> are its two indices.\<close>

fun colon_hex_loop :: "byte list \<Rightarrow> nat \<Rightarrow> nat \<Rightarrow> string \<Rightarrow> string" where
  "colon_hex_loop [] i j out = out"
| "colon_hex_loop (v # vs) i j out =
     (let (out1, j1) = (if i > 0 then (out[j := CHR '':''], j + 1) else (out, j));
          out2 = out1[j1 := hex_upper (drop_bit 4 v)];
          out3 = out2[j1 + 1 := hex_upper (v AND 0x0F)]
      in colon_hex_loop vs (i + 1) (j1 + 2) out3)"

definition colon_hex :: "byte list \<Rightarrow> string" where
  "colon_hex b =
     (if b = [] then [] else colon_hex_loop b 0 0 (replicate (length b * 3 - 1) (CHR 0x00)))"

definition pki_fingerprints :: "env \<Rightarrow> der \<Rightarrow> string \<rightharpoonup> string" where
  "pki_fingerprints E d =
     (let fp = colon_hex (env_sha256 E d) in
      [''SHA1'' \<mapsto> colon_hex (env_sha1 E d), ''SHA256'' \<mapsto> fp, ''default'' \<mapsto> fp])"

section \<open>PEM input and output\<close>

definition encode_private_key :: "rsa_private \<Rightarrow> bytes" where
  "encode_private_key k = pem_encode ''RSA PRIVATE KEY'' (Pkcs1DER k)"

definition encode_public_key :: "rsa_private \<Rightarrow> bytes res" where
  "encode_public_key k = Inr (pem_encode ''PUBLIC KEY'' (SpkiDER (priv_public k)))"

definition encode_cert :: "certificate \<Rightarrow> bytes" where
  "encode_cert c = pem_encode ''CERTIFICATE'' (CertDER c)"

definition decode_private_key :: "bytes \<Rightarrow> rsa_private res" where
  "decode_private_key b = (case pem_decode b of
       None \<Rightarrow> Inl (EMsg ''no PEM private key found'')
     | Some ((t, d), rest) \<Rightarrow>
         (case parse_pkcs1_private d of
            Inr k \<Rightarrow> Inr k
          | Inl _ \<Rightarrow> (case parse_pkcs8_private d of
                Inl e \<Rightarrow> Inl e
              | Inr (Pkcs8Rsa k) \<Rightarrow> Inr k
              | Inr (Pkcs8NonRsa s) \<Rightarrow> Inl (EMsg ''private key is not RSA''))))"

definition decode_cert :: "bytes \<Rightarrow> certificate res" where
  "decode_cert b = (case pem_decode b of
       None \<Rightarrow> Inl (EMsg ''no PEM certificate found'')
     | Some ((t, d), rest) \<Rightarrow> parse_certificate d)"

definition decode_csr :: "bytes \<Rightarrow> csr res" where
  "decode_csr b = (case pem_decode b of
       None \<Rightarrow> Inl (EMsg ''no PEM certificate request found'')
     | Some ((t, d), rest) \<Rightarrow> parse_csr d)"


section \<open>Codecs of the PEM files\<close>

definition wf_cert :: "certificate \<Rightarrow> bool" where
  "wf_cert c \<longleftrightarrow> ids_fit (crt_exts c) \<and> distinct (map ext_id (crt_exts c))"

lemma decode_encode_cert [pki_simps]: "wf_cert c \<Longrightarrow> decode_cert (encode_cert c) = Inr c"
  by (simp add: decode_cert_def encode_cert_def parse_certificate_def wf_cert_def)

lemma decode_cert_wf: "decode_cert b = Inr c \<Longrightarrow> wf_cert c"
  by (auto simp: decode_cert_def parse_certificate_def wf_cert_def
      split: option.splits der.splits if_splits)

interpretation cert_pem: codec encode_cert "\<lambda>b. res_opt (decode_cert b)" wf_cert
  by unfold_locales (simp add: decode_encode_cert)

interpretation key_pem: codec encode_private_key "\<lambda>b. res_opt (decode_private_key b)" "\<lambda>_. True"
  by unfold_locales (simp add: encode_private_key_def decode_private_key_def parse_pkcs1_private_def)

section \<open>The fingerprint loop\<close>

definition byte_hex :: "byte \<Rightarrow> string" where
  "byte_hex v = [hex_upper (drop_bit 4 v), hex_upper (v AND 0x0F)]"

lemma list_update_append_length:
  "n = length xs \<Longrightarrow> (xs @ y # ys)[n := z] = xs @ z # ys"
  "n = length xs \<Longrightarrow> (xs @ y # ys)[Suc n := z] = xs @ y # (ys[0 := z])"
  by (auto simp: list_update_append)

lemma colon_hex_loop_later:
  "0 < i \<Longrightarrow> colon_hex_loop vs i (length pre) (pre @ replicate (length vs * 3) z)
     = pre @ concat (map (\<lambda>v. CHR '':'' # byte_hex v) vs)"
proof (induction vs arbitrary: i pre)
  case Nil
  then show ?case by simp
next
  case (Cons v vs)
  have "colon_hex_loop (v # vs) i (length pre) (pre @ replicate (length (v # vs) * 3) z)
      = colon_hex_loop vs (Suc i) (length (pre @ CHR '':'' # byte_hex v))
          ((pre @ CHR '':'' # byte_hex v) @ replicate (length vs * 3) z)"
    using Cons.prems by (simp add: Let_def byte_hex_def list_update_append numeral_eq_Suc)
  then show ?case using Cons.IH [of "Suc i" "pre @ CHR '':'' # byte_hex v"] by simp
qed

lemma str_join_colon:
  "str_join '':'' (w # ws) = w @ concat (map (\<lambda>u. CHR '':'' # u) ws)"
proof (induction ws arbitrary: w)
  case (Cons u us)
  then show ?case by simp
qed simp

lemma colon_hex_eq: "colon_hex b = str_join '':'' (map byte_hex b)"
proof (cases b)
  case Nil
  then show ?thesis by (simp add: colon_hex_def)
next
  case (Cons v vs)
  have "colon_hex b = colon_hex_loop vs 1 (length (byte_hex v))
          (byte_hex v @ replicate (length vs * 3) (CHR 0x00))"
    unfolding Cons by (simp add: colon_hex_def Let_def byte_hex_def list_update_append numeral_eq_Suc)
  also have "\<dots> = str_join '':'' (map byte_hex b)"
    unfolding Cons by (simp add: colon_hex_loop_later str_join_colon comp_def del: One_nat_def)
  finally show ?thesis .
qed

section \<open>What signing produces\<close>

definition leaf_of :: "env \<Rightarrow> csr \<Rightarrow> certificate \<Rightarrow> rsa_private \<Rightarrow> sign_opts \<Rightarrow> int \<Rightarrow> rsa_public \<Rightarrow> certificate" where
  "leaf_of E c ca k opts s pub =
     (let ttl = (if so_ttl opts \<le> 0 then DefaultCATTL else so_ttl opts) in
      \<lparr>crt_serial = s, crt_issuer = crt_subject ca,
       crt_subject = \<lparr>nm_cn = nm_cn (csr_subject c), nm_rest = []\<rparr>,
       crt_not_before = trunc_second (env_now E - hour),
       crt_not_after = trunc_second (min (env_now E + ttl) (crt_not_after ca)),
       crt_pub = RSAKey pub, crt_key_usage = [DigitalSignature, KeyEncipherment],
       crt_ext_key_usage = [EkuServerAuth, EkuClientAuth], crt_bc_valid = True,
       crt_is_ca = False, crt_ski = env_sha1 E (RsaPubDER pub),
       crt_dns = fst (leaf_sans c opts), crt_ips = map san_ip (snd (leaf_sans c opts)),
       crt_exts = so_extra_exts opts, crt_signer = Some (RSAKey (priv_public k))\<rparr>)"

text \<open>Signing succeeds in exactly these cases, with exactly this certificate.\<close>

lemma sign_csr_Inr:
  "sign_csr E c ca k opts = Inr crt \<longleftrightarrow>
     (\<exists>s pub. csr_check_signature c \<and> leaf_serial E opts = Inr s \<and> 0 \<le> s \<and>
        csr_pub c = RSAKey pub \<and> list_all is_ia5 (fst (leaf_sans c opts)) \<and>
        crt_pub ca = RSAKey (priv_public k) \<and> ids_fit (so_extra_exts opts) \<and>
        distinct (map ext_id (so_extra_exts opts)) \<and> crt = leaf_of E c ca k opts s pub)"
proof -
  obtain dns ips where sans: "leaf_sans c opts = (dns, ips)" by (cases "leaf_sans c opts")
  have if_min: "(if b < a then b else a) = min a b" for a b :: int by simp
  show ?thesis
    by (auto simp: sign_csr_def sans Let_def create_certificate_def set_ski_def
        spki_bit_string_def parse_certificate_def leaf_of_def min_def
        split: sum.splits pubkey.splits if_splits)
qed

lemma leaf_serial_Some: "leaf_serial E (opts\<lparr>so_serial := Some s\<rparr>) = Inr s"
  by (simp add: leaf_serial_def)

lemma wf_leaf: "sign_csr E c ca k opts = Inr crt \<Longrightarrow> wf_cert crt"
  by (auto simp: sign_csr_Inr wf_cert_def leaf_of_def Let_def)

lemma leaf_sans_none:
  "\<not> so_allow_alt_san opts \<Longrightarrow> so_dns_alt_names opts = [] \<Longrightarrow> leaf_sans c opts = ([], [])"
  by (simp add: leaf_sans_def)

lemma create_ca_Inr:
  "create_ca E name bits ttl = Inr (key, crt) \<longleftrightarrow>
     generate_key E bits = Inr key \<and>
     crt = \<lparr>crt_serial = 1, crt_issuer = ca_name name, crt_subject = ca_name name,
       crt_not_before = trunc_second (env_now E - hour),
       crt_not_after = trunc_second (env_now E + (if ttl \<le> 0 then 10 * 365 * 24 * hour else ttl)),
       crt_pub = RSAKey (priv_public key), crt_key_usage = [CertSign, CRLSign],
       crt_ext_key_usage = [], crt_bc_valid = True, crt_is_ca = True,
       crt_ski = env_sha1 E (RsaPubDER (priv_public key)), crt_dns = [], crt_ips = [],
       crt_exts = [], crt_signer = Some (RSAKey (priv_public key))\<rparr>"
  by (auto simp: create_ca_def Let_def create_certificate_def set_ski_def spki_bit_string_def
      parse_certificate_def split: sum.splits)

lemma create_crl_Inr:
  "create_crl E ca k revoked vf = Inr b \<longleftrightarrow>
     CRLSign \<in> set (crt_key_usage ca) \<and> crt_ski ca \<noteq> [] \<and>
     b = [Pem ''X509 CRL'' (CrlDER \<lparr>crl_issuer = crt_subject ca, crl_number = env_now E div second,
           crl_this_update = trunc_second (env_now E - hour),
           crl_next_update = trunc_second (env_now E + (if vf \<le> 0 then 24 * hour else vf)),
           crl_entries = map (\<lambda>r. (re_serial r, trunc_second (re_when r))) revoked,
           crl_signer = Some (RSAKey (priv_public k))\<rparr>)]"
  by (auto simp: create_crl_def Let_def create_revocation_list_def pem_encode_def comp_def
      hour_def second_def split: if_splits)

end
