(* ===== verification/Regexp.thy ===== *)
theory Regexp
  imports Main
begin

text \<open>
  Regular expressions over bytes, as Go's \<open>regexp\<close> package matches an anchored pattern: the
  meaning as an inductive relation, an executable matcher by derivatives, and the proof that
  they agree.
\<close>

datatype rexp =
    Zero
  | One
  | Cls "char \<Rightarrow> bool"
  | Alt rexp rexp
  | Seq rexp rexp
  | Star rexp

inductive in_re :: "rexp \<Rightarrow> string \<Rightarrow> bool" where
  in_one: "in_re One []"
| in_cls: "p c \<Longrightarrow> in_re (Cls p) [c]"
| in_alt1: "in_re r s \<Longrightarrow> in_re (Alt r q) s"
| in_alt2: "in_re q s \<Longrightarrow> in_re (Alt r q) s"
| in_seq: "in_re r s \<Longrightarrow> in_re q t \<Longrightarrow> in_re (Seq r q) (s @ t)"
| in_star0: "in_re (Star r) []"
| in_starS: "in_re r s \<Longrightarrow> in_re (Star r) t \<Longrightarrow> in_re (Star r) (s @ t)"

inductive_cases in_zeroE: "in_re Zero s"
inductive_cases in_seqE: "in_re (Seq r q) s"

inductive_simps in_re_simps [simp]:
  "in_re Zero s" "in_re One s" "in_re (Cls p) s" "in_re (Alt r q) s"

fun nullable :: "rexp \<Rightarrow> bool" where
  "nullable Zero = False"
| "nullable One = True"
| "nullable (Cls p) = False"
| "nullable (Alt r q) = (nullable r \<or> nullable q)"
| "nullable (Seq r q) = (nullable r \<and> nullable q)"
| "nullable (Star r) = True"

fun deriv :: "char \<Rightarrow> rexp \<Rightarrow> rexp" where
  "deriv c Zero = Zero"
| "deriv c One = Zero"
| "deriv c (Cls p) = (if p c then One else Zero)"
| "deriv c (Alt r q) = Alt (deriv c r) (deriv c q)"
| "deriv c (Seq r q) =
     (if nullable r then Alt (Seq (deriv c r) q) (deriv c q) else Seq (deriv c r) q)"
| "deriv c (Star r) = Seq (deriv c r) (Star r)"

text \<open>Match of the whole text, as a pattern \<open>^...$\<close> requires.\<close>

fun re_match :: "rexp \<Rightarrow> string \<Rightarrow> bool" where
  "re_match r [] = nullable r"
| "re_match r (c # s) = re_match (deriv c r) s"

lemma nullable_iff: "nullable r \<longleftrightarrow> in_re r []"
proof (induction r)
  case (Seq r q)
  then show ?case by (auto elim: in_seqE intro: in_seq [of _ "[]" _ "[]", simplified])
qed (auto intro: in_star0)

lemma in_seq_iff: "in_re (Seq r q) s \<longleftrightarrow> (\<exists>u v. s = u @ v \<and> in_re r u \<and> in_re q v)"
  by (auto elim!: in_seqE intro: in_seq)

lemma in_star_Cons:
  "in_re (Star r) (c # s) \<longleftrightarrow> (\<exists>u v. s = u @ v \<and> in_re r (c # u) \<and> in_re (Star r) v)"
  (is "?l \<longleftrightarrow> ?r")
proof
  assume ?l
  then show ?r
  proof (induction "Star r" "c # s" rule: in_re.induct)
    case (in_starS u t)
    then show ?case by (cases u) auto
  qed
next
  assume ?r
  then show ?l using in_starS by fastforce
qed

lemma in_deriv: "in_re (deriv c r) s \<longleftrightarrow> in_re r (c # s)"
proof (induction r arbitrary: s)
  case (Seq r q)
  have "in_re (Seq r q) (c # s) \<longleftrightarrow>
      (\<exists>u v. s = u @ v \<and> in_re r (c # u) \<and> in_re q v) \<or> in_re r [] \<and> in_re q (c # s)"
    by (auto simp: in_seq_iff Cons_eq_append_conv)
  with Seq show ?case by (auto simp: in_seq_iff nullable_iff)
next
  case (Star r)
  then show ?case by (simp add: in_seq_iff in_star_Cons)
qed auto

theorem re_match_iff: "re_match r s \<longleftrightarrow> in_re r s"
  by (induction s arbitrary: r) (simp_all add: nullable_iff in_deriv)

lemma in_star_cls: "in_re (Star (Cls p)) s \<longleftrightarrow> list_all p s"
  by (induction s) (auto simp: in_star_Cons intro: in_star0)

end
