(* ===== verification/Capi.thy ===== *)
theory Capi
  imports GoOS Regexp
begin

text \<open>
  \<open>internal/capi/capi.go\<close>: the wire contract of the Puppet CA v1 API. Certificate names,
  content type, states and the JSON records of the status routes.
\<close>

section \<open>Certificate names\<close>

definition alnum_char :: "char \<Rightarrow> bool" where
  "alnum_char c \<longleftrightarrow> CHR ''a'' \<le> c \<and> c \<le> CHR ''z'' \<or> CHR ''0'' \<le> c \<and> c \<le> CHR ''9''"

definition inner_char :: "char \<Rightarrow> bool" where
  "inner_char c \<longleftrightarrow> alnum_char c \<or> c = CHR ''.'' \<or> c = CHR ''_'' \<or> c = CHR ''-''"

text \<open>The pattern \<open>^[a-z0-9]([a-z0-9._-]*[a-z0-9])?$\<close>.\<close>

definition certname_re :: rexp where
  "certname_re =
     Seq (Cls alnum_char) (Alt One (Seq (Star (Cls inner_char)) (Cls alnum_char)))"

definition valid_certname :: "string \<Rightarrow> bool" where
  "valid_certname name \<longleftrightarrow>
     name \<noteq> [] \<and> length name \<le> 255 \<and> re_match certname_re name \<and> \<not> str_contains ''..'' name"

lemma certname_re_iff:
  "re_match certname_re s \<longleftrightarrow>
     s \<noteq> [] \<and> alnum_char (hd s) \<and> alnum_char (last s) \<and> list_all inner_char s"
proof
  assume "re_match certname_re s"
  then show "s \<noteq> [] \<and> alnum_char (hd s) \<and> alnum_char (last s) \<and> list_all inner_char s"
    by (auto simp: re_match_iff certname_re_def in_seq_iff in_star_cls inner_char_def)
next
  assume s: "s \<noteq> [] \<and> alnum_char (hd s) \<and> alnum_char (last s) \<and> list_all inner_char s"
  then obtain c t where t: "s = c # t" by (cases s) auto
  show "re_match certname_re s"
  proof (cases t rule: rev_cases)
    case Nil
    with s t show ?thesis by (auto simp: re_match_iff certname_re_def in_seq_iff)
  next
    case (snoc u d)
    with s t have "in_re (Seq (Star (Cls inner_char)) (Cls alnum_char)) t"
      by (auto simp: in_seq_iff in_star_cls)
    moreover have "in_re (Cls alnum_char) [c]" using s t by simp
    ultimately have "in_re (Seq (Cls alnum_char) (Alt One (Seq (Star (Cls inner_char)) (Cls alnum_char)))) ([c] @ t)"
      by (intro in_seq) simp_all
    with t show ?thesis by (simp add: re_match_iff certname_re_def)
  qed
qed

lemma valid_certname_chars: "valid_certname n \<Longrightarrow> c \<in> set n \<Longrightarrow> inner_char c"
  by (simp add: valid_certname_def certname_re_iff list_all_iff)

lemma inner_not_slash: "\<not> inner_char (CHR ''/'')"
  by (simp add: inner_char_def alnum_char_def less_eq_char_def)

text \<open>A valid name, alone or with the \<open>.pem\<close> suffix, is one plain path component.\<close>

lemma valid_certname_plain [path_simps]:
  assumes "valid_certname n"
  shows "plain_comp (n @ ''.pem'')" and "plain_comp n"
proof -
  have slash: "CHR ''/'' \<notin> set n"
    using assms valid_certname_chars inner_not_slash by blast
  have "alnum_char (hd n)"
    using assms by (simp add: valid_certname_def certname_re_iff)
  then have "hd n \<noteq> CHR ''.''" by (auto simp: alnum_char_def less_eq_char_def)
  moreover have "n \<noteq> []" using assms by (simp add: valid_certname_def)
  ultimately obtain c t where "n = c # t" "c \<noteq> CHR ''.''" by (cases n) auto
  with slash show "plain_comp n" "plain_comp (n @ ''.pem'')"
    by (simp_all add: plain_comp_def)
qed

section \<open>Wire records\<close>

definition Base :: string where "Base = ''/puppet-ca/v1''"

definition PEMContentType :: string where "PEMContentType = ''text/plain''"

definition StateRequested :: string where "StateRequested = ''requested''"
definition StateSigned :: string where "StateSigned = ''signed''"
definition StateRevoked :: string where "StateRevoked = ''revoked''"

record cert_status =
  Name :: string
  State :: string
  Fingerprint :: string
  Fingerprints :: "string \<rightharpoonup> string"
  SubjectAltN :: "string list"
  DNSAltN :: "string list"
  SerialNumber :: string
  NotBefore :: string
  NotAfter :: string
  AuthzExtensions :: "string \<rightharpoonup> string"

definition empty_status :: "string \<Rightarrow> cert_status" where
  "empty_status n = \<lparr>Name = n, State = [], Fingerprint = [], Fingerprints = Map.empty,
     SubjectAltN = [], DNSAltN = [], SerialNumber = [], NotBefore = [], NotAfter = [],
     AuthzExtensions = Map.empty\<rparr>"

record desired_state =
  DesiredState :: string
  DNSAltNames :: "string list"
  CertTTL :: string

end
