(* ===== verification/Castore.thy ===== *)
theory Castore
  imports Policy Pki Capi
begin

text \<open>
  \<open>internal/castore/castore.go\<close>: the certificate authority on disk. The state is the loaded CA
  (\<open>ca\<close>) and the file system; every operation of the store is one definition from the state
  to its result and the new file system. A method that holds the mutex throughout is one atomic
  definition; \<open>submitCSR\<close>, which releases it around the policy run, is split at those points.
\<close>

section \<open>State and options\<close>

record ca =
  ca_dir :: string
  ca_key :: rsa_private
  ca_crt :: certificate
  ca_ttl :: duration
  ca_autosign_all :: bool
  ca_allow_alt_san :: bool
  ca_policy_exe :: string
  ca_policy_timeout :: duration

record store_options =
  op_ttl :: duration
  op_autosign_all :: bool
  op_allow_alt_san :: bool
  op_policy_exe :: string
  op_policy_timeout :: duration

definition validate_options :: "'b os \<Rightarrow> store_options \<Rightarrow> store_options res" where
  "validate_options fs opts =
     (if op_policy_timeout opts < 0 then Inl (EMsg ''AutosignPolicyTimeout must be positive'')
      else if op_policy_exe opts = [] then
        (if op_policy_timeout opts \<noteq> 0
         then Inl (EMsg ''AutosignPolicyTimeout requires AutosignPolicyExecutable'') else Inr opts)
      else if \<not> op_autosign_all opts then Inl (EMsg ''AutosignPolicyExecutable requires AutosignAll'')
      else if \<not> is_abs (op_policy_exe opts) then Inl (EMsg ''AutosignPolicyExecutable must be absolute'')
      else (case os_stat fs (filepath_clean (op_policy_exe opts)) of
          Inl e \<Rightarrow> Inl (EWrap ''stat AutosignPolicyExecutable'' e)
        | Inr isdir \<Rightarrow>
            if isdir then Inl (EMsg ''AutosignPolicyExecutable must not be a directory'')
            else Inr (if op_policy_timeout opts = 0
                      then opts\<lparr>op_policy_timeout := defaultAutosignPolicyTimeout\<rparr> else opts)))"

definition ca_path :: "ca \<Rightarrow> string list \<Rightarrow> path" where
  "ca_path c parts = filepath_join (ca_dir c # parts)"

definition signed_path :: "ca \<Rightarrow> string \<Rightarrow> path" where
  "signed_path c name = ca_path c [''signed'', name @ ''.pem'']"

definition request_path :: "ca \<Rightarrow> string \<Rightarrow> path" where
  "request_path c name = ca_path c [''requests'', name @ ''.pem'']"

section \<open>Serial numbers, inventory, revocation list\<close>

definition next_serial :: "ca \<Rightarrow> bytes os \<Rightarrow> bytes os \<times> int res" where
  "next_serial c fs = (case os_read_file fs (ca_path c [''serial'']) of
       Inl e \<Rightarrow> (fs, Inl e)
     | Inr b \<Rightarrow>
         (let t = trim_space (bytes_string b) in
          case read_signed 16 t of
            None \<Rightarrow> (fs, Inl (EMsg (''corrupt serial file '' @ go_quote t)))
          | Some cur \<Rightarrow>
              (case os_write_file fs (ca_path c [''serial'']) (text_bytes (fmt_04X (cur + 1) @ [CHR 0x0A])) of
                 (fs', Some e) \<Rightarrow> (fs', Inl e)
               | (fs', None) \<Rightarrow> (fs', Inr cur))))"

definition puppet_time :: "time \<Rightarrow> string" where
  "puppet_time t = format_utc t @ ''UTC''"

definition inventory_line :: "certificate \<Rightarrow> string" where
  "inventory_line crt =
     ''0x'' @ fmt_04X (crt_serial crt) @ '' '' @ puppet_time (crt_not_before crt) @ '' '' @
     puppet_time (crt_not_after crt) @ '' /CN='' @ nm_cn (crt_subject crt) @ [CHR 0x0A]"

text \<open>Best effort: an error of the append is dropped.\<close>

definition append_inventory :: "ca \<Rightarrow> bytes os \<Rightarrow> certificate \<Rightarrow> bytes os" where
  "append_inventory c fs crt = fst (os_append_file fs (ca_path c [''inventory.txt''])
     (\<lambda>old. (case old of None \<Rightarrow> [] | Some b \<Rightarrow> b) @ text_bytes (inventory_line crt)))"

definition read_revoked :: "ca \<Rightarrow> bytes os \<Rightarrow> revoked_entry list" where
  "read_revoked c fs = (case os_read_file fs (ca_path c [''ca_crl.pem'']) of
       Inl e \<Rightarrow> []
     | Inr b \<Rightarrow> (case pem_decode b of
           None \<Rightarrow> []
         | Some ((t, d), rest) \<Rightarrow> (case parse_crl d of
               Inl e \<Rightarrow> []
             | Inr l \<Rightarrow> map (\<lambda>(s, w). \<lparr>re_serial = s, re_when = w\<rparr>) (crl_entries l))))"

definition write_crl :: "env \<Rightarrow> ca \<Rightarrow> bytes os \<Rightarrow> revoked_entry list \<Rightarrow> bytes os \<times> go_error option" where
  "write_crl E c fs revoked = (case create_crl E (ca_crt c) (ca_key c) revoked 0 of
       Inl e \<Rightarrow> (fs, Some e)
     | Inr b \<Rightarrow> os_write_file fs (ca_path c [''ca_crl.pem'']) b)"

definition ca_crl :: "ca \<Rightarrow> bytes os \<Rightarrow> bytes res" where
  "ca_crl c fs = os_read_file fs (ca_path c [''ca_crl.pem''])"

section \<open>Init and Open\<close>

definition new_ca :: "string \<Rightarrow> rsa_private \<Rightarrow> certificate \<Rightarrow> store_options \<Rightarrow> ca" where
  "new_ca dir key crt opts = \<lparr>ca_dir = dir, ca_key = key, ca_crt = crt,
     ca_ttl = (if op_ttl opts \<le> 0 then DefaultCATTL else op_ttl opts),
     ca_autosign_all = op_autosign_all opts, ca_allow_alt_san = op_allow_alt_san opts,
     ca_policy_exe = op_policy_exe opts, ca_policy_timeout = op_policy_timeout opts\<rparr>"

text \<open>The loops over the directories and over the files stop at the first error.\<close>

fun mkdir_list :: "bytes os \<Rightarrow> path list \<Rightarrow> bytes os \<times> go_error option" where
  "mkdir_list fs [] = (fs, None)"
| "mkdir_list fs (p # ps) = (case os_mkdir_all fs p of
       (fs', Some e) \<Rightarrow> (fs', Some e) | (fs', None) \<Rightarrow> mkdir_list fs' ps)"

fun write_list :: "bytes os \<Rightarrow> (path \<times> bytes) list \<Rightarrow> bytes os \<times> go_error option" where
  "write_list fs [] = (fs, None)"
| "write_list fs ((p, b) # ws) = (case os_write_file fs p b of
       (fs', Some e) \<Rightarrow> (fs', Some e) | (fs', None) \<Rightarrow> write_list fs' ws)"

definition castore_init ::
  "env \<Rightarrow> bytes os \<Rightarrow> string \<Rightarrow> string \<Rightarrow> int \<Rightarrow> store_options \<Rightarrow> bytes os \<times> ca res" where
  "castore_init E fs dir name bits opts0 = (case validate_options fs opts0 of
       Inl e \<Rightarrow> (fs, Inl e)
     | Inr opts \<Rightarrow>
       (case os_stat fs (filepath_join [dir, ''ca_crt.pem'']) of
          Inr _ \<Rightarrow> (fs, Inl (EMsg (''CA already initialized at '' @ dir)))
        | Inl _ \<Rightarrow>
          (case mkdir_list fs (map (\<lambda>sub. filepath_join [dir, sub]) [[], ''signed'', ''requests'']) of
             (fs1, Some e) \<Rightarrow> (fs1, Inl e)
           | (fs1, None) \<Rightarrow>
             (case create_ca E name bits 0 of
                Inl e \<Rightarrow> (fs1, Inl e)
              | Inr (key, crt) \<Rightarrow>
                (let c = new_ca dir key crt opts in
                 case encode_public_key key of
                   Inl e \<Rightarrow> (fs1, Inl e)
                 | Inr pub \<Rightarrow>
                   (case write_list fs1 (map (\<lambda>(n, b). (filepath_join [dir, n], b))
                        [(''ca_crt.pem'', encode_cert crt), (''ca_key.pem'', encode_private_key key),
                         (''ca_pub.pem'', pub), (''serial'', text_bytes (''0002'' @ [CHR 0x0A])),
                         (''inventory.txt'', [])]) of
                      (fs2, Some e) \<Rightarrow> (fs2, Inl e)
                    | (fs2, None) \<Rightarrow>
                      (case write_crl E c fs2 [] of
                         (fs3, Some e) \<Rightarrow> (fs3, Inl e)
                       | (fs3, None) \<Rightarrow> (append_inventory c fs3 crt, Inr c))))))))"

definition castore_open :: "bytes os \<Rightarrow> string \<Rightarrow> store_options \<Rightarrow> ca res" where
  "castore_open fs dir opts0 = (case validate_options fs opts0 of
       Inl e \<Rightarrow> Inl e
     | Inr opts \<Rightarrow>
       (case os_read_file fs (filepath_join [dir, ''ca_crt.pem'']) of
          Inl e \<Rightarrow> Inl (EWrap ''read CA cert'' e)
        | Inr crt_pem \<Rightarrow>
          (case os_read_file fs (filepath_join [dir, ''ca_key.pem'']) of
             Inl e \<Rightarrow> Inl (EWrap ''read CA key'' e)
           | Inr key_pem \<Rightarrow>
             (case decode_cert crt_pem of
                Inl e \<Rightarrow> Inl e
              | Inr crt \<Rightarrow>
                (case decode_private_key key_pem of
                   Inl e \<Rightarrow> Inl e
                 | Inr key \<Rightarrow> Inr (new_ca dir key crt opts))))))"

definition cert_pem :: "ca \<Rightarrow> bytes" where
  "cert_pem c = encode_cert (ca_crt c)"

definition set_autosign_all :: "ca \<Rightarrow> bool \<Rightarrow> ca" where
  "set_autosign_all c v = c\<lparr>ca_autosign_all := v\<rparr>"

section \<open>Signing and revoking\<close>

text \<open>The body of \<open>signLocked\<close>, keeping the leaf it issues.\<close>

definition sign_leaf :: "env \<Rightarrow> ca \<Rightarrow> bytes os \<Rightarrow> string \<Rightarrow> sign_opts \<Rightarrow> bytes os \<times> certificate res" where
  "sign_leaf E c fs name opts = (case os_read_file fs (request_path c name) of
       Inl e \<Rightarrow> (fs, Inl (if err_is_not_exist e then ENotFound else e))
     | Inr csr_pem \<Rightarrow>
       (case decode_csr csr_pem of
          Inl e \<Rightarrow> (fs, Inl e)
        | Inr req \<Rightarrow>
          (case next_serial c fs of
             (fs1, Inl e) \<Rightarrow> (fs1, Inl e)
           | (fs1, Inr serial) \<Rightarrow>
             (case sign_csr E req (ca_crt c) (ca_key c)
                 (opts\<lparr>so_serial := Some serial,
                       so_extra_exts := so_extra_exts opts @ allowed_from_csr (csr_exts req)\<rparr>) of
                Inl e \<Rightarrow> (fs1, Inl e)
              | Inr leaf \<Rightarrow>
                (case os_write_file fs1 (signed_path c name) (encode_cert leaf) of
                   (fs2, Some e) \<Rightarrow> (fs2, Inl e)
                 | (fs2, None) \<Rightarrow>
                     (fst (os_remove (append_inventory c fs2 leaf) (request_path c name)), Inr leaf))))))"

text \<open>What \<open>signLocked\<close> and \<open>Sign\<close> return: only the error.\<close>

definition err_of :: "'s \<times> 'a res \<Rightarrow> 's \<times> go_error option" where
  "err_of r = (fst r, case snd r of Inl e \<Rightarrow> Some e | Inr _ \<Rightarrow> None)"

definition sign_locked :: "env \<Rightarrow> ca \<Rightarrow> bytes os \<Rightarrow> string \<Rightarrow> sign_opts \<Rightarrow> bytes os \<times> go_error option" where
  "sign_locked E c fs name opts = err_of (sign_leaf E c fs name opts)"

definition ca_sign :: "env \<Rightarrow> ca \<Rightarrow> bytes os \<Rightarrow> string \<Rightarrow> sign_opts \<Rightarrow> bytes os \<times> go_error option" where
  "ca_sign E c fs name opts =
     (if \<not> valid_certname name then (fs, Some ENotFound)
      else sign_locked E c fs name
        (opts\<lparr>so_ttl := (if so_ttl opts \<le> 0 then ca_ttl c else so_ttl opts),
              so_allow_alt_san := ca_allow_alt_san c\<rparr>))"

definition ca_revoke :: "env \<Rightarrow> ca \<Rightarrow> bytes os \<Rightarrow> string \<Rightarrow> bytes os \<times> go_error option" where
  "ca_revoke E c fs name =
     (if \<not> valid_certname name then (fs, Some ENotFound)
      else (case os_read_file fs (signed_path c name) of
          Inl e \<Rightarrow> (fs, Some (if err_is_not_exist e then ENotFound else e))
        | Inr b \<Rightarrow> (case decode_cert b of
              Inl e \<Rightarrow> (fs, Some e)
            | Inr crt \<Rightarrow>
                (let revoked = read_revoked c fs in
                 if list_ex (\<lambda>r. re_serial r = crt_serial crt) revoked then (fs, None)
                 else write_crl E c fs
                   (revoked @ [\<lparr>re_serial = crt_serial crt, re_when = env_now E\<rparr>])))))"

section \<open>CSR intake\<close>

text \<open>
  Before the store is touched: the checks of the CSR, with the snapshot of the autosign
  settings taken at the start; the policy input when a policy will be asked.
\<close>

record autosign =
  as_all :: bool
  as_exe :: string
  as_timeout :: duration

definition autosign_snapshot :: "ca \<Rightarrow> autosign" where
  "autosign_snapshot c =
     \<lparr>as_all = ca_autosign_all c, as_exe = ca_policy_exe c, as_timeout = ca_policy_timeout c\<rparr>"

definition submit_check :: "autosign \<Rightarrow> string \<Rightarrow> bytes \<Rightarrow> string \<Rightarrow> policy_input option res" where
  "submit_check a name csr_pem source_ip =
     (if \<not> valid_certname name then Inl (EMsg (''invalid certname '' @ go_quote name))
      else (case decode_csr csr_pem of
          Inl e \<Rightarrow> Inl (EWrap ''bad CSR'' e)
        | Inr req \<Rightarrow>
            if \<not> csr_check_signature req
            then Inl (EWrap ''CSR signature invalid'' (EOther ''x509: signature check failed''))
            else if nm_cn (csr_subject req) \<noteq> name
            then Inl (EMsg (''CSR CN '' @ go_quote (nm_cn (csr_subject req)) @
                            '' does not match certname '' @ go_quote name))
            else if as_all a \<and> as_exe a \<noteq> []
            then (case build_policy_input name req source_ip of
                    Inl e \<Rightarrow> Inl e | Inr i \<Rightarrow> Inr (Some i))
            else Inr None))"

definition autosign_opts :: "ca \<Rightarrow> sign_opts" where
  "autosign_opts c =
     default_sign_opts\<lparr>so_ttl := ca_ttl c, so_allow_alt_san := ca_allow_alt_san c\<rparr>"

text \<open>
  The first critical section: store the request, and sign it at once under blanket autosign.
  It ends with a result or with the policy still to be asked.
\<close>

datatype store_outcome = SubmitDone "bool res" | AskPolicy

definition submit_store ::
  "env \<Rightarrow> ca \<Rightarrow> autosign \<Rightarrow> bytes os \<Rightarrow> string \<Rightarrow> bytes \<Rightarrow> bytes os \<times> store_outcome" where
  "submit_store E c a fs name csr_pem =
     (if is_ok (os_stat fs (signed_path c name))
      then (fs, SubmitDone (Inl (EMsg (''certificate already signed for '' @ go_quote name))))
      else (let pre = (case os_read_file fs (request_path c name) of
                  Inr existing \<Rightarrow>
                    if existing \<noteq> csr_pem
                    then Some (EMsg (''a different certificate request already exists for '' @ go_quote name))
                    else None
                | Inl e \<Rightarrow> if err_is_not_exist e then None else Some e)
        in case pre of
             Some e \<Rightarrow> (fs, SubmitDone (Inl e))
           | None \<Rightarrow>
             (case os_write_file fs (request_path c name) csr_pem of
                (fs1, Some e) \<Rightarrow> (fs1, SubmitDone (Inl e))
              | (fs1, None) \<Rightarrow>
                  if \<not> as_all a then (fs1, SubmitDone (Inr False))
                  else if as_exe a = [] then
                    (case sign_locked E c fs1 name (autosign_opts c) of
                       (fs2, Some e) \<Rightarrow> (fs2, SubmitDone (Inl e))
                     | (fs2, None) \<Rightarrow> (fs2, SubmitDone (Inr True)))
                  else (fs1, AskPolicy))))"

text \<open>The second critical section, entered after an approval only.\<close>

definition submit_finish :: "env \<Rightarrow> ca \<Rightarrow> bytes os \<Rightarrow> string \<Rightarrow> bytes \<Rightarrow> bytes os \<times> bool res" where
  "submit_finish E c fs name csr_pem = (case os_read_file fs (request_path c name) of
       Inl e \<Rightarrow> (fs, if err_is_not_exist e then Inr False else Inl e)
     | Inr current \<Rightarrow>
         if current \<noteq> csr_pem then (fs, Inr False)
         else (case os_stat fs (signed_path c name) of
             Inr _ \<Rightarrow> (fs, Inr False)
           | Inl e \<Rightarrow>
               if \<not> err_is_not_exist e then (fs, Inl e)
               else (case sign_locked E c fs name (autosign_opts c) of
                   (fs1, Some e) \<Rightarrow> (fs1, Inl e)
                 | (fs1, None) \<Rightarrow> (fs1, Inr True))))"

text \<open>
  The whole call, with \<open>others\<close> standing for what other callers do to the store while the
  policy runs without the lock.
\<close>

definition submit_csr ::
  "env \<Rightarrow> runner \<Rightarrow> (bytes os \<Rightarrow> bytes os) \<Rightarrow> ca \<Rightarrow> bytes os \<Rightarrow> string \<Rightarrow> bytes \<Rightarrow> string
     \<Rightarrow> bytes os \<times> bool res" where
  "submit_csr E run others c fs name csr_pem source_ip =
     (let a = autosign_snapshot c in
      case submit_check a name csr_pem source_ip of
        Inl e \<Rightarrow> (fs, Inl e)
      | Inr inp \<Rightarrow>
        (case submit_store E c a fs name csr_pem of
           (fs1, SubmitDone r) \<Rightarrow> (fs1, r)
         | (fs1, AskPolicy) \<Rightarrow>
           (case inp of
              None \<Rightarrow> (fs1, Inr False)
            | Some i \<Rightarrow>
              (let fs2 = others fs1 in
               if pr_outcome (run_autosign_policy run (as_exe a) (as_timeout a) i) \<noteq> PolicyApproved
               then (fs2, Inr False)
               else submit_finish E c fs2 name csr_pem))))"

definition submit_csr_local ::
  "env \<Rightarrow> runner \<Rightarrow> (bytes os \<Rightarrow> bytes os) \<Rightarrow> ca \<Rightarrow> bytes os \<Rightarrow> string \<Rightarrow> bytes \<Rightarrow> bytes os \<times> bool res" where
  "submit_csr_local E run others c fs name csr_pem = submit_csr E run others c fs name csr_pem []"

definition submit_csr_from_ip ::
  "env \<Rightarrow> runner \<Rightarrow> (bytes os \<Rightarrow> bytes os) \<Rightarrow> ca \<Rightarrow> bytes os \<Rightarrow> string \<Rightarrow> bytes \<Rightarrow> string
     \<Rightarrow> bytes os \<times> bool res" where
  [simp]: "submit_csr_from_ip E run others c fs name csr_pem source_ip =
     submit_csr E run others c fs name csr_pem source_ip"

definition get_csr :: "ca \<Rightarrow> bytes os \<Rightarrow> string \<Rightarrow> bytes res" where
  "get_csr c fs name =
     (if \<not> valid_certname name then Inl ENotFound
      else (case os_read_file fs (request_path c name) of
          Inl e \<Rightarrow> Inl (if err_is_not_exist e then ENotFound else e)
        | Inr b \<Rightarrow> Inr b))"

definition delete_csr :: "ca \<Rightarrow> bytes os \<Rightarrow> string \<Rightarrow> bytes os \<times> go_error option" where
  "delete_csr c fs name =
     (if \<not> valid_certname name then (fs, Some ENotFound)
      else (case os_remove fs (request_path c name) of
          (fs', Some e) \<Rightarrow> (fs', Some (if err_is_not_exist e then ENotFound else e))
        | (fs', None) \<Rightarrow> (fs', None)))"

definition get_cert :: "ca \<Rightarrow> bytes os \<Rightarrow> string \<Rightarrow> bytes res" where
  "get_cert c fs name =
     (if name = ''ca'' then Inr (cert_pem c)
      else if \<not> valid_certname name then Inl ENotFound
      else (case os_read_file fs (signed_path c name) of
          Inl e \<Rightarrow> Inl (if err_is_not_exist e then ENotFound else e)
        | Inr b \<Rightarrow> Inr b))"

definition ca_clean :: "ca \<Rightarrow> bytes os \<Rightarrow> string \<Rightarrow> bytes os \<times> go_error option" where
  "ca_clean c fs name =
     (if \<not> valid_certname name then (fs, Some ENotFound)
      else (let (fs1, e1) = os_remove fs (signed_path c name);
                (fs2, e2) = os_remove fs1 (request_path c name);
                missing = (\<lambda>e. case e of None \<Rightarrow> False | Some err \<Rightarrow> err_is_not_exist err)
            in if missing e1 \<and> missing e2 then (fs2, Some ENotFound)
               else if e1 \<noteq> None \<and> \<not> missing e1 then (fs2, e1)
               else if e2 \<noteq> None \<and> \<not> missing e2 then (fs2, e2)
               else (fs2, None)))"

end
