(* ===== verification/CastoreStatus.thy ===== *)
theory CastoreStatus
  imports Castore
begin

text \<open>
  The status half of \<open>internal/castore/castore.go\<close>: what the store reports about one name and
  about all of them, and the server's own TLS certificate.
\<close>

section \<open>Status of one name\<close>

definition sans :: "string list \<Rightarrow> ip list \<Rightarrow> string list" where
  "sans dns ips = map (\<lambda>d. ''DNS:'' @ d) dns @ map (\<lambda>i. ''IP:'' @ ip_string i) ips"

definition fp_default :: "(string \<rightharpoonup> string) \<Rightarrow> string" where
  "fp_default m = (case m ''default'' of Some s \<Rightarrow> s | None \<Rightarrow> [])"

definition fill_cert_fields :: "env \<Rightarrow> cert_status \<Rightarrow> certificate \<Rightarrow> cert_status" where
  "fill_cert_fields E st crt =
     (let fps = pki_fingerprints E (CertDER crt); names = sans (crt_dns crt) (crt_ips crt) in
      st\<lparr>Fingerprints := fps, Fingerprint := fp_default fps,
         SerialNumber := show_int (crt_serial crt),
         NotBefore := format_rfc3339 (crt_not_before crt),
         NotAfter := format_rfc3339 (crt_not_after crt),
         SubjectAltN := names, DNSAltN := names,
         AuthzExtensions := auth_extensions (crt_exts crt)\<rparr>)"

definition status_request :: "env \<Rightarrow> ca \<Rightarrow> bytes os \<Rightarrow> string \<Rightarrow> cert_status \<Rightarrow> cert_status res" where
  "status_request E c fs name st = (case os_read_file fs (request_path c name) of
       Inl _ \<Rightarrow> Inl ENotFound
     | Inr b \<Rightarrow> (case decode_csr b of
           Inl e \<Rightarrow> Inl e
         | Inr req \<Rightarrow>
             (let fps = pki_fingerprints E (CsrDER req); names = sans (csr_dns req) (csr_ips req) in
              Inr (st\<lparr>State := StateRequested, Fingerprints := fps, Fingerprint := fp_default fps,
                     SubjectAltN := names, DNSAltN := names,
                     AuthzExtensions := auth_extensions (csr_exts req)\<rparr>))))"

text \<open>\<open>statusWithRevokedLocked\<close> gets the revoked entries, \<open>statusLocked\<close> reads them itself.\<close>

definition status_with_revoked ::
  "env \<Rightarrow> ca \<Rightarrow> bytes os \<Rightarrow> string \<Rightarrow> revoked_entry list \<Rightarrow> cert_status res" where
  "status_with_revoked E c fs name revoked =
     (let st = empty_status name in
      case os_read_file fs (signed_path c name) of
        Inr b \<Rightarrow> (case decode_cert b of
            Inl e \<Rightarrow> Inl e
          | Inr crt \<Rightarrow>
              Inr (fill_cert_fields E
                (st\<lparr>State := foldl (\<lambda>s r. if re_serial r = crt_serial crt then StateRevoked else s)
                       StateSigned revoked\<rparr>) crt))
      | Inl _ \<Rightarrow> status_request E c fs name st)"

definition status_locked :: "env \<Rightarrow> ca \<Rightarrow> bytes os \<Rightarrow> string \<Rightarrow> cert_status res" where
  "status_locked E c fs name =
     (let st = empty_status name in
      case os_read_file fs (signed_path c name) of
        Inr b \<Rightarrow> (case decode_cert b of
            Inl e \<Rightarrow> Inl e
          | Inr crt \<Rightarrow>
              Inr (fill_cert_fields E
                (st\<lparr>State := foldl (\<lambda>s r. if re_serial r = crt_serial crt then StateRevoked else s)
                       StateSigned (read_revoked c fs)\<rparr>) crt))
      | Inl _ \<Rightarrow> status_request E c fs name st)"

definition ca_status :: "env \<Rightarrow> ca \<Rightarrow> bytes os \<Rightarrow> string \<Rightarrow> cert_status res" where
  "ca_status E c fs name =
     (if \<not> valid_certname name then Inl ENotFound else status_locked E c fs name)"

section \<open>All names\<close>

text \<open>
  The names come from a Go map, so in no fixed order; \<open>statuses_of\<close> takes them in some order,
  drops the names whose status is an error and sorts by name.
\<close>

definition statuses_of :: "env \<Rightarrow> ca \<Rightarrow> bytes os \<Rightarrow> revoked_entry list \<Rightarrow> string list \<Rightarrow> cert_status list" where
  "statuses_of E c fs revoked names =
     sort_key Name (List.map_filter (\<lambda>n. res_opt (status_with_revoked E c fs n revoked)) names)"

definition ca_statuses :: "env \<Rightarrow> ca \<Rightarrow> bytes os \<Rightarrow> cert_status list res" where
  "ca_statuses E c fs = (case os_read_dir fs (ca_path c [''signed'']) of
       Inl e \<Rightarrow> Inl e
     | Inr es1 \<Rightarrow> (case os_read_dir fs (ca_path c [''requests'']) of
           Inl e \<Rightarrow> Inl e
         | Inr es2 \<Rightarrow>
             Inr (statuses_of E c fs (read_revoked c fs)
                (remdups (map (\<lambda>(n, d). trim_suffix ''.pem'' n) (es1 @ es2))))))"

section \<open>The server's own certificate\<close>

record tls_cert =
  tls_chain :: "der list"
  tls_key :: rsa_private
  tls_leaf :: certificate

definition server_tls_cert ::
  "env \<Rightarrow> ca \<Rightarrow> bytes os \<Rightarrow> string list \<Rightarrow> bytes os \<times> tls_cert res" where
  "server_tls_cert E c fs names =
     (if names = [] then (fs, Inl (EMsg ''at least one server TLS name is required''))
      else let crt_path = ca_path c [''server_crt.pem'']; key_path = ca_path c [''server_key.pem''] in
       (case (os_read_file fs crt_path, os_read_file fs key_path) of
          (Inr cb, Inr kb) \<Rightarrow>
            (fs, (case decode_cert cb of
               Inl e \<Rightarrow> Inl e
             | Inr leaf \<Rightarrow> (case decode_private_key kb of
                   Inl e \<Rightarrow> Inl e
                 | Inr key \<Rightarrow> Inr \<lparr>tls_chain = [CertDER leaf, CertDER (ca_crt c)],
                                  tls_key = key, tls_leaf = leaf\<rparr>)))
        | _ \<Rightarrow>
          (case generate_key E 0 of
             Inl e \<Rightarrow> (fs, Inl e)
           | Inr key \<Rightarrow>
             (case create_csr key (hd names) names [] of
                Inl e \<Rightarrow> (fs, Inl e)
              | Inr csr_pem \<Rightarrow>
                (case decode_csr csr_pem of
                   Inl e \<Rightarrow> (fs, Inl e)
                 | Inr req \<Rightarrow>
                   (case next_serial c fs of
                      (fs1, Inl e) \<Rightarrow> (fs1, Inl e)
                    | (fs1, Inr serial) \<Rightarrow>
                      (case sign_csr E req (ca_crt c) (ca_key c)
                          (default_sign_opts\<lparr>so_serial := Some serial, so_ttl := ca_ttl c,
                                             so_allow_alt_san := True\<rparr>) of
                         Inl e \<Rightarrow> (fs1, Inl e)
                       | Inr leaf \<Rightarrow>
                         (case os_write_file fs1 crt_path (encode_cert leaf) of
                            (fs2, Some e) \<Rightarrow> (fs2, Inl e)
                          | (fs2, None) \<Rightarrow>
                            (case os_write_file fs2 key_path (encode_private_key key) of
                               (fs3, Some e) \<Rightarrow> (fs3, Inl e)
                             | (fs3, None) \<Rightarrow>
                                 (append_inventory c fs3 leaf,
                                  Inr \<lparr>tls_chain = [CertDER leaf, CertDER (ca_crt c)],
                                       tls_key = key, tls_leaf = leaf\<rparr>))))))))))"

section \<open>Lemmas\<close>

lemma status_locked_eq: "status_locked E c fs n = status_with_revoked E c fs n (read_revoked c fs)"
  by (simp add: status_locked_def status_with_revoked_def)

lemma foldl_revoked_state:
  "foldl (\<lambda>s r. if re_serial r = x then StateRevoked else s) s0 rs =
     (if \<exists>r \<in> set rs. re_serial r = x then StateRevoked else s0)"
  by (induction rs arbitrary: s0) auto

lemma status_name:
  "status_with_revoked E c fs n revoked = Inr st \<Longrightarrow> Name st = n"
  by (auto simp: status_with_revoked_def status_request_def fill_cert_fields_def empty_status_def
      Let_def split: sum.splits)

lemma set_map_filter_option: "x \<in> set (List.map_filter f xs) \<longleftrightarrow> (\<exists>y \<in> set xs. f y = Some x)"
  by (induction xs) (auto simp: List.map_filter_simps split: option.splits)

lemma mset_map_filter_perm:
  "mset xs = mset ys \<Longrightarrow> mset (List.map_filter f xs) = mset (List.map_filter f ys)"
proof -
  assume "mset xs = mset ys"
  then have "mset (map f xs) = mset (map f ys)" by simp
  then have "mset (filter (\<lambda>x. f x \<noteq> None) xs) = mset (filter (\<lambda>x. f x \<noteq> None) ys)"
    using \<open>mset xs = mset ys\<close> by simp
  then show ?thesis
    by (simp add: List.map_filter_def)
qed

text \<open>The order in which the map yields the names does not show in the result.\<close>

lemma statuses_of_perm:
  assumes "distinct xs" and "distinct ys" and "set xs = set ys"
  shows "statuses_of E c fs revoked xs = statuses_of E c fs revoked ys"
proof -
  let ?f = "\<lambda>n. res_opt (status_with_revoked E c fs n revoked)"
  have "mset xs = mset ys" using assms by (simp add: set_eq_iff_mset_eq_distinct)
  then have "mset (List.map_filter ?f xs) = mset (List.map_filter ?f ys)"
    by (rule mset_map_filter_perm)
  moreover have "inj_on Name (set (List.map_filter ?f xs))"
  proof (rule inj_onI)
    fix s t assume st: "s \<in> set (List.map_filter ?f xs)" "t \<in> set (List.map_filter ?f xs)" "Name s = Name t"
    from st(1) obtain x where x: "status_with_revoked E c fs x revoked = Inr s"
      by (auto simp: set_map_filter_option res_opt_Some)
    from st(2) obtain y where y: "status_with_revoked E c fs y revoked = Inr t"
      by (auto simp: set_map_filter_option res_opt_Some)
    have "x = y" using status_name [OF x] status_name [OF y] st(3) by simp
    with x y show "s = t" by simp
  qed
  ultimately show ?thesis unfolding statuses_of_def by (rule sort_key_eq_sort_key)
qed

end
