(* ===== verification/CastoreInv.thy ===== *)
theory CastoreInv
  imports CastoreStatus
begin

text \<open>
  The invariant of a cadir and what each operation of the store does to it, error paths and
  failing file calls included: the shape of the paths, the effect of signing, the serial
  allocator and the well-formedness of requests, certificates and the revocation list.
\<close>

section \<open>Paths of a cadir\<close>

definition top_file :: "ca \<Rightarrow> string \<Rightarrow> path" where
  "top_file c t = sub_path (filepath_clean (ca_dir c)) [t]"

lemma ca_path_top [path_simps]: "plain_comp t \<Longrightarrow> ca_path c [t] = top_file c t"
  by (simp add: ca_path_def top_file_def path_simps)

lemma plain_top_names [simp]:
  "plain_comp ''serial''" "plain_comp ''inventory.txt''" "plain_comp ''ca_crl.pem''"
  "plain_comp ''server_crt.pem''" "plain_comp ''server_key.pem''" "plain_comp ''ca_crt.pem''"
  "plain_comp ''ca_key.pem''" "plain_comp ''ca_pub.pem''" "plain_comp ''signed''" "plain_comp ''requests''"
  by (simp_all add: plain_comp_def)

lemma signed_path_eq [path_simps]:
  "valid_certname n \<Longrightarrow> signed_path c n = sub_path (filepath_clean (ca_dir c)) [''signed'', n @ ''.pem'']"
  by (simp add: signed_path_def ca_path_def path_simps)

lemma request_path_eq [path_simps]:
  "valid_certname n \<Longrightarrow> request_path c n = sub_path (filepath_clean (ca_dir c)) [''requests'', n @ ''.pem'']"
  by (simp add: request_path_def ca_path_def path_simps)

lemma top_file_inject [simp]: "top_file c s = top_file c t \<longleftrightarrow> s = t"
  by (simp add: top_file_def)

lemma cadir_paths_differ [simp]:
  assumes "valid_certname n"
  shows "signed_path c n \<noteq> top_file c t" "top_file c t \<noteq> signed_path c n"
    "request_path c n \<noteq> top_file c t" "top_file c t \<noteq> request_path c n"
  using assms by (simp_all add: path_simps top_file_def)

lemma cadir_paths_inject [simp]:
  assumes "valid_certname n" and "valid_certname m"
  shows "signed_path c n = signed_path c m \<longleftrightarrow> n = m" "request_path c n = request_path c m \<longleftrightarrow> n = m"
    "signed_path c n \<noteq> request_path c m" "request_path c m \<noteq> signed_path c n"
  using assms by (simp_all add: path_simps)

section \<open>What other operations leave alone\<close>

text \<open>Two states agree outside a set of paths, and in their directories and faults.\<close>

definition same_off :: "path set \<Rightarrow> 'b os \<Rightarrow> 'b os \<Rightarrow> bool" where
  "same_off P s t \<longleftrightarrow> (\<forall>q. q \<notin> P \<longrightarrow> file_at t q = file_at s q) \<and>
     os_dirs t = os_dirs s \<and> os_fault t = os_fault s"

lemma same_off_refl [simp]: "same_off P s s"
  by (simp add: same_off_def)

lemma same_off_trans: "same_off P s t \<Longrightarrow> same_off Q t u \<Longrightarrow> same_off (P \<union> Q) s u"
  by (simp add: same_off_def)

lemma same_off_mono: "same_off P s t \<Longrightarrow> P \<subseteq> Q \<Longrightarrow> same_off Q s t"
  by (auto simp: same_off_def)

lemma same_off_at: "same_off P s t \<Longrightarrow> q \<notin> P \<Longrightarrow> file_at t q = file_at s q"
  by (simp add: same_off_def)

lemma same_off_no_faults: "same_off P s t \<Longrightarrow> no_faults t = no_faults s"
  by (simp add: same_off_def no_faults_def)

lemma same_off_dir: "same_off P s t \<Longrightarrow> is_dir t = is_dir s"
  by (simp add: same_off_def is_dir_def fun_eq_iff)

lemma os_write_same: "os_write_file s p b = (t, e) \<Longrightarrow> same_off {p} s t"
  by (auto simp: same_off_def os_write_keeps dest: osf.wr_frame)

lemma os_remove_same: "os_remove s p = (t, e) \<Longrightarrow> same_off {p} s t"
  by (auto simp: same_off_def os_remove_keeps dest: osf.rm_frame)

lemma os_write_same_fst: "same_off {p} s (fst (os_write_file s p b))"
  by (metis os_write_same prod.collapse)

lemma append_inventory_same: "same_off {top_file c ''inventory.txt''} fs (append_inventory c fs crt)"
  unfolding append_inventory_def os_append_file_def ca_path_top [OF plain_top_names(2)]
  by (rule os_write_same_fst)

section \<open>Serial numbers\<close>

text \<open>
  An allocator of serials: a success returns the current number and moves to the next one, a
  failure leaves it. Whatever happens in between leaves the number alone or is an allocation,
  so the numbers handed out increase strictly.
\<close>

locale serial_allocator =
  fixes next_of :: "'s \<Rightarrow> 's \<times> int res"
    and cur :: "'s \<Rightarrow> int option"
  assumes next_done: "next_of s = (s', Inr i) \<Longrightarrow> cur s = Some i \<and> cur s' = Some (i + 1)"
    and next_fail: "next_of s = (s', Inl e) \<Longrightarrow> cur s' = cur s"
begin

text \<open>A run of allocations, each from a state with the same current number as the last one left.\<close>

inductive run :: "'s \<Rightarrow> int list \<Rightarrow> 's \<Rightarrow> bool" where
  run_nil: "cur s = cur t \<Longrightarrow> run s [] t"
| run_ok: "run s is t \<Longrightarrow> cur u = cur t \<Longrightarrow> next_of u = (v, Inr i) \<Longrightarrow> run s (is @ [i]) v"
| run_fail: "run s is t \<Longrightarrow> cur u = cur t \<Longrightarrow> next_of u = (v, Inl e) \<Longrightarrow> run s is v"

lemma run_cur:
  assumes "run s is t" and "cur s = Some k"
  shows "cur t = Some (k + int (length is)) \<and> is = map (\<lambda>j. k + int j) [0..<length is]"
  using assms
proof (induction rule: run.induct)
  case (run_ok s "is" t u v i)
  then show ?case using next_done [OF run_ok(3)] by auto
next
  case (run_fail s "is" t u v e)
  then show ?case using next_fail [OF run_fail(3)] by auto
qed auto

lemma run_distinct:
  assumes "run s is t" and "cur s = Some k"
  shows "distinct is" and "i \<in> set is \<Longrightarrow> k \<le> i \<and> i < k + int (length is)"
proof -
  note eq = run_cur [OF assms, THEN conjunct2]
  show "distinct is" by (subst eq) (simp add: distinct_map inj_on_def)
  show "i \<in> set is \<Longrightarrow> k \<le> i \<and> i < k + int (length is)"
    by (subst (asm) eq) auto
qed

end

definition serial_now :: "ca \<Rightarrow> bytes os \<Rightarrow> int option" where
  "serial_now c fs = (case file_at fs (ca_path c [''serial'']) of
       None \<Rightarrow> None | Some b \<Rightarrow> read_signed 16 (trim_space (bytes_string b)))"

definition serial_file :: "int \<Rightarrow> bytes" where
  "serial_file s = text_bytes (fmt_04X s @ [CHR 0x0A])"

lemma read_serial_file: "read_signed 16 (trim_space (bytes_string (serial_file s))) = Some s"
  by (simp add: serial_file_def trim_space_fmt_04X read_fmt_04X)

lemma next_serial_done:
  assumes "next_serial c fs = (fs', Inr i)"
  shows "serial_now c fs = Some i" and "file_at fs' = (file_at fs)(top_file c ''serial'' \<mapsto> serial_file (i + 1))"
proof -
  obtain b where rd: "os_read_file fs (top_file c ''serial'') = Inr b"
    and cur: "read_signed 16 (trim_space (bytes_string b)) = Some i"
    and wr: "os_write_file fs (top_file c ''serial'') (serial_file (i + 1)) = (fs', None)"
    using assms by (auto simp: next_serial_def Let_def path_simps serial_file_def
        split: sum.splits option.splits prod.splits)
  show "serial_now c fs = Some i" using osf.rd_found [OF rd] cur by (simp add: serial_now_def path_simps)
  show "file_at fs' = (file_at fs)(top_file c ''serial'' \<mapsto> serial_file (i + 1))" by (rule osf.wr_done [OF wr])
qed

lemma next_serial_fail: "next_serial c fs = (fs', Inl e) \<Longrightarrow> fs' = fs"
  by (auto simp: next_serial_def Let_def split: sum.splits option.splits prod.splits dest: osf.wr_fail)

lemma next_serial_same: "next_serial c fs = (fs', r) \<Longrightarrow> same_off {top_file c ''serial''} fs fs'"
  by (auto simp: next_serial_def Let_def path_simps dest: os_write_same
      split: sum.splits option.splits prod.splits)

lemma serial_now_same: "same_off P s t \<Longrightarrow> top_file c ''serial'' \<notin> P \<Longrightarrow> serial_now c t = serial_now c s"
  by (simp add: serial_now_def path_simps same_off_at)

interpretation sa: serial_allocator "next_serial c" "serial_now c" for c
proof
  show "next_serial c s = (s', Inr i) \<Longrightarrow> serial_now c s = Some i \<and> serial_now c s' = Some (i + 1)" for s s' i
    using next_serial_done [of c s s' i] by (simp add: serial_now_def path_simps read_serial_file)
  show "next_serial c s = (s', Inl e) \<Longrightarrow> serial_now c s' = serial_now c s" for s s' e
    by (auto dest: next_serial_fail)
qed


section \<open>The effect of signing\<close>

definition sign_touches :: "ca \<Rightarrow> string \<Rightarrow> path set" where
  "sign_touches c n =
     {top_file c ''serial'', top_file c ''inventory.txt'', signed_path c n, request_path c n}"

text \<open>
  A successful signing: it reads the request, takes the current serial number, signs with the
  request's extensions appended, and writes the certificate.
\<close>

lemma sign_leaf_done:
  assumes "sign_leaf E c fs n opts = (fs', Inr leaf)" and n: "valid_certname n"
  obtains csr_pem req s where
    "file_at fs (request_path c n) = Some csr_pem" "decode_csr csr_pem = Inr req"
    "serial_now c fs = Some s" "serial_now c fs' = Some (s + 1)"
    "sign_csr E req (ca_crt c) (ca_key c)
       (opts\<lparr>so_serial := Some s, so_extra_exts := so_extra_exts opts @ allowed_from_csr (csr_exts req)\<rparr>)
     = Inr leaf"
    "file_at fs' (signed_path c n) = Some (encode_cert leaf)" "same_off (sign_touches c n) fs fs'"
    "file_at fs' (request_path c n) = None \<or> file_at fs' (request_path c n) = Some csr_pem"
proof -
  obtain csr_pem req s fs1 fs2 where
    rd: "os_read_file fs (request_path c n) = Inr csr_pem" and dec: "decode_csr csr_pem = Inr req" and
    ser: "next_serial c fs = (fs1, Inr s)" and
    sg: "sign_csr E req (ca_crt c) (ca_key c)
       (opts\<lparr>so_serial := Some s, so_extra_exts := so_extra_exts opts @ allowed_from_csr (csr_exts req)\<rparr>)
     = Inr leaf" and
    wr: "os_write_file fs1 (signed_path c n) (encode_cert leaf) = (fs2, None)" and
    fs': "fs' = fst (os_remove (append_inventory c fs2 leaf) (request_path c n))"
    using assms(1) by (auto simp: sign_leaf_def split: sum.splits prod.splits option.splits)
  define fs3 where "fs3 = append_inventory c fs2 leaf"
  obtain e where rm: "os_remove fs3 (request_path c n) = (fs', e)"
    unfolding fs' fs3_def by (metis prod.collapse)
  have off3: "same_off {top_file c ''inventory.txt''} fs2 fs3"
    unfolding fs3_def by (rule append_inventory_same)
  note steps = next_serial_same [OF ser] os_write_same [OF wr] off3 os_remove_same [OF rm]
  have off: "same_off (sign_touches c n) fs fs'"
    using steps [THEN same_off_mono, of "sign_touches c n"]
    by (auto simp: sign_touches_def same_off_def)
  have at2: "file_at fs2 (signed_path c n) = Some (encode_cert leaf)"
    using osf.wr_done [OF wr] by simp
  have "file_at fs' (signed_path c n) = Some (encode_cert leaf)"
    using at2 off3 osf.rm_frame [OF rm, of "signed_path c n"] n by (simp add: same_off_def)
  moreover have "serial_now c fs' = Some (s + 1)"
    using sa.next_done [OF ser] n serial_now_same [OF steps(2)] serial_now_same [OF steps(3)]
      serial_now_same [OF steps(4)] by simp
  moreover have "file_at fs3 (request_path c n) = Some csr_pem"
    using osf.rd_found [OF rd] n same_off_at [OF steps(1)] same_off_at [OF steps(2)]
      same_off_at [OF steps(3)] by simp
  then have "file_at fs' (request_path c n) = None \<or> file_at fs' (request_path c n) = Some csr_pem"
    using rm by (cases e) (auto dest: osf.rm_done osf.rm_fail)
  ultimately show thesis
    using that osf.rd_found [OF rd] dec sa.next_done [OF ser] sg off by blast
qed

text \<open>A failed signing leaves every file but the serial file; at most it uses up a number.\<close>

lemma sign_leaf_fail:
  assumes "sign_leaf E c fs n opts = (fs', Inl e)"
  shows "same_off {top_file c ''serial''} fs fs'"
    and "serial_now c fs' = serial_now c fs \<or> (\<exists>s. serial_now c fs = Some s \<and> serial_now c fs' = Some (s + 1))"
proof -
  have c: "fs' = fs \<or> (\<exists>r. next_serial c fs = (fs', r))"
    using assms by (auto simp: sign_leaf_def split: sum.splits prod.splits option.splits dest: osf.wr_fail)
  then show "same_off {top_file c ''serial''} fs fs'"
    by (elim disjE exE) (simp, rule next_serial_same, assumption)
  show "serial_now c fs' = serial_now c fs \<or> (\<exists>s. serial_now c fs = Some s \<and> serial_now c fs' = Some (s + 1))"
    using c next_serial_fail sa.next_done by (metis sum.exhaust)
qed


section \<open>The invariant\<close>

text \<open>The CA certificate and key belong together and may sign certificates and revocation lists.\<close>

definition ca_ok :: "ca \<Rightarrow> bool" where
  "ca_ok c \<longleftrightarrow> crt_pub (ca_crt c) = RSAKey (priv_public (ca_key c)) \<and> crt_bc_valid (ca_crt c) \<and>
     crt_is_ca (ca_crt c) \<and> CertSign \<in> set (crt_key_usage (ca_crt c)) \<and>
     CRLSign \<in> set (crt_key_usage (ca_crt c)) \<and> crt_exts (ca_crt c) = []"

text \<open>The two kinds of certificate the CA keeps: of a host, and the server's own.\<close>

datatype slot = Host string | Server

fun slot_path :: "ca \<Rightarrow> slot \<Rightarrow> path" where
  "slot_path c (Host n) = signed_path c n"
| "slot_path c Server = top_file c ''server_crt.pem''"

fun slot_ok :: "slot \<Rightarrow> bool" where
  "slot_ok (Host n) = valid_certname n"
| "slot_ok Server = True"

fun slot_name :: "slot \<Rightarrow> certificate \<Rightarrow> bool" where
  "slot_name (Host n) crt \<longleftrightarrow> nm_cn (crt_subject crt) = n"
| "slot_name Server crt \<longleftrightarrow> crt_exts crt = []"

definition puppet_exts :: "extension list \<Rightarrow> bool" where
  "puppet_exts es \<longleftrightarrow> list_all (\<lambda>e. is_puppet_oid (ext_id e) \<and> \<not> ext_critical e) es"

text \<open>A leaf of this CA: signed by its key, no CA itself, within its lifetime, Puppet extensions only.\<close>

definition issued_by :: "ca \<Rightarrow> certificate \<Rightarrow> bool" where
  "issued_by c crt \<longleftrightarrow> crt_issuer crt = crt_subject (ca_crt c) \<and>
     crt_signer crt = Some (RSAKey (priv_public (ca_key c))) \<and> \<not> crt_is_ca crt \<and> crt_bc_valid crt \<and>
     CertSign \<notin> set (crt_key_usage crt) \<and>
     crt_not_after crt \<le> crt_not_after (ca_crt c) \<and> nm_rest (crt_subject crt) = [] \<and>
     puppet_exts (crt_exts crt) \<and> wf_cert crt"

definition req_ok :: "string \<Rightarrow> bytes \<Rightarrow> bool" where
  "req_ok n b \<longleftrightarrow> (case decode_csr b of
     Inl _ \<Rightarrow> False | Inr req \<Rightarrow> csr_check_signature req \<and> nm_cn (csr_subject req) = n)"

definition crl_ok :: "ca \<Rightarrow> bytes \<Rightarrow> bool" where
  "crl_ok c b \<longleftrightarrow> (case b of [Pem t (CrlDER l)] \<Rightarrow> crl_issuer l = crt_subject (ca_crt c) \<and>
     crl_signer l = Some (RSAKey (priv_public (ca_key c))) | _ \<Rightarrow> False)"

definition slot_cert :: "ca \<Rightarrow> bytes os \<Rightarrow> slot \<Rightarrow> certificate option" where
  "slot_cert c fs sl = Option.bind (file_at fs (slot_path c sl)) (\<lambda>b. res_opt (decode_cert b))"

definition requests_ok :: "ca \<Rightarrow> bytes os \<Rightarrow> bool" where
  "requests_ok c fs \<longleftrightarrow> (\<forall>n b. valid_certname n \<longrightarrow> file_at fs (request_path c n) = Some b \<longrightarrow> req_ok n b)"

definition certs_ok :: "ca \<Rightarrow> int \<Rightarrow> bytes os \<Rightarrow> bool" where
  "certs_ok c s fs \<longleftrightarrow> (\<forall>sl b. slot_ok sl \<longrightarrow> file_at fs (slot_path c sl) = Some b \<longrightarrow>
     (\<exists>crt. b = encode_cert crt \<and> issued_by c crt \<and> slot_name sl crt \<and> 2 \<le> crt_serial crt \<and> crt_serial crt < s))"

definition serials_differ :: "ca \<Rightarrow> bytes os \<Rightarrow> bool" where
  "serials_differ c fs \<longleftrightarrow> (\<forall>sl sk x y. slot_ok sl \<longrightarrow> slot_ok sk \<longrightarrow> slot_cert c fs sl = Some x \<longrightarrow>
     slot_cert c fs sk = Some y \<longrightarrow> crt_serial x = crt_serial y \<longrightarrow> sl = sk)"

text \<open>The files a later \<open>Open\<close> reads.\<close>

definition keys_ok :: "ca \<Rightarrow> bytes os \<Rightarrow> bool" where
  "keys_ok c fs \<longleftrightarrow> file_at fs (top_file c ''ca_crt.pem'') = Some (encode_cert (ca_crt c)) \<and>
     file_at fs (top_file c ''ca_key.pem'') = Some (encode_private_key (ca_key c))"

definition cadir_at :: "ca \<Rightarrow> int \<Rightarrow> bytes os \<Rightarrow> bool" where
  "cadir_at c s fs \<longleftrightarrow> ca_ok c \<and> keys_ok c fs \<and> 2 \<le> s \<and> serial_now c fs = Some s \<and> requests_ok c fs \<and>
     certs_ok c s fs \<and> serials_differ c fs \<and>
     (\<exists>b. file_at fs (top_file c ''ca_crl.pem'') = Some b \<and> crl_ok c b)"

lemma slot_paths [simp]:
  "slot_ok sl \<Longrightarrow> t \<noteq> ''server_crt.pem'' \<Longrightarrow> slot_path c sl \<noteq> top_file c t"
  "slot_ok sl \<Longrightarrow> t \<noteq> ''server_crt.pem'' \<Longrightarrow> top_file c t \<noteq> slot_path c sl"
  "slot_ok sl \<Longrightarrow> valid_certname n \<Longrightarrow> slot_path c sl \<noteq> request_path c n"
  "slot_ok sl \<Longrightarrow> valid_certname n \<Longrightarrow> request_path c n \<noteq> slot_path c sl"
  by (cases sl; auto)+

lemma slot_path_inject [simp]: "slot_ok sl \<Longrightarrow> slot_ok sk \<Longrightarrow> slot_path c sl = slot_path c sk \<longleftrightarrow> sl = sk"
  by (cases sl; cases sk) auto

lemma slot_cert_encoded:
  "file_at fs (slot_path c sl) = Some (encode_cert crt) \<Longrightarrow> wf_cert crt \<Longrightarrow> slot_cert c fs sl = Some crt"
  by (simp add: slot_cert_def decode_encode_cert)

lemma certs_ok_slot:
  assumes "certs_ok c s fs" and "slot_ok sl" and "slot_cert c fs sl = Some crt"
  shows "file_at fs (slot_path c sl) = Some (encode_cert crt)" "issued_by c crt" "slot_name sl crt"
    "2 \<le> crt_serial crt" "crt_serial crt < s"
proof -
  obtain b where b: "file_at fs (slot_path c sl) = Some b" "decode_cert b = Inr crt"
    using assms(3) by (auto simp: slot_cert_def res_opt_Some split: Option.bind_splits)
  then obtain x where "b = encode_cert x" "issued_by c x" "slot_name sl x" "2 \<le> crt_serial x" "crt_serial x < s"
    using assms(1,2) unfolding certs_ok_def by blast
  with b show "file_at fs (slot_path c sl) = Some (encode_cert crt)" "issued_by c crt" "slot_name sl crt"
    "2 \<le> crt_serial crt" "crt_serial crt < s"
    by (auto simp: decode_encode_cert issued_by_def)
qed

text \<open>A step that only removes files, uses up numbers or replaces requests and the list by good ones.\<close>

lemma cadir_at_weaken:
  assumes inv: "cadir_at c s fs" and s': "serial_now c fs' = Some s'" "s \<le> s'"
    and req: "\<And>n b. valid_certname n \<Longrightarrow> file_at fs' (request_path c n) = Some b \<Longrightarrow>
       file_at fs (request_path c n) = Some b \<or> req_ok n b"
    and cert: "\<And>sl b. slot_ok sl \<Longrightarrow> file_at fs' (slot_path c sl) = Some b \<Longrightarrow>
       file_at fs (slot_path c sl) = Some b"
    and crl: "file_at fs' (top_file c ''ca_crl.pem'') = file_at fs (top_file c ''ca_crl.pem'') \<or>
       (\<exists>b. file_at fs' (top_file c ''ca_crl.pem'') = Some b \<and> crl_ok c b)"
    and keys: "\<And>t. t = ''ca_crt.pem'' \<or> t = ''ca_key.pem'' \<Longrightarrow> file_at fs' (top_file c t) = file_at fs (top_file c t)"
  shows "cadir_at c s' fs'"
proof -
  have "keys_ok c fs'" using inv keys by (simp add: cadir_at_def keys_ok_def)
  moreover
  have "requests_ok c fs'" using inv req unfolding cadir_at_def requests_ok_def by blast
  moreover have "certs_ok c s' fs'"
  proof -
    have "\<exists>crt. b = encode_cert crt \<and> issued_by c crt \<and> slot_name sl crt \<and>
        2 \<le> crt_serial crt \<and> crt_serial crt < s'"
      if "slot_ok sl" "file_at fs' (slot_path c sl) = Some b" for sl b
    proof -
      have "certs_ok c s fs" using inv by (simp add: cadir_at_def)
      with that cert obtain crt where "b = encode_cert crt" "issued_by c crt" "slot_name sl crt"
        "2 \<le> crt_serial crt" "crt_serial crt < s"
        unfolding certs_ok_def by blast
      with s'(2) show ?thesis by fastforce
    qed
    then show ?thesis by (simp add: certs_ok_def)
  qed
  moreover have "slot_cert c fs sl = Some x" if "slot_ok sl" "slot_cert c fs' sl = Some x" for sl x
    using that cert by (auto simp: slot_cert_def split: Option.bind_splits)
  then have "serials_differ c fs'" using inv unfolding cadir_at_def serials_differ_def by blast
  ultimately show ?thesis using inv s' crl unfolding cadir_at_def by (auto intro: order_trans)
qed


text \<open>A step that issues the certificate with the current number.\<close>

lemma cadir_at_issue:
  assumes inv: "cadir_at c s fs" and s': "serial_now c fs' = Some (s + 1)" and sl: "slot_ok sl"
    and new: "file_at fs' (slot_path c sl) = Some (encode_cert leaf)"
    and leaf: "issued_by c leaf" "slot_name sl leaf" "crt_serial leaf = s"
    and req: "\<And>n b. valid_certname n \<Longrightarrow> file_at fs' (request_path c n) = Some b \<Longrightarrow>
       file_at fs (request_path c n) = Some b"
    and cert: "\<And>sk. slot_ok sk \<Longrightarrow> sk \<noteq> sl \<Longrightarrow> file_at fs' (slot_path c sk) = file_at fs (slot_path c sk)"
    and crl: "file_at fs' (top_file c ''ca_crl.pem'') = file_at fs (top_file c ''ca_crl.pem'')"
    and keys: "\<And>t. t = ''ca_crt.pem'' \<or> t = ''ca_key.pem'' \<Longrightarrow> file_at fs' (top_file c t) = file_at fs (top_file c t)"
  shows "cadir_at c (s + 1) fs'"
proof -
  have "keys_ok c fs'" using inv keys by (simp add: cadir_at_def keys_ok_def)
  moreover
  have old: "certs_ok c s fs" "2 \<le> s" using inv by (auto simp: cadir_at_def)
  have old_cert: "slot_cert c fs' sk = slot_cert c fs sk" if "slot_ok sk" "sk \<noteq> sl" for sk
    using cert that by (simp add: slot_cert_def)
  have "requests_ok c fs'" using inv req unfolding cadir_at_def requests_ok_def by blast
  moreover have "certs_ok c (s + 1) fs'"
    unfolding certs_ok_def
  proof (intro allI impI)
    fix sk b assume sk: "slot_ok sk" "file_at fs' (slot_path c sk) = Some b"
    show "\<exists>crt. b = encode_cert crt \<and> issued_by c crt \<and> slot_name sk crt \<and>
        2 \<le> crt_serial crt \<and> crt_serial crt < s + 1"
    proof (cases "sk = sl")
      case True
      with sk new leaf old(2) show ?thesis by auto
    next
      case False
      with sk cert have "file_at fs (slot_path c sk) = Some b" by simp
      with sk(1) old(1) obtain crt where "b = encode_cert crt" "issued_by c crt" "slot_name sk crt"
        "2 \<le> crt_serial crt" "crt_serial crt < s" unfolding certs_ok_def by blast
      then show ?thesis by fastforce
    qed
  qed
  moreover have "serials_differ c fs'"
  proof -
    have this_leaf: "slot_cert c fs' sl = Some leaf"
      using new leaf(1) by (simp add: slot_cert_encoded issued_by_def)
    have below: "crt_serial x < s" if "slot_ok sk" "sk \<noteq> sl" "slot_cert c fs' sk = Some x" for sk x
      using certs_ok_slot(5) [OF old(1) that(1)] old_cert that by simp
    have "serials_differ c fs" using inv by (simp add: cadir_at_def)
    then show ?thesis
      unfolding serials_differ_def
      using this_leaf leaf(3) below old_cert by (metis less_irrefl option.inject)
  qed
  ultimately show ?thesis using inv s' crl unfolding cadir_at_def by simp
qed

lemma sign_csr_issued:
  assumes "sign_csr E req (ca_crt c) (ca_key c) (opts\<lparr>so_serial := Some s, so_extra_exts := exts\<rparr>) = Inr leaf"
    and "puppet_exts exts"
  shows "issued_by c leaf" "crt_serial leaf = s" "nm_cn (crt_subject leaf) = nm_cn (csr_subject req)"
    "crt_pub leaf = csr_pub req" "csr_check_signature req" "crt_exts leaf = exts"
proof -
  have "trunc_second (min x y) \<le> y" for x y
    by (rule order_trans [OF trunc_second_le]) simp
  with assms wf_leaf [OF assms(1)]
  show "issued_by c leaf" "crt_serial leaf = s" "nm_cn (crt_subject leaf) = nm_cn (csr_subject req)"
    "crt_pub leaf = csr_pub req" "csr_check_signature req" "crt_exts leaf = exts"
    by (auto simp: sign_csr_Inr leaf_serial_def issued_by_def leaf_of_def Let_def)
qed

lemma puppet_allowed: "puppet_exts (allowed_from_csr exts)"
  by (auto simp: puppet_exts_def list_all_iff dest: allowed_ids)


section \<open>Every operation keeps the invariant\<close>

text \<open>
  An operation that may issue into the slot \<open>sl\<close>: the number does not go back, a new
  certificate there has the current number, and the other slots keep their certificates.
\<close>

definition ok_step :: "ca \<Rightarrow> slot \<Rightarrow> int \<Rightarrow> bytes os \<Rightarrow> int \<Rightarrow> bytes os \<Rightarrow> bool" where
  "ok_step c sl s fs s' fs' \<longleftrightarrow> cadir_at c s' fs' \<and> s \<le> s' \<and>
     (\<forall>sk. slot_ok sk \<longrightarrow> sk \<noteq> sl \<longrightarrow> slot_cert c fs' sk = slot_cert c fs sk) \<and>
     (\<forall>crt. slot_cert c fs' sl = Some crt \<longrightarrow>
        slot_cert c fs sl = Some crt \<or> crt_serial crt = s \<and> s' = s + 1)"

lemma ok_step_refl: "cadir_at c s fs \<Longrightarrow> ok_step c sl s fs s fs"
  by (simp add: ok_step_def)

text \<open>No certificate is issued: files of certificates stay or, in the slot, go.\<close>

lemma ok_step_quiet:
  assumes "cadir_at c s' fs'" and "s \<le> s'"
    and "\<And>sk. slot_ok sk \<Longrightarrow> sk \<noteq> sl \<Longrightarrow> file_at fs' (slot_path c sk) = file_at fs (slot_path c sk)"
    and "\<And>b. file_at fs' (slot_path c sl) = Some b \<Longrightarrow> file_at fs (slot_path c sl) = Some b"
  shows "ok_step c sl s fs s' fs'"
  using assms by (auto simp: ok_step_def slot_cert_def split: Option.bind_splits)

lemma ok_step_same:
  assumes "cadir_at c s fs" and "serial_now c fs' = Some s'" and "s \<le> s'"
    and "same_off P fs fs'" and "\<And>sl. slot_ok sl \<Longrightarrow> slot_path c sl \<notin> P"
    and "\<And>t. t = ''ca_crl.pem'' \<or> t = ''ca_crt.pem'' \<or> t = ''ca_key.pem'' \<Longrightarrow> top_file c t \<notin> P" and "\<And>n. valid_certname n \<Longrightarrow> request_path c n \<notin> P"
    and "slot_ok sl"
  shows "ok_step c sl s fs s' fs'"
proof (rule ok_step_quiet)
  have at: "file_at fs' (slot_path c sk) = file_at fs (slot_path c sk)" if "slot_ok sk" for sk
    using assms(4,5) that by (simp add: same_off_at)
  show "cadir_at c s' fs'"
    by (rule cadir_at_weaken [OF assms(1-3)]) (use assms(4-7) at in \<open>auto simp: same_off_at\<close>)
  show "file_at fs' (slot_path c sk) = file_at fs (slot_path c sk)" if "slot_ok sk" for sk by (rule at [OF that])
  show "file_at fs' (slot_path c sl) = Some b \<Longrightarrow> file_at fs (slot_path c sl) = Some b" for b
    using at [OF assms(8)] by simp
qed (rule assms(3))

lemma sign_leaf_ok:
  assumes inv: "cadir_at c s fs" and n: "valid_certname n" and ext: "puppet_exts (so_extra_exts opts)"
    and sg: "sign_leaf E c fs n opts = (fs', r)"
  shows "\<exists>s'. ok_step c (Host n) s fs s' fs'"
proof (cases r)
  case (Inl e)
  note fail = sign_leaf_fail [OF sg [unfolded Inl]]
  have "serial_now c fs = Some s" using inv by (simp add: cadir_at_def)
  with fail(2) obtain s' where "serial_now c fs' = Some s'" "s \<le> s'" by auto
  then have "ok_step c (Host n) s fs s' fs'"
    by (rule ok_step_same [OF inv _ _ fail(1)]) (use n in auto)
  then show ?thesis by blast
next
  case (Inr leaf)
  obtain csr_pem req s1 where req: "file_at fs (request_path c n) = Some csr_pem" "decode_csr csr_pem = Inr req"
    and s1: "serial_now c fs = Some s1" "serial_now c fs' = Some (s1 + 1)"
    and leaf: "sign_csr E req (ca_crt c) (ca_key c)
       (opts\<lparr>so_serial := Some s1, so_extra_exts := so_extra_exts opts @ allowed_from_csr (csr_exts req)\<rparr>)
     = Inr leaf"
    and at: "file_at fs' (signed_path c n) = Some (encode_cert leaf)" "same_off (sign_touches c n) fs fs'"
      "file_at fs' (request_path c n) = None \<or> file_at fs' (request_path c n) = Some csr_pem"
    by (rule sign_leaf_done [OF sg [unfolded Inr] n])
  have "s1 = s" using s1(1) inv by (simp add: cadir_at_def)
  have "puppet_exts (so_extra_exts opts @ allowed_from_csr (csr_exts req))"
    using ext puppet_allowed by (simp add: puppet_exts_def)
  note iss = sign_csr_issued [OF leaf this]
  have "requests_ok c fs" using inv by (simp add: cadir_at_def)
  with n req have cn: "nm_cn (crt_subject leaf) = n"
    using iss(3) by (auto simp: requests_ok_def req_ok_def)
  have at': "file_at fs' (slot_path c sk) = file_at fs (slot_path c sk)" if "slot_ok sk" "sk \<noteq> Host n" for sk
    using that n same_off_at [OF at(2)] by (cases sk) (auto simp: sign_touches_def)
  have "cadir_at c (s + 1) fs'"
  proof (rule cadir_at_issue [OF inv])
    show "serial_now c fs' = Some (s + 1)" using s1(2) \<open>s1 = s\<close> by simp
    show "file_at fs' (slot_path c (Host n)) = Some (encode_cert leaf)" using at(1) by simp
    show "slot_name (Host n) leaf" using cn by simp
    show "crt_serial leaf = s" using iss(2) \<open>s1 = s\<close> by simp
    show "file_at fs (request_path c m) = Some b"
      if "valid_certname m" "file_at fs' (request_path c m) = Some b" for m b
      using that n req(1) at(3) same_off_at [OF at(2), of "request_path c m"]
      by (cases "m = n") (auto simp: sign_touches_def)
    show "file_at fs' (top_file c ''ca_crl.pem'') = file_at fs (top_file c ''ca_crl.pem'')"
      by (rule same_off_at [OF at(2)]) (use n in \<open>simp add: sign_touches_def\<close>)
    show "t = ''ca_crt.pem'' \<or> t = ''ca_key.pem'' \<Longrightarrow> file_at fs' (top_file c t) = file_at fs (top_file c t)" for t
      by (rule same_off_at [OF at(2)]) (use n in \<open>auto simp: sign_touches_def\<close>)
  qed (use n iss(1) at' in auto)
  moreover have "slot_cert c fs' (Host n) = Some leaf"
    using at(1) iss(1) by (simp add: slot_cert_encoded issued_by_def)
  ultimately have "ok_step c (Host n) s fs (s + 1) fs'"
    using iss(2) \<open>s1 = s\<close> at' by (simp add: ok_step_def slot_cert_def)
  then show ?thesis by blast
qed


lemma sign_locked_ok:
  assumes "cadir_at c s fs" and "valid_certname n" and "puppet_exts (so_extra_exts opts)"
    and "sign_locked E c fs n opts = (fs', e)"
  shows "\<exists>s'. ok_step c (Host n) s fs s' fs'"
proof -
  have "sign_leaf E c fs n opts = (fs', snd (sign_leaf E c fs n opts))"
    using assms(4) by (auto simp: sign_locked_def err_of_def)
  then show ?thesis by (rule sign_leaf_ok [OF assms(1-3)])
qed

lemma ca_sign_ok:
  assumes inv: "cadir_at c s fs" and ext: "puppet_exts (so_extra_exts opts)"
    and "ca_sign E c fs n opts = (fs', e)"
  shows "\<exists>s'. ok_step c (Host n) s fs s' fs'"
proof (cases "valid_certname n")
  case True
  let ?opts = "opts\<lparr>so_ttl := (if so_ttl opts \<le> 0 then ca_ttl c else so_ttl opts),
     so_allow_alt_san := ca_allow_alt_san c\<rparr>"
  have "sign_locked E c fs n ?opts = (fs', e)" using assms(3) True by (simp add: ca_sign_def)
  moreover have "puppet_exts (so_extra_exts ?opts)" using ext by simp
  ultimately show ?thesis using sign_locked_ok [OF inv True] by blast
next
  case False
  with assms show ?thesis by (auto simp: ca_sign_def intro: ok_step_refl)
qed

text \<open>Writing a good request under a valid name.\<close>

lemma put_request_ok:
  assumes inv: "cadir_at c s fs" and n: "valid_certname n" and pem: "req_ok n pem"
    and wr: "os_write_file fs (request_path c n) pem = (fs', e)"
  shows "cadir_at c s fs'" "slot_ok sl \<Longrightarrow> slot_cert c fs' sl = slot_cert c fs sl"
proof -
  have off: "same_off {request_path c n} fs fs'" by (rule os_write_same [OF wr])
  have at: "file_at fs' (request_path c n) = Some pem \<or> fs' = fs"
    using wr by (cases e) (auto dest: osf.wr_done osf.wr_fail)
  show "cadir_at c s fs'"
  proof (rule cadir_at_weaken [OF inv])
    show "serial_now c fs' = Some s"
      using inv serial_now_same [OF off] n by (simp add: cadir_at_def)
    show "file_at fs (request_path c m) = Some b \<or> req_ok m b"
      if "valid_certname m" "file_at fs' (request_path c m) = Some b" for m b
      using that n at pem same_off_at [OF off, of "request_path c m"] by (cases "m = n") auto
  qed (use n same_off_at [OF off] in auto)
  show "slot_ok sl \<Longrightarrow> slot_cert c fs' sl = slot_cert c fs sl"
    using n same_off_at [OF off] by (simp add: slot_cert_def)
qed

lemma submit_check_req_ok:
  assumes "submit_check a n pem ip = Inr inp"
  shows "valid_certname n" "req_ok n pem"
  using assms by (auto simp: submit_check_def req_ok_def split: if_splits sum.splits)

lemma submit_store_ok:
  assumes inv: "cadir_at c s fs" and n: "valid_certname n" and pem: "req_ok n pem"
    and st: "submit_store E c a fs n pem = (fs', r)"
  shows "\<exists>s'. ok_step c (Host n) s fs s' fs'"
proof -
  consider "fs' = fs"
    | fs1 e where "os_write_file fs (request_path c n) pem = (fs1, e)" "fs' = fs1"
    | fs1 e where "os_write_file fs (request_path c n) pem = (fs1, None)"
        "sign_locked E c fs1 n (autosign_opts c) = (fs', e)"
    using st by (auto simp: submit_store_def Let_def split: if_splits sum.splits option.splits prod.splits)
  then show ?thesis
  proof cases
    case 1
    with inv show ?thesis by (auto intro: ok_step_refl)
  next
    case 2
    with put_request_ok [OF inv n pem 2(1)] have "ok_step c (Host n) s fs s fs'"
      using n by (simp add: ok_step_def)
    then show ?thesis by blast
  next
    case 3
    note put = put_request_ok [OF inv n pem 3(1)]
    have "puppet_exts (so_extra_exts (autosign_opts c))"
      by (simp add: autosign_opts_def default_sign_opts_def puppet_exts_def)
    from sign_locked_ok [OF put(1) n this 3(2)] put(2) n show ?thesis
      by (auto simp: ok_step_def)
  qed
qed

lemma submit_finish_ok:
  assumes inv: "cadir_at c s fs" and n: "valid_certname n"
    and "submit_finish E c fs n pem = (fs', r)"
  shows "\<exists>s'. ok_step c (Host n) s fs s' fs'"
proof -
  have ext: "puppet_exts (so_extra_exts (autosign_opts c))"
    by (simp add: autosign_opts_def default_sign_opts_def puppet_exts_def)
  have "fs' = fs \<or> (\<exists>e. sign_locked E c fs n (autosign_opts c) = (fs', e))"
    using assms(3) by (auto simp: submit_finish_def split: if_splits sum.splits option.splits prod.splits)
  with ok_step_refl [OF inv] sign_locked_ok [OF inv n ext] show ?thesis by blast
qed

lemma write_crl_ok:
  assumes inv: "cadir_at c s fs" and wr: "write_crl E c fs es = (fs', e)" and sl: "slot_ok sl"
  shows "ok_step c sl s fs s fs'"
proof (cases "fs' = fs")
  case True
  with inv show ?thesis by (simp add: ok_step_refl)
next
  case False
  then obtain b e' where b: "create_crl E (ca_crt c) (ca_key c) es 0 = Inr b"
    and w: "os_write_file fs (top_file c ''ca_crl.pem'') b = (fs', e')"
    using wr by (auto simp: write_crl_def path_simps split: sum.splits)
  with False have "e' = None" by (cases e') (auto dest: osf.wr_fail)
  with w have at: "file_at fs' (top_file c ''ca_crl.pem'') = Some b" by (auto dest: osf.wr_done)
  have crl: "crl_ok c b" using b by (auto simp: create_crl_Inr crl_ok_def)
  note off = os_write_same [OF w]
  have "cadir_at c s fs'"
  proof (rule cadir_at_weaken [OF inv])
    show "serial_now c fs' = Some s" using inv serial_now_same [OF off] by (simp add: cadir_at_def)
  qed (use at crl same_off_at [OF off] in auto)
  then show ?thesis
    by (rule ok_step_quiet) (use same_off_at [OF off] sl in auto)
qed

lemma ca_revoke_ok:
  assumes inv: "cadir_at c s fs" and "ca_revoke E c fs n = (fs', e)"
  shows "ok_step c Server s fs s fs'"
proof -
  have "fs' = fs \<or> (\<exists>es e. write_crl E c fs es = (fs', e))"
    using assms(2) by (auto simp: ca_revoke_def Let_def split: if_splits sum.splits)
  with ok_step_refl [OF inv] write_crl_ok [OF inv] show ?thesis by fastforce
qed

text \<open>Removing a request or a host certificate.\<close>

lemma remove_ok:
  assumes inv: "cadir_at c s fs" and n: "valid_certname n"
    and p: "p = request_path c n \<or> p = signed_path c n" and rm: "os_remove fs p = (fs', e)"
  shows "ok_step c (Host n) s fs s fs'"
proof (rule ok_step_quiet)
  note off = os_remove_same [OF rm]
  have off': "file_at fs' q = file_at fs q" if "q \<noteq> p" for q using same_off_at [OF off] that by simp
  have less: "file_at fs' q = Some b \<Longrightarrow> file_at fs q = Some b" for q b
    using osf.rm_at_most [OF rm, of b] off' by (cases "q = p") auto
  show "cadir_at c s fs'"
  proof (rule cadir_at_weaken [OF inv])
    show "serial_now c fs' = Some s"
      using inv serial_now_same [OF off] n p by (auto simp: cadir_at_def)
    show "file_at fs' (top_file c ''ca_crl.pem'') = file_at fs (top_file c ''ca_crl.pem'') \<or>
        (\<exists>b. file_at fs' (top_file c ''ca_crl.pem'') = Some b \<and> crl_ok c b)"
      using off' n p by auto
    show "t = ''ca_crt.pem'' \<or> t = ''ca_key.pem'' \<Longrightarrow> file_at fs' (top_file c t) = file_at fs (top_file c t)" for t
      using off' n p by auto
  qed (use less in auto)
  show "file_at fs' (slot_path c sk) = file_at fs (slot_path c sk)" if "slot_ok sk" "sk \<noteq> Host n" for sk
    using that n p off' by (cases sk) auto
  show "file_at fs' (slot_path c (Host n)) = Some b \<Longrightarrow> file_at fs (slot_path c (Host n)) = Some b" for b
    by (rule less)
qed simp

lemma delete_csr_ok:
  assumes inv: "cadir_at c s fs" and "delete_csr c fs n = (fs', e)"
  shows "ok_step c (Host n) s fs s fs'"
proof (cases "valid_certname n")
  case True
  with assms(2) obtain e' where "os_remove fs (request_path c n) = (fs', e')"
    by (auto simp: delete_csr_def split: prod.splits option.splits)
  then show ?thesis by (rule remove_ok [OF inv True disjI1 [OF refl]])
next
  case False
  with assms show ?thesis by (simp add: delete_csr_def ok_step_refl)
qed

lemma ok_step_trans_quiet:
  assumes "ok_step c sl s fs s fs1" and "ok_step c sl s fs1 s' fs2"
  shows "ok_step c sl s fs s' fs2"
  using assms by (force simp: ok_step_def)

lemma ca_clean_ok:
  assumes inv: "cadir_at c s fs" and "ca_clean c fs n = (fs', e)"
  shows "ok_step c (Host n) s fs s fs'"
proof (cases "valid_certname n")
  case True
  obtain fs1 e1 where 1: "os_remove fs (signed_path c n) = (fs1, e1)" by fastforce
  obtain fs2 e2 where 2: "os_remove fs1 (request_path c n) = (fs2, e2)" by fastforce
  have "fs' = fs2" using assms(2) 1 2 True by (auto simp: ca_clean_def Let_def split: if_splits)
  note a = remove_ok [OF inv True disjI2 [OF refl] 1]
  then have "cadir_at c s fs1" by (simp add: ok_step_def)
  from ok_step_trans_quiet [OF a remove_ok [OF this True disjI1 [OF refl] 2]] \<open>fs' = fs2\<close>
  show ?thesis by simp
next
  case False
  with assms show ?thesis by (simp add: ca_clean_def ok_step_refl)
qed


text \<open>The server's own certificate.\<close>

lemma server_tls_cases:
  assumes "server_tls_cert E c fs names = (fs', r)"
  obtains "fs' = fs"
  | s where "next_serial c fs = (fs', Inr s)"
  | s fs1 req leaf where "next_serial c fs = (fs1, Inr s)"
      "sign_csr E req (ca_crt c) (ca_key c)
          (default_sign_opts\<lparr>so_serial := Some s, so_ttl := ca_ttl c, so_allow_alt_san := True\<rparr>) = Inr leaf"
      "file_at fs' (top_file c ''server_crt.pem'') = Some (encode_cert leaf)"
      "same_off {top_file c ''server_crt.pem'', top_file c ''server_key.pem'', top_file c ''inventory.txt''} fs1 fs'"
proof -
  have "fs' = fs \<or> (\<exists>s. next_serial c fs = (fs', Inr s)) \<or>
    (\<exists>s fs1 req leaf fs2. next_serial c fs = (fs1, Inr s) \<and>
      sign_csr E req (ca_crt c) (ca_key c)
          (default_sign_opts\<lparr>so_serial := Some s, so_ttl := ca_ttl c, so_allow_alt_san := True\<rparr>) = Inr leaf \<and>
      os_write_file fs1 (top_file c ''server_crt.pem'') (encode_cert leaf) = (fs2, None) \<and>
      (fs' = fs2 \<or> (\<exists>key fs3. os_write_file fs2 (top_file c ''server_key.pem'') (encode_private_key key) = (fs3, None) \<and>
         fs' = append_inventory c fs3 leaf)))"
    using assms unfolding server_tls_cert_def Let_def ca_path_top [OF plain_top_names(4)]
      ca_path_top [OF plain_top_names(5)]
    by (auto split: if_splits sum.splits prod.splits option.splits dest: next_serial_fail osf.wr_fail) blast+
  then consider "fs' = fs" | s where "next_serial c fs = (fs', Inr s)"
    | s fs1 req leaf fs2 where "next_serial c fs = (fs1, Inr s)"
      "sign_csr E req (ca_crt c) (ca_key c)
          (default_sign_opts\<lparr>so_serial := Some s, so_ttl := ca_ttl c, so_allow_alt_san := True\<rparr>) = Inr leaf"
      "os_write_file fs1 (top_file c ''server_crt.pem'') (encode_cert leaf) = (fs2, None)"
      "fs' = fs2 \<or> (\<exists>key fs3. os_write_file fs2 (top_file c ''server_key.pem'') (encode_private_key key) = (fs3, None) \<and>
         fs' = append_inventory c fs3 leaf)"
    by blast
  then show thesis
  proof cases
    case 1
    then show thesis by (rule that(1))
  next
    case 2
    then show thesis by (rule that(2))
  next
    case 3
    let ?P = "{top_file c ''server_crt.pem'', top_file c ''server_key.pem'', top_file c ''inventory.txt''}"
    have one: "same_off ?P fs1 fs2" using os_write_same [OF 3(3)] by (rule same_off_mono) simp
    have at: "file_at fs2 (top_file c ''server_crt.pem'') = Some (encode_cert leaf)"
      using osf.wr_done [OF 3(3)] by simp
    have two: "same_off {top_file c ''server_key.pem'', top_file c ''inventory.txt''} fs2 fs'"
      using 3(4)
    proof (elim disjE exE conjE)
      fix key fs3
      assume w: "os_write_file fs2 (top_file c ''server_key.pem'') (encode_private_key key) = (fs3, None)"
        and fs': "fs' = append_inventory c fs3 leaf"
      from same_off_trans [OF os_write_same [OF w] append_inventory_same [of c fs3 leaf]] fs'
      show ?thesis by (simp add: insert_commute)
    qed simp
    have "same_off ?P fs1 fs'" using same_off_trans [OF one two] by (simp add: insert_commute)
    moreover have "file_at fs' (top_file c ''server_crt.pem'') = Some (encode_cert leaf)"
      using same_off_at [OF two, of "top_file c ''server_crt.pem''"] at by simp
    ultimately show thesis using 3(1,2) that(3) by blast
  qed
qed

lemma server_tls_ok:
  assumes inv: "cadir_at c s fs" and "server_tls_cert E c fs names = (fs', r)"
  shows "\<exists>s'. ok_step c Server s fs s' fs'"
  using assms(2)
proof (cases rule: server_tls_cases)
  case 1
  with inv show ?thesis by (auto intro: ok_step_refl)
next
  case (2 s1)
  have "s1 = s" "serial_now c fs' = Some (s + 1)"
    using sa.next_done [OF 2] inv by (auto simp: cadir_at_def)
  then have "ok_step c Server s fs (s + 1) fs'"
    by (intro ok_step_same [OF inv _ _ next_serial_same [OF 2]]) auto
  then show ?thesis by blast
next
  case (3 s1 fs1 req leaf)
  let ?c = "top_file c ''server_crt.pem''"
  have s1: "s1 = s" "serial_now c fs1 = Some (s + 1)"
    using sa.next_done [OF 3(1)] inv by (auto simp: cadir_at_def)
  have leaf: "sign_csr E req (ca_crt c) (ca_key c)
      ((default_sign_opts\<lparr>so_ttl := ca_ttl c, so_allow_alt_san := True\<rparr>)\<lparr>so_serial := Some s1, so_extra_exts := []\<rparr>) = Inr leaf"
    using 3(2) by (simp add: default_sign_opts_def)
  have "puppet_exts []" by (simp add: puppet_exts_def)
  note iss = sign_csr_issued [OF leaf this]
  have off: "file_at fs' q = file_at fs q"
    if "q \<noteq> ?c" "q \<noteq> top_file c ''server_key.pem''" "q \<noteq> top_file c ''inventory.txt''" "q \<noteq> top_file c ''serial''" for q
    using same_off_at [OF 3(4), of q] same_off_at [OF next_serial_same [OF 3(1)], of q] that by simp
  have at': "file_at fs' (slot_path c sk) = file_at fs (slot_path c sk)" if "slot_ok sk" "sk \<noteq> Server" for sk
    using that by (cases sk) (auto intro!: off)
  have "cadir_at c (s + 1) fs'"
  proof (rule cadir_at_issue [OF inv])
    show "serial_now c fs' = Some (s + 1)" using s1(2) serial_now_same [OF 3(4)] by simp
    show "file_at fs' (slot_path c Server) = Some (encode_cert leaf)" using 3(3) by simp
    show "slot_name Server leaf" using iss(6) by simp
  qed (use iss(1,2) s1(1) at' off in auto)
  moreover have "slot_cert c fs' Server = Some leaf"
    using 3(3) iss(1) by (simp add: slot_cert_encoded issued_by_def)
  ultimately have "ok_step c Server s fs (s + 1) fs'"
    using iss(2) s1(1) at' by (simp add: ok_step_def slot_cert_def)
  then show ?thesis by blast
qed

text \<open>Other faults, or other autosign settings, change nothing here.\<close>

lemma cadir_at_fault: "cadir_at c s (fs\<lparr>os_fault := f\<rparr>) = cadir_at c s fs"
proof -
  have "file_at (fs\<lparr>os_fault := f\<rparr>) = file_at fs" by (auto simp: file_at_def is_dir_def fun_eq_iff)
  then show ?thesis
    by (simp add: cadir_at_def serial_now_def requests_ok_def certs_ok_def serials_differ_def slot_cert_def
        keys_ok_def)
qed

text \<open>The invariant looks at the directory, the key and the certificate only.\<close>

definition same_ca :: "ca \<Rightarrow> ca \<Rightarrow> bool" where
  "same_ca c d \<longleftrightarrow> ca_dir d = ca_dir c \<and> ca_key d = ca_key c \<and> ca_crt d = ca_crt c"

lemma same_ca_paths:
  assumes "same_ca c d"
  shows "top_file d = top_file c" "request_path d = request_path c" "signed_path d = signed_path c"
    "ca_path d = ca_path c" "slot_path d sl = slot_path c sl"
proof -
  show p: "top_file d = top_file c" "request_path d = request_path c" "signed_path d = signed_path c"
    "ca_path d = ca_path c"
    using assms by (simp_all add: fun_eq_iff top_file_def request_path_def signed_path_def ca_path_def same_ca_def)
  show "slot_path d sl = slot_path c sl" by (cases sl) (simp_all add: p)
qed

lemma same_ca_issued: "same_ca c d \<Longrightarrow> issued_by d = issued_by c"
  by (simp add: same_ca_def issued_by_def fun_eq_iff)

lemma same_ca_slot_cert: "same_ca c d \<Longrightarrow> slot_cert d fs sl = slot_cert c fs sl"
  by (simp add: slot_cert_def same_ca_paths)

lemma cadir_at_same_ca:
  assumes "same_ca c d"
  shows "cadir_at d s fs = cadir_at c s fs"
proof -
  have f: "ca_crt d = ca_crt c" "ca_key d = ca_key c" using assms by (simp_all add: same_ca_def)
  have o: "crl_ok d = crl_ok c" "ca_ok d = ca_ok c" "keys_ok d = keys_ok c"
    unfolding fun_eq_iff crl_ok_def ca_ok_def keys_ok_def f same_ca_paths [OF assms] by simp_all
  show ?thesis
    by (simp add: cadir_at_def serial_now_def requests_ok_def certs_ok_def serials_differ_def
        same_ca_slot_cert [OF assms] same_ca_issued [OF assms] same_ca_paths [OF assms] o)
qed

section \<open>A fresh cadir\<close>

lemma mkdir_list_file_at: "mkdir_list s ps = (t, e) \<Longrightarrow> file_at t = file_at s \<and> os_fault t = os_fault s"
proof (induction s ps rule: mkdir_list.induct)
  case (2 s p ps)
  then show ?case
    by (auto split: prod.splits option.splits dest: mkdir_file_at)
qed simp

lemma write_list_done:
  "write_list s ws = (t, None) \<Longrightarrow> file_at t = foldl (\<lambda>m (p, b). m(p \<mapsto> b)) (file_at s) ws \<and> os_fault t = os_fault s"
proof (induction s ws rule: write_list.induct)
  case (2 s p b ws)
  then obtain s1 where s1: "os_write_file s p b = (s1, None)" "write_list s1 ws = (t, None)"
    by (auto split: prod.splits option.splits)
  have "file_at t = foldl (\<lambda>m (p, b). m(p \<mapsto> b)) (file_at s1) ws \<and> os_fault t = os_fault s1"
    using "2.IH" [OF s1(1) [symmetric] refl s1(2)] .
  with osf.wr_done [OF s1(1)] os_write_keeps(2) [OF s1(1)] show ?case by (simp add: fun_upd_def)
qed simp

lemma ca_path_new: "filepath_join (dir # parts) = ca_path (new_ca dir key crt opts) parts"
  by (simp add: ca_path_def new_ca_def)

text \<open>What a successful initialisation leaves on disk.\<close>

lemma init_done:
  assumes "castore_init E fs dir name bits opts = (fs', Inr c)"
  obtains opts' key crt crl where
    "validate_options fs opts = Inr opts'" "create_ca E name bits 0 = Inr (key, crt)"
    "c = new_ca dir key crt opts'" "create_crl E crt key [] 0 = Inr crl" "os_fault fs' = os_fault fs"
    "\<And>q. q \<noteq> top_file c ''inventory.txt'' \<Longrightarrow> file_at fs' q =
       ((file_at fs)(top_file c ''ca_crt.pem'' \<mapsto> encode_cert crt,
         top_file c ''ca_key.pem'' \<mapsto> encode_private_key key,
         top_file c ''ca_pub.pem'' \<mapsto> pem_encode ''PUBLIC KEY'' (SpkiDER (priv_public key)),
         top_file c ''serial'' \<mapsto> serial_file 2, top_file c ''ca_crl.pem'' \<mapsto> crl)) q"
proof -
  obtain opts' key crt fs1 fs2 fs3 where
    o: "validate_options fs opts = Inr opts'" and ca: "create_ca E name bits 0 = Inr (key, crt)" and
    c: "c = new_ca dir key crt opts'" and
    mk: "mkdir_list fs (map (\<lambda>sub. filepath_join [dir, sub]) [[], ''signed'', ''requests'']) = (fs1, None)" and
    wl: "write_list fs1 (map (\<lambda>(n, b). (filepath_join [dir, n], b))
      [(''ca_crt.pem'', encode_cert crt), (''ca_key.pem'', encode_private_key key),
       (''ca_pub.pem'', pem_encode ''PUBLIC KEY'' (SpkiDER (priv_public key))),
       (''serial'', text_bytes (''0002'' @ [CHR 0x0A])), (''inventory.txt'', [])]) = (fs2, None)" and
    wc: "write_crl E c fs2 [] = (fs3, None)" and fs': "fs' = append_inventory c fs3 crt"
    using assms unfolding castore_init_def
    by (auto simp: Let_def encode_public_key_def split: sum.splits prod.splits option.splits)
  have cc: "ca_crt c = crt" "ca_key c = key" by (simp_all add: c new_ca_def)
  obtain crl where crl: "create_crl E crt key [] 0 = Inr crl"
    and w: "os_write_file fs2 (top_file c ''ca_crl.pem'') crl = (fs3, None)"
    using wc by (auto simp: write_crl_def cc path_simps split: sum.splits)
  have serial: "text_bytes (''0002'' @ [CHR 0x0A]) = serial_file 2"
    unfolding serial_file_def by (rule arg_cong [where f = text_bytes]) code_simp
  have fp: "filepath_join [dir, n] = top_file c n" if "plain_comp n" for n
    using that by (simp add: ca_path_new [of _ _ key crt opts'] c [symmetric] ca_path_top)
  note off = append_inventory_same [of c fs3 crt, folded fs']
  have "file_at fs3 q = ((file_at fs)(top_file c ''ca_crt.pem'' \<mapsto> encode_cert crt,
         top_file c ''ca_key.pem'' \<mapsto> encode_private_key key,
         top_file c ''ca_pub.pem'' \<mapsto> pem_encode ''PUBLIC KEY'' (SpkiDER (priv_public key)),
         top_file c ''serial'' \<mapsto> serial_file 2, top_file c ''ca_crl.pem'' \<mapsto> crl)) q"
    if "q \<noteq> top_file c ''inventory.txt''" for q
    using osf.wr_done [OF w] write_list_done [OF wl] mkdir_list_file_at [OF mk] that
    using serial by (simp add: fp)
  moreover have "os_fault fs' = os_fault fs"
    using write_list_done [OF wl] mkdir_list_file_at [OF mk] os_write_keeps(2) [OF w] off
    by (simp add: same_off_def)
  ultimately show thesis using that o ca c crl same_off_at [OF off] by simp
qed

lemma init_invariant:
  assumes init: "castore_init E fs dir name bits opts = (fs', Inr c)"
    and req: "\<And>n. valid_certname n \<Longrightarrow> file_at fs (request_path c n) = None"
    and cert: "\<And>sl. slot_ok sl \<Longrightarrow> file_at fs (slot_path c sl) = None"
  shows "cadir_at c 2 fs'"
  using init
proof (rule init_done)
  fix opts' key crt crl
  assume ca: "create_ca E name bits 0 = Inr (key, crt)" and c: "c = new_ca dir key crt opts'"
    and crl: "create_crl E crt key [] 0 = Inr crl"
    and at: "\<And>q. q \<noteq> top_file c ''inventory.txt'' \<Longrightarrow> file_at fs' q =
       ((file_at fs)(top_file c ''ca_crt.pem'' \<mapsto> encode_cert crt,
         top_file c ''ca_key.pem'' \<mapsto> encode_private_key key,
         top_file c ''ca_pub.pem'' \<mapsto> pem_encode ''PUBLIC KEY'' (SpkiDER (priv_public key)),
         top_file c ''serial'' \<mapsto> serial_file 2, top_file c ''ca_crl.pem'' \<mapsto> crl)) q"
  have cc: "ca_crt c = crt" "ca_key c = key" by (simp_all add: c new_ca_def)
  have ok: "ca_ok c" using ca by (simp add: ca_ok_def cc create_ca_Inr)
  have "crl_ok c crl" using crl by (auto simp: create_crl_Inr crl_ok_def cc)
  have none: "file_at fs' (slot_path c sl) = None" if "slot_ok sl" for sl
    using that at cert by simp
  have "serial_now c fs' = Some 2" by (simp add: serial_now_def path_simps at read_serial_file)
  moreover have "requests_ok c fs'" using at req by (simp add: requests_ok_def)
  moreover have "certs_ok c 2 fs'" using none by (simp add: certs_ok_def)
  moreover have "serials_differ c fs'" using none by (simp add: serials_differ_def slot_cert_def)
  moreover have "keys_ok c fs'" by (simp add: keys_ok_def at cc)
  ultimately show ?thesis using ok \<open>crl_ok c crl\<close> at by (simp add: cadir_at_def)
qed

lemma os_read_at: "no_faults s \<Longrightarrow> file_at s p = Some b \<Longrightarrow> os_read_file s p = Inr b"
  by (auto simp: file_at_def os_read_file_def no_faults_def split: if_splits)

text \<open>The cadir can be opened again, with the same key and certificate.\<close>

lemma open_after_init:
  assumes init: "castore_init E fs dir name bits opts = (fs', Inr c)" and nf: "no_faults fs"
    and opts: "validate_options fs' opts2 = Inr o2"
  shows "castore_open fs' dir opts2 = Inr (new_ca dir (ca_key c) (ca_crt c) o2)"
  using init
proof (rule init_done)
  fix opts' key crt crl
  assume ca: "create_ca E name bits 0 = Inr (key, crt)" and c: "c = new_ca dir key crt opts'"
    and ft: "os_fault fs' = os_fault fs"
    and at: "\<And>q. q \<noteq> top_file c ''inventory.txt'' \<Longrightarrow> file_at fs' q =
       ((file_at fs)(top_file c ''ca_crt.pem'' \<mapsto> encode_cert crt,
         top_file c ''ca_key.pem'' \<mapsto> encode_private_key key,
         top_file c ''ca_pub.pem'' \<mapsto> pem_encode ''PUBLIC KEY'' (SpkiDER (priv_public key)),
         top_file c ''serial'' \<mapsto> serial_file 2, top_file c ''ca_crl.pem'' \<mapsto> crl)) q"
  have nf': "no_faults fs'" using nf ft by (simp add: no_faults_def)
  have fp: "filepath_join [dir, n] = top_file c n" if "plain_comp n" for n
    using that by (simp add: ca_path_new [of _ _ key crt opts'] c [symmetric] ca_path_top)
  have wf: "wf_cert crt" using ca by (simp add: create_ca_Inr wf_cert_def)
  have cc: "ca_crt c = crt" "ca_key c = key" by (simp_all add: c new_ca_def)
  have "os_read_file fs' (top_file c ''ca_crt.pem'') = Inr (encode_cert crt)"
    "os_read_file fs' (top_file c ''ca_key.pem'') = Inr (encode_private_key key)"
    using nf' at by (simp_all add: os_read_at)
  then show ?thesis
    using opts wf key_pem.dec_enc [of key]
    by (simp add: castore_open_def fp cc decode_encode_cert res_opt_Some)
qed

end
