(* ===== verification/CastoreSys.thy ===== *)
theory CastoreSys
  imports CastoreInv
begin

text \<open>
  The store as a system: any interleaving of submissions, with their policy runs outside the
  lock, of the operators' calls, restarts of the server and changing faults of the file system.
  Each event is one critical section of \<open>castore.go\<close> (or the policy run between two of them).
  The log and the verdicts are ghost state: what was issued and why, and what the policy said.
\<close>

section \<open>States and events\<close>

datatype job =
    ToStore autosign string bytes "policy_input option"
  | Asking autosign string bytes policy_input
  | Approved string bytes

datatype cause = ByOperator | ByBlanket | ByPolicy bytes | ByServer

record issue =
  is_slot :: slot
  is_cert :: certificate
  is_cause :: cause

record verdict =
  vd_name :: string
  vd_csr :: bytes
  vd_input :: policy_input
  vd_outcome :: policy_outcome

record sys =
  sy_ca :: ca
  sy_fs :: "bytes os"
  sy_jobs :: "job list"
  sy_verdicts :: "verdict list"
  sy_log :: "issue list"

datatype event =
    EvBegin string bytes string
  | EvStore env nat
  | EvPolicy runner nat
  | EvFinish env nat
  | EvSign env string sign_opts
  | EvRevoke env string
  | EvDelete string
  | EvClean string
  | EvAutosign bool
  | EvTls env "string list"
  | EvFault "fs_op \<Rightarrow> path \<Rightarrow> string option"
  | EvRestart store_options

definition drop_job :: "nat \<Rightarrow> job list \<Rightarrow> job list" where
  "drop_job k js = take k js @ drop (Suc k) js"

definition job_at :: "job list \<Rightarrow> nat \<Rightarrow> job option" where
  "job_at js k = (if k < length js then Some (js ! k) else None)"

text \<open>The certificate in the slot is logged when it was not there before.\<close>

definition new_issue :: "ca \<Rightarrow> bytes os \<Rightarrow> bytes os \<Rightarrow> slot \<Rightarrow> cause \<Rightarrow> issue list" where
  "new_issue c fs fs' sl why = (case slot_cert c fs' sl of
       None \<Rightarrow> []
     | Some crt \<Rightarrow> if slot_cert c fs sl = Some crt then []
                   else [\<lparr>is_slot = sl, is_cert = crt, is_cause = why\<rparr>])"

definition commit :: "slot \<Rightarrow> cause \<Rightarrow> bytes os \<Rightarrow> job list \<Rightarrow> sys \<Rightarrow> sys" where
  "commit sl why fs' js s = s\<lparr>sy_fs := fs', sy_jobs := js,
     sy_log := sy_log s @ new_issue (sy_ca s) (sy_fs s) fs' sl why\<rparr>"

text \<open>One event; an event that names no job in the right phase does not happen.\<close>

fun sys_exec :: "event \<Rightarrow> sys \<Rightarrow> sys option" where
  "sys_exec (EvBegin n pem ip) s =
     (let a = autosign_snapshot (sy_ca s) in
      case submit_check a n pem ip of
        Inl _ \<Rightarrow> Some s
      | Inr inp \<Rightarrow> Some (s\<lparr>sy_jobs := sy_jobs s @ [ToStore a n pem inp]\<rparr>))"
| "sys_exec (EvStore E k) s = (case job_at (sy_jobs s) k of
       Some (ToStore a n pem inp) \<Rightarrow>
         (let (fs', r) = submit_store E (sy_ca s) a (sy_fs s) n pem;
              js = (case (r, inp) of (AskPolicy, Some i) \<Rightarrow> (sy_jobs s)[k := Asking a n pem i]
                    | _ \<Rightarrow> drop_job k (sy_jobs s))
          in Some (commit (Host n) ByBlanket fs' js s))
     | _ \<Rightarrow> None)"
| "sys_exec (EvPolicy run k) s = (case job_at (sy_jobs s) k of
       Some (Asking a n pem i) \<Rightarrow>
         (let out = pr_outcome (run_autosign_policy run (as_exe a) (as_timeout a) i);
              js = (if out \<noteq> PolicyApproved then drop_job k (sy_jobs s)
                    else (sy_jobs s)[k := Approved n pem])
          in Some (s\<lparr>sy_jobs := js, sy_verdicts := sy_verdicts s @
               [\<lparr>vd_name = n, vd_csr = pem, vd_input = i, vd_outcome = out\<rparr>]\<rparr>))
     | _ \<Rightarrow> None)"
| "sys_exec (EvFinish E k) s = (case job_at (sy_jobs s) k of
       Some (Approved n pem) \<Rightarrow>
         Some (commit (Host n) (ByPolicy pem) (fst (submit_finish E (sy_ca s) (sy_fs s) n pem))
                 (drop_job k (sy_jobs s)) s)
     | _ \<Rightarrow> None)"
| "sys_exec (EvSign E n opts) s =
     Some (commit (Host n) ByOperator (fst (ca_sign E (sy_ca s) (sy_fs s) n opts)) (sy_jobs s) s)"
| "sys_exec (EvRevoke E n) s =
     Some (commit Server ByServer (fst (ca_revoke E (sy_ca s) (sy_fs s) n)) (sy_jobs s) s)"
| "sys_exec (EvDelete n) s =
     Some (commit (Host n) ByOperator (fst (delete_csr (sy_ca s) (sy_fs s) n)) (sy_jobs s) s)"
| "sys_exec (EvClean n) s =
     Some (commit (Host n) ByOperator (fst (ca_clean (sy_ca s) (sy_fs s) n)) (sy_jobs s) s)"
| "sys_exec (EvAutosign v) s = Some (s\<lparr>sy_ca := set_autosign_all (sy_ca s) v\<rparr>)"
| "sys_exec (EvTls E names) s =
     Some (commit Server ByServer (fst (server_tls_cert E (sy_ca s) (sy_fs s) names)) (sy_jobs s) s)"
| "sys_exec (EvFault f) s = Some (s\<lparr>sy_fs := (sy_fs s)\<lparr>os_fault := f\<rparr>\<rparr>)"
| "sys_exec (EvRestart opts) s = (case castore_open (sy_fs s) (ca_dir (sy_ca s)) opts of
       Inl _ \<Rightarrow> None
     | Inr c \<Rightarrow> Some (s\<lparr>sy_ca := c, sy_jobs := []\<rparr>))"

text \<open>
  An operator may hand \<open>Sign\<close> extensions of his own. The programs of the repository never do; a Go
  caller can, and one that is not a Puppet extension replaces what the template says (basic
  constraints, key usage, names). The steps of the system are the events in which such extensions,
  if any, are Puppet's and not critical.
\<close>

definition puppet_event :: "event \<Rightarrow> bool" where
  "puppet_event ev = (case ev of EvSign E n opts \<Rightarrow> puppet_exts (so_extra_exts opts) | _ \<Rightarrow> True)"

inductive sys_step :: "sys \<Rightarrow> sys \<Rightarrow> bool" where
  sys_stepI: "sys_exec ev s = Some t \<Longrightarrow> puppet_event ev \<Longrightarrow> sys_step s t"

inductive_cases sys_stepE: "sys_step s t"

inductive sys_reach :: "sys \<Rightarrow> sys \<Rightarrow> bool" where
  reach_refl: "sys_reach s s"
| reach_step: "sys_reach s t \<Longrightarrow> sys_step t u \<Longrightarrow> sys_reach s u"

text \<open>A run of given events, for concrete traces.\<close>

fun sys_run :: "event list \<Rightarrow> sys \<Rightarrow> sys option" where
  "sys_run [] s = Some s"
| "sys_run (ev # evs) s = Option.bind (sys_exec ev s) (sys_run evs)"

definition sys_start :: "ca \<Rightarrow> bytes os \<Rightarrow> sys" where
  "sys_start c fs = \<lparr>sy_ca = c, sy_fs = fs, sy_jobs = [], sy_verdicts = [], sy_log = []\<rparr>"


section \<open>The invariant of the system\<close>

text \<open>The policy input of a request, from some address.\<close>

definition input_for :: "string \<Rightarrow> bytes \<Rightarrow> policy_input \<Rightarrow> bool" where
  "input_for n pem i \<longleftrightarrow> (\<exists>req ip. decode_csr pem = Inr req \<and> build_policy_input n req ip = Inr i)"

fun job_ok :: "verdict set \<Rightarrow> job \<Rightarrow> bool" where
  "job_ok V (ToStore a n pem inp) \<longleftrightarrow> valid_certname n \<and> req_ok n pem \<and>
     (\<forall>i. inp = Some i \<longrightarrow> input_for n pem i)"
| "job_ok V (Asking a n pem i) \<longleftrightarrow> valid_certname n \<and> req_ok n pem \<and> input_for n pem i"
| "job_ok V (Approved n pem) \<longleftrightarrow> valid_certname n \<and> req_ok n pem \<and>
     (\<exists>v \<in> V. vd_name v = n \<and> vd_csr v = pem \<and> vd_outcome v = PolicyApproved \<and> input_for n pem (vd_input v))"

text \<open>A certificate issued on a policy's word is for the key and name of the request it approved.\<close>

definition policy_backed :: "verdict set \<Rightarrow> issue \<Rightarrow> bool" where
  "policy_backed V i \<longleftrightarrow> (\<forall>pem. is_cause i = ByPolicy pem \<longrightarrow>
     (\<exists>n req v. is_slot i = Host n \<and> decode_csr pem = Inr req \<and> csr_check_signature req \<and>
        nm_cn (csr_subject req) = n \<and> crt_pub (is_cert i) = csr_pub req \<and>
        v \<in> V \<and> vd_name v = n \<and> vd_csr v = pem \<and> vd_outcome v = PolicyApproved \<and>
        input_for n pem (vd_input v)))"

definition log_ok :: "ca \<Rightarrow> int \<Rightarrow> bytes os \<Rightarrow> issue list \<Rightarrow> bool" where
  "log_ok c k fs log \<longleftrightarrow> sorted_wrt (<) (map (\<lambda>i. crt_serial (is_cert i)) log) \<and>
     (\<forall>i \<in> set log. slot_ok (is_slot i) \<and> issued_by c (is_cert i) \<and> slot_name (is_slot i) (is_cert i) \<and>
        2 \<le> crt_serial (is_cert i) \<and> crt_serial (is_cert i) < k) \<and>
     (\<forall>sl crt. slot_ok sl \<longrightarrow> slot_cert c fs sl = Some crt \<longrightarrow>
        (\<exists>i \<in> set log. is_slot i = sl \<and> is_cert i = crt))"

definition sys_inv :: "sys \<Rightarrow> bool" where
  "sys_inv s \<longleftrightarrow> (\<exists>k. cadir_at (sy_ca s) k (sy_fs s) \<and> log_ok (sy_ca s) k (sy_fs s) (sy_log s)) \<and>
     list_all (job_ok (set (sy_verdicts s))) (sy_jobs s) \<and>
     list_all (policy_backed (set (sy_verdicts s))) (sy_log s)"

lemma job_ok_mono: "job_ok V j \<Longrightarrow> V \<subseteq> W \<Longrightarrow> job_ok W j"
  by (cases j) auto

lemma policy_backed_mono: "policy_backed V i \<Longrightarrow> V \<subseteq> W \<Longrightarrow> policy_backed W i"
  unfolding policy_backed_def by blast

lemma job_at_Some: "job_at js k = Some j \<Longrightarrow> k < length js \<and> j = js ! k \<and> j \<in> set js"
  by (auto simp: job_at_def split: if_splits)

lemma set_drop_job: "set (drop_job k js) \<subseteq> set js"
  by (auto simp: drop_job_def dest: in_set_takeD in_set_dropD)

lemma list_all_update: "list_all P js \<Longrightarrow> P j \<Longrightarrow> list_all P (js[k := j])"
  by (auto simp: list_all_iff dest: set_update_subset_insert [THEN subsetD])

lemma list_all_drop_job: "list_all P js \<Longrightarrow> list_all P (drop_job k js)"
  using set_drop_job by (fastforce simp: list_all_iff)

lemma new_issue_mem:
  "i \<in> set (new_issue c fs fs' sl why) \<Longrightarrow> is_slot i = sl \<and> is_cause i = why \<and>
     slot_cert c fs' sl = Some (is_cert i) \<and> slot_cert c fs sl \<noteq> Some (is_cert i)"
  by (auto simp: new_issue_def split: option.splits if_splits)

text \<open>Any step of the store keeps the log.\<close>

lemma log_ok_step:
  assumes log: "log_ok c k fs log" and st: "ok_step c sl k fs k' fs'" and sl: "slot_ok sl"
  shows "log_ok c k' fs' (log @ new_issue c fs fs' sl why)"
proof -
  let ?new = "new_issue c fs fs' sl why"
  have inv: "cadir_at c k' fs'" "k \<le> k'" using st by (auto simp: ok_step_def)
  then have certs: "certs_ok c k' fs'" by (simp add: cadir_at_def)
  have fresh: "crt_serial (is_cert i) = k \<and> k' = k + 1" if "i \<in> set ?new" for i
    using new_issue_mem [OF that] st by (auto simp: ok_step_def)
  have old: "crt_serial (is_cert i) < k" if "i \<in> set log" for i using log that by (simp add: log_ok_def)
  have one: "length ?new \<le> 1" by (auto simp: new_issue_def split: option.splits)
  have "sorted_wrt (<) (map (\<lambda>i. crt_serial (is_cert i)) (log @ ?new))"
    using log old fresh one by (cases ?new) (auto simp: log_ok_def sorted_wrt_append)
  moreover have "slot_ok (is_slot i) \<and> issued_by c (is_cert i) \<and> slot_name (is_slot i) (is_cert i) \<and>
        2 \<le> crt_serial (is_cert i) \<and> crt_serial (is_cert i) < k'" if "i \<in> set (log @ ?new)" for i
  proof (cases "i \<in> set log")
    case True
    with log inv(2) show ?thesis by (fastforce simp: log_ok_def)
  next
    case False
    with that have "i \<in> set ?new" by simp
    with new_issue_mem [OF this] certs_ok_slot [OF certs sl] sl show ?thesis by simp
  qed
  moreover have "\<exists>i \<in> set (log @ ?new). is_slot i = sk \<and> is_cert i = crt"
    if sk: "slot_ok sk" "slot_cert c fs' sk = Some crt" for sk crt
  proof (cases "slot_cert c fs sk = Some crt")
    case True
    with log sk(1) have "\<exists>i \<in> set log. is_slot i = sk \<and> is_cert i = crt" by (simp add: log_ok_def)
    then show ?thesis by auto
  next
    case False
    with st sk have "sk = sl" by (auto simp: ok_step_def)
    with False sk(2) show ?thesis by (simp add: new_issue_def)
  qed
  ultimately show ?thesis by (simp add: log_ok_def)
qed

lemma commit_inv:
  assumes inv: "sys_inv s" and sl: "slot_ok sl"
    and step: "\<And>k. cadir_at (sy_ca s) k (sy_fs s) \<Longrightarrow> \<exists>k'. ok_step (sy_ca s) sl k (sy_fs s) k' fs'"
    and jobs: "list_all (job_ok (set (sy_verdicts s))) js"
    and pol: "\<And>i. i \<in> set (new_issue (sy_ca s) (sy_fs s) fs' sl why) \<Longrightarrow> policy_backed (set (sy_verdicts s)) i"
  shows "sys_inv (commit sl why fs' js s)"
proof -
  obtain k where k: "cadir_at (sy_ca s) k (sy_fs s)" "log_ok (sy_ca s) k (sy_fs s) (sy_log s)"
    using inv by (auto simp: sys_inv_def)
  obtain k' where k': "ok_step (sy_ca s) sl k (sy_fs s) k' fs'" using step [OF k(1)] by blast
  then have "cadir_at (sy_ca s) k' fs'" by (simp add: ok_step_def)
  with log_ok_step [OF k(2) k' sl] inv jobs pol show ?thesis
    by (auto simp: sys_inv_def commit_def list_all_iff)
qed

lemma not_policy_backed: "(\<And>pem. why \<noteq> ByPolicy pem) \<Longrightarrow>
    i \<in> set (new_issue c fs fs' sl why) \<Longrightarrow> policy_backed V i"
  using new_issue_mem [of i c fs fs' sl why] by (simp add: policy_backed_def)


lemma commit_same: "sys_inv s \<Longrightarrow> list_all (job_ok (set (sy_verdicts s))) js \<Longrightarrow>
    sys_inv (commit sl why (sy_fs s) js s)"
  by (simp add: sys_inv_def commit_def new_issue_def split: option.splits)

text \<open>A certificate that the second critical section issues is for the approved request.\<close>

lemma sign_locked_new:
  assumes sg: "sign_locked E c fs n opts = (fs', e)" and n: "valid_certname n"
    and rd: "file_at fs (request_path c n) = Some pem" and ext: "puppet_exts (so_extra_exts opts)"
    and new: "slot_cert c fs' (Host n) = Some crt" "slot_cert c fs (Host n) \<noteq> Some crt"
  shows "\<exists>req. decode_csr pem = Inr req \<and> csr_check_signature req \<and>
    nm_cn (crt_subject crt) = nm_cn (csr_subject req) \<and> crt_pub crt = csr_pub req"
proof -
  obtain r where r: "sign_leaf E c fs n opts = (fs', r)"
    using sg by (cases "sign_leaf E c fs n opts") (simp add: sign_locked_def err_of_def)
  show ?thesis
  proof (cases r)
    case (Inl e')
    from same_off_at [OF sign_leaf_fail(1) [OF r [unfolded Inl]], of "signed_path c n"] n
    have "slot_cert c fs' (Host n) = slot_cert c fs (Host n)" by (simp add: slot_cert_def)
    with new show ?thesis by simp
  next
    case (Inr leaf)
    show ?thesis
    proof (rule sign_leaf_done [OF r [unfolded Inr] n])
      fix csr_pem req s
      assume a: "file_at fs (request_path c n) = Some csr_pem" "decode_csr csr_pem = Inr req"
        "sign_csr E req (ca_crt c) (ca_key c)
          (opts\<lparr>so_serial := Some s, so_extra_exts := so_extra_exts opts @ allowed_from_csr (csr_exts req)\<rparr>)
         = Inr leaf" "file_at fs' (signed_path c n) = Some (encode_cert leaf)"
      have "puppet_exts (so_extra_exts opts @ allowed_from_csr (csr_exts req))"
        using ext puppet_allowed by (simp add: puppet_exts_def)
      note iss = sign_csr_issued [OF a(3) this]
      have "crt = leaf"
        using new(1) a(4) iss(1) by (simp add: slot_cert_encoded issued_by_def)
      with iss a rd show ?thesis by auto
    qed
  qed
qed

lemma autosign_opts_exts [simp]: "puppet_exts (so_extra_exts (autosign_opts c))"
  by (simp add: autosign_opts_def default_sign_opts_def puppet_exts_def)

lemma submit_finish_new:
  assumes fin: "submit_finish E c fs n pem = (fs', r)" and n: "valid_certname n"
    and new: "slot_cert c fs' (Host n) = Some crt" "slot_cert c fs (Host n) \<noteq> Some crt"
  shows "\<exists>req. decode_csr pem = Inr req \<and> csr_check_signature req \<and> crt_pub crt = csr_pub req"
proof -
  have "fs' \<noteq> fs" using new by auto
  then obtain e where "os_read_file fs (request_path c n) = Inr pem"
    and sg: "sign_locked E c fs n (autosign_opts c) = (fs', e)"
    using fin by (auto simp: submit_finish_def split: if_splits sum.splits option.splits prod.splits)
  from osf.rd_found [OF this(1)] sign_locked_new [OF sg n _ _ new] show ?thesis by auto
qed

lemma open_same_ca:
  assumes "castore_open fs (ca_dir c) opts = Inr d" and "keys_ok c fs" and "ca_ok c"
  shows "same_ca c d"
proof -
  obtain o2 b1 b2 crt key where r: "os_read_file fs (filepath_join [ca_dir c, ''ca_crt.pem'']) = Inr b1"
    "os_read_file fs (filepath_join [ca_dir c, ''ca_key.pem'']) = Inr b2"
    "decode_cert b1 = Inr crt" "decode_private_key b2 = Inr key" "d = new_ca (ca_dir c) key crt o2"
    using assms(1) by (auto simp: castore_open_def split: sum.splits)
  have fp: "filepath_join [ca_dir c, t] = top_file c t" if "plain_comp t" for t
    using that by (simp add: top_file_def path_simps)
  have "b1 = encode_cert (ca_crt c)" "b2 = encode_private_key (ca_key c)"
    using osf.rd_found [OF r(1)] osf.rd_found [OF r(2)] assms(2) by (simp_all add: fp keys_ok_def)
  moreover have "wf_cert (ca_crt c)" using assms(3) by (simp add: ca_ok_def wf_cert_def)
  ultimately have "crt = ca_crt c" "key = ca_key c"
    using r(3,4) decode_encode_cert key_pem.dec_enc [of "ca_key c"] by (simp_all add: res_opt_Some)
  with r(5) show ?thesis by (simp add: same_ca_def new_ca_def)
qed

lemma sys_inv_same_ca:
  assumes "sys_inv s" and "same_ca (sy_ca s) c" and "list_all (job_ok (set (sy_verdicts s))) js"
  shows "sys_inv (s\<lparr>sy_ca := c, sy_jobs := js\<rparr>)"
  using assms
  by (simp add: sys_inv_def log_ok_def cadir_at_same_ca same_ca_issued same_ca_slot_cert)

lemma sys_inv_jobs: "sys_inv s \<Longrightarrow> list_all (job_ok (set (sy_verdicts s))) js \<Longrightarrow> sys_inv (s\<lparr>sy_jobs := js\<rparr>)"
  by (simp add: sys_inv_def)

lemma file_at_fault [simp]: "file_at (fs\<lparr>os_fault := f\<rparr>) = file_at fs"
  by (auto simp: file_at_def is_dir_def fun_eq_iff)

lemma sys_inv_fault: "sys_inv s \<Longrightarrow> sys_inv (s\<lparr>sy_fs := (sy_fs s)\<lparr>os_fault := f\<rparr>\<rparr>)"
  by (simp add: sys_inv_def cadir_at_fault log_ok_def slot_cert_def)

text \<open>A request that passes the checks, with its policy input, may be queued.\<close>

lemma submit_check_job:
  assumes "submit_check a n pem ip = Inr inp"
  shows "job_ok V (ToStore a n pem inp)"
proof -
  have "input_for n pem i" if "inp = Some i" for i
    using assms that by (auto simp: submit_check_def input_for_def split: if_splits sum.splits)
  with submit_check_req_ok [OF assms] show ?thesis by simp
qed


section \<open>Every event keeps it\<close>

lemma host_commit_inv:
  assumes "sys_inv s" and "valid_certname n"
    and "\<And>k. cadir_at (sy_ca s) k (sy_fs s) \<Longrightarrow> \<exists>k'. ok_step (sy_ca s) (Host n) k (sy_fs s) k' fs'"
    and "list_all (job_ok (set (sy_verdicts s))) js" and "why = ByOperator \<or> why = ByBlanket"
  shows "sys_inv (commit (Host n) why fs' js s)"
  by (rule commit_inv [OF assms(1) _ assms(3,4)])
    (use assms(2,5) not_policy_backed [of why] in \<open>auto\<close>)

lemma jobs_okD:
  assumes "sys_inv s"
  shows "list_all (job_ok (set (sy_verdicts s))) (sy_jobs s)"
    "job_at (sy_jobs s) k = Some j \<Longrightarrow> job_ok (set (sy_verdicts s)) j"
  using assms by (auto simp: sys_inv_def list_all_iff dest: job_at_Some)

text \<open>The operations of the API refuse an invalid name before they touch the store.\<close>

lemma named_commit_inv:
  assumes "sys_inv s" and "\<not> valid_certname n \<Longrightarrow> fs' = sy_fs s"
    and "\<And>k. cadir_at (sy_ca s) k (sy_fs s) \<Longrightarrow> \<exists>k'. ok_step (sy_ca s) (Host n) k (sy_fs s) k' fs'"
  shows "sys_inv (commit (Host n) ByOperator fs' (sy_jobs s) s)"
proof (cases "valid_certname n")
  case True
  from host_commit_inv [OF assms(1) this assms(3) jobs_okD(1) [OF assms(1)]] show ?thesis by simp
next
  case False
  with assms(1,2) jobs_okD(1) [OF assms(1)] show ?thesis by (simp add: commit_same)
qed

lemma exec_store_inv:
  assumes inv: "sys_inv s" and "sys_exec (EvStore E k) s = Some t"
  shows "sys_inv t"
proof -
  from assms(2) obtain a n pem inp where j: "job_at (sy_jobs s) k = Some (ToStore a n pem inp)"
    by (auto split: option.splits job.splits)
  have ok: "valid_certname n" "req_ok n pem" "\<And>i. inp = Some i \<Longrightarrow> input_for n pem i"
    using jobs_okD(2) [OF inv j] by auto
  obtain fs' r where st: "submit_store E (sy_ca s) a (sy_fs s) n pem = (fs', r)" by fastforce
  define js where "js = (case (r, inp) of (AskPolicy, Some i) \<Rightarrow> (sy_jobs s)[k := Asking a n pem i]
                    | _ \<Rightarrow> drop_job k (sy_jobs s))"
  have t: "t = commit (Host n) ByBlanket fs' js s"
    using assms(2) j st by (simp add: js_def)
  have "list_all (job_ok (set (sy_verdicts s))) js"
    using jobs_okD(1) [OF inv] ok unfolding js_def
    by (auto split: store_outcome.splits option.splits intro!: list_all_update list_all_drop_job)
  then show ?thesis
    unfolding t by (intro host_commit_inv [OF inv ok(1)] submit_store_ok [OF _ ok(1,2) st]) auto
qed

lemma exec_policy_inv:
  assumes inv: "sys_inv s" and "sys_exec (EvPolicy run k) s = Some t"
  shows "sys_inv t"
proof -
  from assms(2) obtain a n pem i where j: "job_at (sy_jobs s) k = Some (Asking a n pem i)"
    by (auto split: option.splits job.splits)
  define out where "out = pr_outcome (run_autosign_policy run (as_exe a) (as_timeout a) i)"
  define v where "v = \<lparr>vd_name = n, vd_csr = pem, vd_input = i, vd_outcome = out\<rparr>"
  define js where "js = (if out \<noteq> PolicyApproved then drop_job k (sy_jobs s)
                    else (sy_jobs s)[k := Approved n pem])"
  have t: "t = s\<lparr>sy_jobs := js, sy_verdicts := sy_verdicts s @ [v]\<rparr>"
    using assms(2) j by (auto simp: js_def out_def v_def Let_def)
  let ?V = "set (sy_verdicts s)" and ?W = "set (sy_verdicts s @ [v])"
  have "list_all (job_ok ?W) (sy_jobs s)" "list_all (policy_backed ?W) (sy_log s)"
    using inv job_ok_mono [of ?V _ ?W] policy_backed_mono [of ?V _ ?W]
    by (auto simp: sys_inv_def list_all_iff)
  moreover have "out = PolicyApproved \<Longrightarrow> job_ok ?W (Approved n pem)"
    using jobs_okD(2) [OF inv j] by (auto simp: v_def)
  ultimately show ?thesis
    using inv unfolding t by (auto simp: sys_inv_def js_def intro!: list_all_update list_all_drop_job)
qed

lemma exec_finish_inv:
  assumes inv: "sys_inv s" and "sys_exec (EvFinish E k) s = Some t"
  shows "sys_inv t"
proof -
  from assms(2) obtain n pem where j: "job_at (sy_jobs s) k = Some (Approved n pem)"
    by (auto split: option.splits job.splits)
  obtain fs' r where fin: "submit_finish E (sy_ca s) (sy_fs s) n pem = (fs', r)" by fastforce
  have t: "t = commit (Host n) (ByPolicy pem) fs' (drop_job k (sy_jobs s)) s"
    using assms(2) j fin by simp
  obtain v where ok: "valid_certname n" "req_ok n pem" and v: "v \<in> set (sy_verdicts s)" "vd_name v = n"
    "vd_csr v = pem" "vd_outcome v = PolicyApproved" "input_for n pem (vd_input v)"
    using jobs_okD(2) [OF inv j] by auto
  show ?thesis
    unfolding t
  proof (rule commit_inv [OF inv])
    fix i assume "i \<in> set (new_issue (sy_ca s) (sy_fs s) fs' (Host n) (ByPolicy pem))"
    note i = new_issue_mem [OF this]
    then obtain req where "decode_csr pem = Inr req" "csr_check_signature req" "crt_pub (is_cert i) = csr_pub req"
      using submit_finish_new [OF fin ok(1)] by auto
    with i v ok show "policy_backed (set (sy_verdicts s)) i"
      by (auto simp: policy_backed_def req_ok_def)
  qed (use ok(1) submit_finish_ok [OF _ ok(1) fin] jobs_okD(1) [OF inv] in \<open>auto intro: list_all_drop_job\<close>)
qed

lemma sys_exec_inv:
  assumes inv: "sys_inv s" and ex: "sys_exec ev s = Some t" and pe: "puppet_event ev"
  shows "sys_inv t"
proof (cases ev)
  case (EvBegin n pem ip)
  with ex inv jobs_okD(1) [OF inv] submit_check_job [of _ n pem ip] show ?thesis
    by (auto simp: Let_def split: sum.splits intro!: sys_inv_jobs simp del: job_ok.simps)
next
  case (EvStore E k)
  with exec_store_inv [OF inv] ex show ?thesis by blast
next
  case (EvPolicy run k)
  with exec_policy_inv [OF inv] ex show ?thesis by blast
next
  case (EvFinish E k)
  with exec_finish_inv [OF inv] ex show ?thesis by blast
next
  case (EvSign E n opts)
  obtain fs' e where sg: "ca_sign E (sy_ca s) (sy_fs s) n opts = (fs', e)" by fastforce
  have t: "t = commit (Host n) ByOperator fs' (sy_jobs s) s" using EvSign ex sg by auto
  have "puppet_exts (so_extra_exts opts)" using pe EvSign by (simp add: puppet_event_def)
  with ca_sign_ok [OF _ _ sg] show ?thesis
    unfolding t using sg by (intro named_commit_inv [OF inv]) (auto simp: ca_sign_def)
next
  case (EvRevoke E n)
  obtain fs' e where rv: "ca_revoke E (sy_ca s) (sy_fs s) n = (fs', e)" by fastforce
  have t: "t = commit Server ByServer fs' (sy_jobs s) s" using EvRevoke ex rv by auto
  show ?thesis
    unfolding t by (rule commit_inv [OF inv])
      (use ca_revoke_ok [OF _ rv] jobs_okD(1) [OF inv] not_policy_backed [of ByServer] in auto)
next
  case (EvDelete n)
  obtain fs' e where dl: "delete_csr (sy_ca s) (sy_fs s) n = (fs', e)" by fastforce
  have t: "t = commit (Host n) ByOperator fs' (sy_jobs s) s" using EvDelete ex dl by auto
  show ?thesis
    unfolding t using delete_csr_ok [OF _ dl] dl
    by (intro named_commit_inv [OF inv]) (auto simp: delete_csr_def)
next
  case (EvClean n)
  obtain fs' e where cl: "ca_clean (sy_ca s) (sy_fs s) n = (fs', e)" by fastforce
  have t: "t = commit (Host n) ByOperator fs' (sy_jobs s) s" using EvClean ex cl by auto
  show ?thesis
    unfolding t using ca_clean_ok [OF _ cl] cl
    by (intro named_commit_inv [OF inv]) (auto simp: ca_clean_def)
next
  case (EvAutosign v)
  have "same_ca (sy_ca s) (set_autosign_all (sy_ca s) v)" by (simp add: same_ca_def set_autosign_all_def)
  from sys_inv_same_ca [OF inv this jobs_okD(1) [OF inv]] EvAutosign ex show ?thesis by auto
next
  case (EvTls E names)
  obtain fs' r where tl: "server_tls_cert E (sy_ca s) (sy_fs s) names = (fs', r)" by fastforce
  have t: "t = commit Server ByServer fs' (sy_jobs s) s" using EvTls ex tl by auto
  show ?thesis
    unfolding t by (rule commit_inv [OF inv])
      (use server_tls_ok [OF _ tl] jobs_okD(1) [OF inv] not_policy_backed [of ByServer] in auto)
next
  case (EvFault f)
  with sys_inv_fault [OF inv] ex show ?thesis by auto
next
  case (EvRestart opts)
  then obtain c where c: "castore_open (sy_fs s) (ca_dir (sy_ca s)) opts = Inr c"
    "t = s\<lparr>sy_ca := c, sy_jobs := []\<rparr>" using ex by (auto split: sum.splits)
  obtain k where "cadir_at (sy_ca s) k (sy_fs s)" using inv by (auto simp: sys_inv_def)
  then have "same_ca (sy_ca s) c" by (intro open_same_ca [OF c(1)]) (auto simp: cadir_at_def)
  from sys_inv_same_ca [OF inv this, of "[]"] c(2) show ?thesis by simp
qed


section \<open>Reachable states\<close>

lemma reach_rtranclp: "sys_reach s t \<longleftrightarrow> sys_step\<^sup>*\<^sup>* s t"
proof
  assume "sys_reach s t" then show "sys_step\<^sup>*\<^sup>* s t"
    by induction (auto intro: rtranclp.rtrancl_into_rtrancl)
next
  assume "sys_step\<^sup>*\<^sup>* s t" then show "sys_reach s t"
    by (induction rule: rtranclp_induct) (auto intro: sys_reach.intros)
qed

interpretation store: preserved sys_step sys_inv
  by unfold_locales (auto elim!: sys_stepE intro: sys_exec_inv)

lemma sys_exec_log: "sys_exec ev s = Some t \<Longrightarrow> prefix (sy_log s) (sy_log t)"
  by (cases "(ev, s)" rule: sys_exec.cases)
    (auto simp: commit_def Let_def split: sum.splits option.splits job.splits if_splits prod.splits)

lemma sys_exec_verdicts: "sys_exec ev s = Some t \<Longrightarrow> prefix (sy_verdicts s) (sy_verdicts t)"
  by (cases "(ev, s)" rule: sys_exec.cases)
    (auto simp: commit_def Let_def split: sum.splits option.splits job.splits if_splits prod.splits)

interpretation issued: growing sys_step sy_log
  by unfold_locales (auto elim!: sys_stepE intro: sys_exec_log)

interpretation verdicts: growing sys_step sy_verdicts
  by unfold_locales (auto elim!: sys_stepE intro: sys_exec_verdicts)

lemma reach_inv: "sys_reach s t \<Longrightarrow> sys_inv s \<Longrightarrow> sys_inv t"
  by (simp add: reach_rtranclp store.steps_inv)

lemma run_reach: "sys_run evs s = Some t \<Longrightarrow> list_all puppet_event evs \<Longrightarrow> sys_reach s t"
proof -
  have "sys_reach s t \<Longrightarrow> sys_run evs t = Some u \<Longrightarrow> list_all puppet_event evs \<Longrightarrow> sys_reach s u" for t u
  proof (induction evs arbitrary: t)
    case (Cons ev evs)
    then obtain x where "sys_exec ev t = Some x" "puppet_event ev" "sys_run evs x = Some u" "list_all puppet_event evs"
      by (auto split: Option.bind_splits)
    with Cons show ?case using reach_step sys_stepI by blast
  qed simp
  then show "sys_run evs s = Some t \<Longrightarrow> list_all puppet_event evs \<Longrightarrow> sys_reach s t" by (blast intro: reach_refl)
qed

text \<open>A cadir that just was initialised and holds no certificate yet is a good start.\<close>

lemma start_inv:
  assumes "cadir_at c k fs" and "\<And>sl. slot_ok sl \<Longrightarrow> slot_cert c fs sl = None"
  shows "sys_inv (sys_start c fs)"
  using assms by (auto simp: sys_inv_def sys_start_def log_ok_def)

lemma init_start_inv:
  assumes "castore_init E fs dir name bits opts = (fs', Inr c)"
    and "\<And>n. valid_certname n \<Longrightarrow> file_at fs (request_path c n) = None"
    and "\<And>sl. slot_ok sl \<Longrightarrow> file_at fs (slot_path c sl) = None"
  shows "sys_inv (sys_start c fs')"
proof (rule start_inv [OF init_invariant [OF assms]])
  fix sl assume sl: "slot_ok sl"
  have "file_at fs' (slot_path c sl) = None"
    using assms(1) by (rule init_done) (use sl assms(3) in simp)
  then show "slot_cert c fs' sl = None" by (simp add: slot_cert_def)
qed

end
