(* ===== verification/StoreSpec.thy ===== *)
theory StoreSpec
  imports CastoreSys
begin

text \<open>
  What the store promises, as a data base of requests, certificates, the next serial and the
  revoked serials, and the refinement: in a directory where no file call fails, every operation
  of \<open>castore.go\<close> is the data base operation under the abstraction that reads the files.
\<close>

section \<open>The data base\<close>

record db =
  db_req :: "string \<rightharpoonup> bytes"
  db_cert :: "string \<rightharpoonup> certificate"
  db_next :: int
  db_revoked :: "int list"

text \<open>Signing: the request goes, its certificate comes, a number is used up in any case.\<close>

definition db_sign :: "env \<Rightarrow> ca \<Rightarrow> string \<Rightarrow> sign_opts \<Rightarrow> db \<Rightarrow> db \<times> go_error option" where
  "db_sign E c n opts d = (case db_req d n of
       None \<Rightarrow> (d, Some ENotFound)
     | Some pem \<Rightarrow> (case decode_csr pem of
           Inl e \<Rightarrow> (d, Some e)
         | Inr req \<Rightarrow>
             (let d1 = d\<lparr>db_next := db_next d + 1\<rparr> in
              case sign_csr E req (ca_crt c) (ca_key c)
                (opts\<lparr>so_serial := Some (db_next d),
                      so_extra_exts := so_extra_exts opts @ allowed_from_csr (csr_exts req)\<rparr>) of
                Inl e \<Rightarrow> (d1, Some e)
              | Inr leaf \<Rightarrow> (d1\<lparr>db_cert := (db_cert d)(n \<mapsto> leaf), db_req := (db_req d)(n := None)\<rparr>, None))))"

definition db_revoke :: "string \<Rightarrow> db \<Rightarrow> db \<times> go_error option" where
  "db_revoke n d = (case db_cert d n of
       None \<Rightarrow> (d, Some ENotFound)
     | Some crt \<Rightarrow>
         if crt_serial crt \<in> set (db_revoked d) then (d, None)
         else (d\<lparr>db_revoked := db_revoked d @ [crt_serial crt]\<rparr>, None))"

definition db_delete :: "string \<Rightarrow> db \<Rightarrow> db \<times> go_error option" where
  "db_delete n d = (if db_req d n = None then (d, Some ENotFound)
     else (d\<lparr>db_req := (db_req d)(n := None)\<rparr>, None))"

definition db_clean :: "string \<Rightarrow> db \<Rightarrow> db \<times> go_error option" where
  "db_clean n d = (d\<lparr>db_req := (db_req d)(n := None), db_cert := (db_cert d)(n := None)\<rparr>,
     if db_req d n = None \<and> db_cert d n = None then Some ENotFound else None)"

text \<open>Intake under blanket autosign or with none; \<open>None\<close>: the policy is to be asked.\<close>

definition db_submit ::
  "env \<Rightarrow> ca \<Rightarrow> autosign \<Rightarrow> string \<Rightarrow> bytes \<Rightarrow> db \<Rightarrow> db \<times> bool res option" where
  "db_submit E c a n pem d =
     (if db_cert d n \<noteq> None
      then (d, Some (Inl (EMsg (''certificate already signed for '' @ go_quote n))))
      else if db_req d n \<noteq> None \<and> db_req d n \<noteq> Some pem
      then (d, Some (Inl (EMsg (''a different certificate request already exists for '' @ go_quote n))))
      else (let d1 = d\<lparr>db_req := (db_req d)(n \<mapsto> pem)\<rparr> in
        if \<not> as_all a then (d1, Some (Inr False))
        else if as_exe a = [] then
          (case db_sign E c n (autosign_opts c) d1 of
             (d2, Some e) \<Rightarrow> (d2, Some (Inl e)) | (d2, None) \<Rightarrow> (d2, Some (Inr True)))
        else (d1, None)))"

definition db_finish :: "env \<Rightarrow> ca \<Rightarrow> string \<Rightarrow> bytes \<Rightarrow> db \<Rightarrow> db \<times> bool res" where
  "db_finish E c n pem d =
     (if db_req d n \<noteq> Some pem \<or> db_cert d n \<noteq> None then (d, Inr False)
      else (case db_sign E c n (autosign_opts c) d of
          (d1, Some e) \<Rightarrow> (d1, Inl e) | (d1, None) \<Rightarrow> (d1, Inr True)))"

section \<open>The abstraction\<close>

definition db_of :: "ca \<Rightarrow> bytes os \<Rightarrow> db" where
  "db_of c fs = \<lparr>
     db_req = (\<lambda>n. if valid_certname n then file_at fs (request_path c n) else None),
     db_cert = (\<lambda>n. if valid_certname n then slot_cert c fs (Host n) else None),
     db_next = the (serial_now c fs),
     db_revoked = map re_serial (read_revoked c fs)\<rparr>"

text \<open>The files of a cadir that operations read and write.\<close>

definition cadir_file :: "ca \<Rightarrow> path \<Rightarrow> bool" where
  "cadir_file c p \<longleftrightarrow>
     p \<in> {top_file c ''serial'', top_file c ''inventory.txt'', top_file c ''ca_crl.pem'',
           top_file c ''server_crt.pem'', top_file c ''server_key.pem''} \<or>
     (\<exists>n. valid_certname n \<and> (p = request_path c n \<or> p = signed_path c n))"

text \<open>No call fails: no faults, the directories are there and no directory is in the way.\<close>

definition ready :: "ca \<Rightarrow> bytes os \<Rightarrow> bool" where
  "ready c fs \<longleftrightarrow> no_faults fs \<and>
     (\<forall>p. cadir_file c p \<longrightarrow> \<not> is_dir fs p \<and> is_dir fs (parent_path p))"

lemma cadir_files [simp]:
  "cadir_file c (top_file c ''serial'')" "cadir_file c (top_file c ''inventory.txt'')"
  "cadir_file c (top_file c ''ca_crl.pem'')"
  "valid_certname n \<Longrightarrow> cadir_file c (request_path c n)"
  "valid_certname n \<Longrightarrow> cadir_file c (signed_path c n)"
  by (auto simp: cadir_file_def)

lemma ready_same: "ready c fs \<Longrightarrow> same_off P fs fs' \<Longrightarrow> ready c fs'"
  by (simp add: ready_def same_off_no_faults same_off_dir)

lemma ready_read:
  assumes "ready c fs" and "cadir_file c p"
  shows "os_read_file fs p = (case file_at fs p of None \<Rightarrow> Inl (ENotExist (''open '' @ path_string p)) | Some b \<Rightarrow> Inr b)"
  using assms by (simp add: ready_def os_read_no_fault)

lemma ready_stat:
  assumes "ready c fs" and "cadir_file c p"
  shows "os_stat fs p = (case file_at fs p of None \<Rightarrow> Inl (ENotExist (''stat '' @ path_string p)) | Some b \<Rightarrow> Inr False)"
  using assms by (auto simp: ready_def os_stat_def no_faults_def file_at_def split: option.splits)

lemma ready_write:
  assumes "ready c fs" and "cadir_file c p"
  obtains fs' where "os_write_file fs p b = (fs', None)" "ready c fs'" "file_at fs' = (file_at fs)(p \<mapsto> b)"
proof -
  obtain fs' where fs': "os_write_file fs p b = (fs', None)"
    using assms by (simp add: ready_def os_write_no_fault)
  from that [OF this ready_same [OF assms(1) os_write_same [OF this]] osf.wr_done [OF this]] show thesis .
qed

lemma ready_remove:
  assumes "ready c fs" and "cadir_file c p"
  obtains fs' where "os_remove fs p = (fs', if file_at fs p = None
      then Some (ENotExist (''remove '' @ path_string p)) else None)"
    "ready c fs'" "file_at fs' = (file_at fs)(p := None)"
proof (cases "file_at fs p")
  case None
  then have r: "os_remove fs p = (fs, Some (ENotExist (''remove '' @ path_string p)))"
    using assms by (auto simp: ready_def os_remove_def no_faults_def file_at_def)
  show thesis by (rule that [of fs]) (use None r assms in auto)
next
  case (Some b)
  then obtain fs' where fs': "os_remove fs p = (fs', None)"
    using assms by (auto simp: ready_def os_remove_def no_faults_def file_at_def)
  show thesis
    by (rule that [of fs']) (use Some fs' osf.rm_done [OF fs'] ready_same [OF assms(1) os_remove_same [OF fs']] in auto)
qed

lemma ready_inventory: "ready c fs \<Longrightarrow> ready c (append_inventory c fs crt)"
  using append_inventory_same ready_same by blast


section \<open>Refinement\<close>

lemma read_revoked_cong:
  assumes "ready c fs" and "ready c fs'"
    and "file_at fs' (top_file c ''ca_crl.pem'') = file_at fs (top_file c ''ca_crl.pem'')"
  shows "read_revoked c fs' = read_revoked c fs"
  using assms by (simp add: read_revoked_def path_simps ready_read split: option.splits)

text \<open>Two directories with the same database: what differs in the files shows in the fields.\<close>

lemma db_of_change:
  assumes "ready c fs" and "ready c fs'"
    and "\<And>m. valid_certname m \<Longrightarrow> file_at fs' (request_path c m) = rq m"
    and "\<And>m. valid_certname m \<Longrightarrow> slot_cert c fs' (Host m) = ct m"
    and "serial_now c fs' = Some k"
    and "file_at fs' (top_file c ''ca_crl.pem'') = file_at fs (top_file c ''ca_crl.pem'')"
    and "\<And>m. valid_certname m \<Longrightarrow> rq m = rq' m" and "\<And>m. valid_certname m \<Longrightarrow> ct m = ct' m"
    and "\<And>m. \<not> valid_certname m \<Longrightarrow> rq' m = None \<and> ct' m = None"
  shows "db_of c fs' = \<lparr>db_req = rq', db_cert = ct', db_next = k, db_revoked = db_revoked (db_of c fs)\<rparr>"
  using assms read_revoked_cong [OF assms(1,2,6)] by (auto simp: db_of_def fun_eq_iff)

lemma db_of_fields:
  "valid_certname n \<Longrightarrow> db_req (db_of c fs) n = file_at fs (request_path c n)"
  "valid_certname n \<Longrightarrow> db_cert (db_of c fs) n = slot_cert c fs (Host n)"
  "\<not> valid_certname n \<Longrightarrow> db_req (db_of c fs) n = None"
  "\<not> valid_certname n \<Longrightarrow> db_cert (db_of c fs) n = None"
  "serial_now c fs = Some s \<Longrightarrow> db_next (db_of c fs) = s"
  by (simp_all add: db_of_def)

lemma ready_next:
  assumes "ready c fs" and "serial_now c fs = Some s"
  obtains fs' where "next_serial c fs = (fs', Inr s)" "ready c fs'"
    "file_at fs' = (file_at fs)(top_file c ''serial'' \<mapsto> serial_file (s + 1))"
proof -
  obtain b where b: "os_read_file fs (top_file c ''serial'') = Inr b" "read_signed 16 (trim_space (bytes_string b)) = Some s"
    using assms by (auto simp: serial_now_def path_simps ready_read split: option.splits)
  obtain fs' where w: "os_write_file fs (top_file c ''serial'') (serial_file (s + 1)) = (fs', None)"
    "ready c fs'" "file_at fs' = (file_at fs)(top_file c ''serial'' \<mapsto> serial_file (s + 1))"
    by (rule ready_write [OF assms(1), of "top_file c ''serial''"]) auto
  have "next_serial c fs = (fs', Inr s)"
    using b w(1) by (simp add: next_serial_def path_simps serial_file_def Let_def)
  with w that show thesis by blast
qed

text \<open>Signing, when nothing fails, in one step from the files before to the files after.\<close>

lemma ready_sign_leaf:
  fixes opts :: sign_opts
  assumes rdy: "ready c fs" and n: "valid_certname n" and s: "serial_now c fs = Some s"
    and req: "file_at fs (request_path c n) = Some pem" "decode_csr pem = Inr req"
  defines "opts' \<equiv> opts\<lparr>so_serial := Some s, so_extra_exts := so_extra_exts opts @ allowed_from_csr (csr_exts req)\<rparr>"
  obtains fs' where "ready c fs'" "serial_now c fs' = Some (s + 1)"
    "sign_leaf E c fs n opts = (fs', sign_csr E req (ca_crt c) (ca_key c) opts')"
    "\<And>q. q \<noteq> top_file c ''inventory.txt'' \<Longrightarrow> q \<noteq> top_file c ''serial'' \<Longrightarrow> file_at fs' q =
       (case sign_csr E req (ca_crt c) (ca_key c) opts' of
          Inl _ \<Rightarrow> file_at fs q
        | Inr leaf \<Rightarrow> ((file_at fs)(signed_path c n \<mapsto> encode_cert leaf, request_path c n := None)) q)"
proof -
  have rd: "os_read_file fs (request_path c n) = Inr pem" using rdy n req(1) by (simp add: ready_read)
  obtain fs1 where 1: "next_serial c fs = (fs1, Inr s)" "ready c fs1"
    "file_at fs1 = (file_at fs)(top_file c ''serial'' \<mapsto> serial_file (s + 1))"
    by (rule ready_next [OF rdy s])
  have sn1: "serial_now c fs1 = Some (s + 1)" using sa.next_done [OF 1(1)] by simp
  show thesis
  proof (cases "sign_csr E req (ca_crt c) (ca_key c) opts'")
    case (Inl e)
    have "sign_leaf E c fs n opts = (fs1, Inl e)"
      using rd req(2) 1(1) Inl by (simp add: sign_leaf_def opts'_def)
    from that [OF 1(2) sn1 this [folded Inl]] 1(3) Inl show thesis by simp
  next
    case (Inr leaf)
    obtain fs2 where 2: "os_write_file fs1 (signed_path c n) (encode_cert leaf) = (fs2, None)"
      "ready c fs2" "file_at fs2 = (file_at fs1)(signed_path c n \<mapsto> encode_cert leaf)"
      by (rule ready_write [OF 1(2), of "signed_path c n"]) (use n in auto)
    let ?fs3 = "append_inventory c fs2 leaf"
    obtain fs4 e where 4: "os_remove ?fs3 (request_path c n) = (fs4, e)"
      "ready c fs4" "file_at fs4 = (file_at ?fs3)(request_path c n := None)"
      by (rule ready_remove [OF ready_inventory [OF 2(2)], of "request_path c n"]) (use n in auto)
    have leaf: "sign_leaf E c fs n opts = (fs4, Inr leaf)"
      using rd req(2) 1(1) Inr 2(1) 4(1) by (simp add: sign_leaf_def opts'_def)
    note off = same_off_at [OF append_inventory_same [of c fs2 leaf]]
    have at: "file_at fs4 q = ((file_at fs)(top_file c ''serial'' \<mapsto> serial_file (s + 1),
        signed_path c n \<mapsto> encode_cert leaf, request_path c n := None)) q"
      if "q \<noteq> top_file c ''inventory.txt''" for q
      using that off [of q] 1(3) 2(3) 4(3) by auto
    have "serial_now c fs4 = Some (s + 1)"
      using at [of "top_file c ''serial''"] n by (simp add: serial_now_def ca_path_top read_serial_file)
    from that [OF 4(2) this leaf [folded Inr]] at Inr show thesis by (simp add: fun_upd_def)
  qed
qed

lemma sign_locked_refines:
  assumes rdy: "ready c fs" and n: "valid_certname n" and s: "serial_now c fs = Some s"
    and "sign_locked E c fs n opts = (fs', err)"
  shows "ready c fs' \<and> (db_of c fs', err) = db_sign E c n opts (db_of c fs)"
proof (cases "file_at fs (request_path c n)")
  case None
  then have "(fs', err) = (fs, Some ENotFound)"
    using assms by (simp add: sign_locked_def sign_leaf_def ready_read err_of_def)
  with None n rdy show ?thesis by (simp add: db_sign_def db_of_fields)
next
  case (Some pem)
  then have rd: "os_read_file fs (request_path c n) = Inr pem" using rdy n by (simp add: ready_read)
  show ?thesis
  proof (cases "decode_csr pem")
    case (Inl e)
    then have "(fs', err) = (fs, Some e)"
      using assms rd by (simp add: sign_locked_def sign_leaf_def err_of_def)
    with Some Inl n rdy show ?thesis by (simp add: db_sign_def db_of_fields)
  next
    case (Inr req)
    let ?o = "opts\<lparr>so_serial := Some s, so_extra_exts := so_extra_exts opts @ allowed_from_csr (csr_exts req)\<rparr>"
    obtain fs2 where 2: "ready c fs2" "serial_now c fs2 = Some (s + 1)"
      "sign_leaf E c fs n opts = (fs2, sign_csr E req (ca_crt c) (ca_key c) ?o)"
      "\<And>q. q \<noteq> top_file c ''inventory.txt'' \<Longrightarrow> q \<noteq> top_file c ''serial'' \<Longrightarrow> file_at fs2 q =
       (case sign_csr E req (ca_crt c) (ca_key c) ?o of
          Inl _ \<Rightarrow> file_at fs q
        | Inr leaf \<Rightarrow> ((file_at fs)(signed_path c n \<mapsto> encode_cert leaf, request_path c n := None)) q)"
      using ready_sign_leaf [OF rdy n s Some Inr, where E = E and opts = opts] by blast
    have fs': "fs' = fs2" using assms(4) 2(3) by (simp add: sign_locked_def err_of_def)
    show ?thesis
    proof (cases "sign_csr E req (ca_crt c) (ca_key c) ?o")
      case (Inl e)
      have "db_of c fs2 = (db_of c fs)\<lparr>db_next := s + 1\<rparr>"
        by (subst db_of_change [OF rdy 2(1), where k = "s + 1" and rq = "\<lambda>m. file_at fs (request_path c m)"
              and ct = "\<lambda>m. slot_cert c fs (Host m)" and rq' = "db_req (db_of c fs)" and ct' = "db_cert (db_of c fs)"])
          (use 2(2,4) Inl in \<open>auto simp: db_of_fields slot_cert_def\<close>)
      with assms(4) 2(1,3) Inl Some Inr n fs' s show ?thesis
        by (simp add: db_sign_def db_of_fields sign_locked_def err_of_def Let_def)
    next
      case leaf: (Inr leaf)
      have wf: "wf_cert leaf" by (rule wf_leaf [OF leaf])
      have "db_of c fs2 = (db_of c fs)\<lparr>db_next := s + 1, db_cert := (db_cert (db_of c fs))(n \<mapsto> leaf),
          db_req := (db_req (db_of c fs))(n := None)\<rparr>"
        by (subst db_of_change [OF rdy 2(1), where k = "s + 1"
              and rq = "\<lambda>m. if m = n then None else file_at fs (request_path c m)"
              and ct = "\<lambda>m. if m = n then Some leaf else slot_cert c fs (Host m)"
              and rq' = "(db_req (db_of c fs))(n := None)" and ct' = "(db_cert (db_of c fs))(n \<mapsto> leaf)"])
          (use 2(2,4) leaf n wf in \<open>auto simp: db_of_fields slot_cert_def decode_encode_cert\<close>)
      with assms(4) 2(1,3) leaf Some Inr n fs' s show ?thesis
        by (simp add: db_sign_def db_of_fields sign_locked_def err_of_def Let_def)
    qed
  qed
qed


lemma slot_cert_cong: "file_at fs' (slot_path c sl) = file_at fs (slot_path c sl) \<Longrightarrow> slot_cert c fs' sl = slot_cert c fs sl"
  by (simp add: slot_cert_def)

text \<open>A written revocation list reads back as its entries.\<close>

lemma write_crl_reads:
  assumes rdy: "ready c fs" and ski: "crt_ski (ca_crt c) \<noteq> []" and ok: "ca_ok c"
  obtains fs' where "write_crl E c fs es = (fs', None)" "ready c fs'" "same_off {top_file c ''ca_crl.pem''} fs fs'"
    "read_revoked c fs' = map (\<lambda>r. \<lparr>re_serial = re_serial r, re_when = trunc_second (re_when r)\<rparr>) es"
proof -
  obtain b where b: "create_crl E (ca_crt c) (ca_key c) es 0 = Inr b"
    using ski ok create_crl_Inr [of E "ca_crt c" "ca_key c" es 0] by (auto simp: ca_ok_def)
  obtain fs' where w: "os_write_file fs (top_file c ''ca_crl.pem'') b = (fs', None)" "ready c fs'"
    "file_at fs' = (file_at fs)(top_file c ''ca_crl.pem'' \<mapsto> b)"
    by (rule ready_write [OF rdy, of "top_file c ''ca_crl.pem''"]) auto
  have "write_crl E c fs es = (fs', None)" using b w(1) by (simp add: write_crl_def ca_path_top)
  moreover have "read_revoked c fs' = map (\<lambda>r. \<lparr>re_serial = re_serial r, re_when = trunc_second (re_when r)\<rparr>) es"
    using b w by (auto simp: read_revoked_def ca_path_top ready_read create_crl_Inr parse_crl_def)
  ultimately show thesis using that w(2) os_write_same [OF w(1)] by blast
qed

lemma slot_cert_present:
  assumes inv: "cadir_at c s fs" and n: "valid_certname n"
  shows "slot_cert c fs (Host n) = None \<longleftrightarrow> file_at fs (signed_path c n) = None"
proof (cases "file_at fs (signed_path c n)")
  case None
  then show ?thesis by (simp add: slot_cert_def)
next
  case (Some b)
  have "slot_ok (Host n)" "file_at fs (slot_path c (Host n)) = Some b" using n Some by simp_all
  with inv obtain crt where "b = encode_cert crt" "issued_by c crt"
    unfolding cadir_at_def certs_ok_def by blast
  with Some show ?thesis by (simp add: slot_cert_def decode_encode_cert issued_by_def)
qed

lemma revoke_refines:
  assumes rdy: "ready c fs" and inv: "cadir_at c s fs" and ski: "crt_ski (ca_crt c) \<noteq> []"
    and n: "valid_certname n" and rv: "ca_revoke E c fs n = (fs', err)"
  shows "ready c fs' \<and> (db_of c fs', err) = db_revoke n (db_of c fs)"
proof (cases "slot_cert c fs (Host n)")
  case None
  then have "file_at fs (signed_path c n) = None"
    using slot_cert_present [OF inv n] by simp
  then have "(fs', err) = (fs, Some ENotFound)" using rdy n rv by (simp add: ca_revoke_def ready_read)
  with None n rdy show ?thesis by (simp add: db_revoke_def db_of_fields)
next
  case (Some crt)
  have "certs_ok c s fs" using inv by (simp add: cadir_at_def)
  from certs_ok_slot(1,2) [OF this _ Some] n
  have at: "file_at fs (signed_path c n) = Some (encode_cert crt)" "wf_cert crt" by (auto simp: issued_by_def)
  have rd: "os_read_file fs (signed_path c n) = Inr (encode_cert crt)" using rdy n at by (simp add: ready_read)
  have known: "list_ex (\<lambda>r. re_serial r = crt_serial crt) (read_revoked c fs) \<longleftrightarrow>
      crt_serial crt \<in> set (db_revoked (db_of c fs))"
    by (auto simp: db_of_def list_ex_iff image_iff) metis
  show ?thesis
  proof (cases "crt_serial crt \<in> set (db_revoked (db_of c fs))")
    case True
    then have "(fs', err) = (fs, None)"
      using rv rd at n known by (simp add: ca_revoke_def decode_encode_cert Let_def)
    with True Some n rdy show ?thesis by (simp add: db_revoke_def db_of_fields)
  next
    case False
    have "ca_ok c" using inv by (simp add: cadir_at_def)
    obtain fs2 where w: "write_crl E c fs (read_revoked c fs @ [\<lparr>re_serial = crt_serial crt, re_when = env_now E\<rparr>]) = (fs2, None)"
      "ready c fs2" "same_off {top_file c ''ca_crl.pem''} fs fs2"
      "read_revoked c fs2 = map (\<lambda>r. \<lparr>re_serial = re_serial r, re_when = trunc_second (re_when r)\<rparr>)
         (read_revoked c fs @ [\<lparr>re_serial = crt_serial crt, re_when = env_now E\<rparr>])"
      using write_crl_reads [OF rdy ski \<open>ca_ok c\<close>] by blast
    have "(fs', err) = (fs2, None)"
      using rv rd at n known False w(1) by (simp add: ca_revoke_def decode_encode_cert Let_def)
    moreover have "db_of c fs2 = (db_of c fs)\<lparr>db_revoked := db_revoked (db_of c fs) @ [crt_serial crt]\<rparr>"
      using same_off_at [OF w(3)] serial_now_same [OF w(3)] w(4)
      by (auto simp: db_of_def fun_eq_iff slot_cert_def)
    ultimately show ?thesis using False Some n w(2) by (simp add: db_revoke_def db_of_fields)
  qed
qed

lemma delete_refines:
  assumes rdy: "ready c fs" and n: "valid_certname n" and dl: "delete_csr c fs n = (fs', err)"
  shows "ready c fs' \<and> (db_of c fs', err) = db_delete n (db_of c fs)"
proof -
  obtain fs2 where r: "os_remove fs (request_path c n) = (fs2, if file_at fs (request_path c n) = None
      then Some (ENotExist (''remove '' @ path_string (request_path c n))) else None)"
    "ready c fs2" "file_at fs2 = (file_at fs)(request_path c n := None)"
    by (rule ready_remove [OF rdy, of "request_path c n"]) (use n in auto)
  have "fs' = fs2" "err = (if file_at fs (request_path c n) = None then Some ENotFound else None)"
    using dl n r(1) by (auto simp: delete_csr_def split: if_splits)
  moreover have "db_of c fs2 = (db_of c fs)\<lparr>db_req := (db_req (db_of c fs))(n := None)\<rparr>"
    using n r(3) read_revoked_cong [OF rdy r(2)] by (auto simp: db_of_def fun_eq_iff slot_cert_def serial_now_def ca_path_top)
  moreover have "db_req (db_of c fs) n = None \<Longrightarrow> (db_req (db_of c fs))(n := None) = db_req (db_of c fs)"
    by auto
  ultimately show ?thesis using n r(2) by (auto simp: db_delete_def db_of_fields)
qed

lemma clean_refines:
  assumes rdy: "ready c fs" and inv: "cadir_at c s fs" and n: "valid_certname n" and cl: "ca_clean c fs n = (fs', err)"
  shows "ready c fs' \<and> (db_of c fs', err) = db_clean n (db_of c fs)"
proof -
  note present = slot_cert_present [OF inv n]
  obtain fs1 where 1: "os_remove fs (signed_path c n) = (fs1, if file_at fs (signed_path c n) = None
      then Some (ENotExist (''remove '' @ path_string (signed_path c n))) else None)"
    "ready c fs1" "file_at fs1 = (file_at fs)(signed_path c n := None)"
    by (rule ready_remove [OF rdy, of "signed_path c n"]) (use n in auto)
  obtain fs2 where 2: "os_remove fs1 (request_path c n) = (fs2, if file_at fs1 (request_path c n) = None
      then Some (ENotExist (''remove '' @ path_string (request_path c n))) else None)"
    "ready c fs2" "file_at fs2 = (file_at fs1)(request_path c n := None)"
    by (rule ready_remove [OF 1(2), of "request_path c n"]) (use n in auto)
  have "fs' = fs2" "err = (if file_at fs (request_path c n) = None \<and> file_at fs (signed_path c n) = None
      then Some ENotFound else None)"
    using cl n 1 2(1) by (auto simp: ca_clean_def Let_def split: if_splits)
  moreover have "db_of c fs2 = (db_of c fs)\<lparr>db_req := (db_req (db_of c fs))(n := None),
      db_cert := (db_cert (db_of c fs))(n := None)\<rparr>"
    using n 1(3) 2(3) read_revoked_cong [OF rdy 2(2)]
    by (auto simp: db_of_def fun_eq_iff slot_cert_def serial_now_def ca_path_top)
  ultimately show ?thesis using n 2(2) present by (auto simp: db_clean_def db_of_fields)
qed


text \<open>The two critical sections of a submission.\<close>

definition outcome_of :: "store_outcome \<Rightarrow> bool res option" where
  "outcome_of r = (case r of SubmitDone x \<Rightarrow> Some x | AskPolicy \<Rightarrow> None)"

lemma stored_db:
  assumes rdy: "ready c fs" and n: "valid_certname n" and s: "serial_now c fs = Some s"
  obtains fs' where "os_write_file fs (request_path c n) pem = (fs', None)" "ready c fs'"
    "serial_now c fs' = Some s" "db_of c fs' = (db_of c fs)\<lparr>db_req := (db_req (db_of c fs))(n \<mapsto> pem)\<rparr>"
proof -
  obtain fs' where w: "os_write_file fs (request_path c n) pem = (fs', None)" "ready c fs'"
    "file_at fs' = (file_at fs)(request_path c n \<mapsto> pem)"
    by (rule ready_write [OF rdy, of "request_path c n"]) (use n in auto)
  have "db_of c fs' = (db_of c fs)\<lparr>db_req := (db_req (db_of c fs))(n \<mapsto> pem)\<rparr>"
    using n w(3) read_revoked_cong [OF rdy w(2)] by (auto simp: db_of_def fun_eq_iff slot_cert_def serial_now_def ca_path_top)
  moreover have "serial_now c fs' = Some s" using s n w(3) by (simp add: serial_now_def ca_path_top)
  ultimately show thesis using that w by blast
qed

lemma stat_read:
  assumes "ready c fs" and "valid_certname n"
  shows "is_ok (os_stat fs (signed_path c n)) \<longleftrightarrow> file_at fs (signed_path c n) \<noteq> None"
    "\<not> is_ok (os_stat fs (signed_path c n)) \<Longrightarrow> \<exists>e. os_stat fs (signed_path c n) = Inl e \<and> err_is_not_exist e"
  using assms by (auto simp: ready_stat split: option.splits)

lemma submit_store_refines:
  assumes rdy: "ready c fs" and inv: "cadir_at c s fs" and n: "valid_certname n"
    and st: "submit_store E c a fs n pem = (fs', r)"
  shows "ready c fs' \<and> (db_of c fs', outcome_of r) = db_submit E c a n pem (db_of c fs)"
proof -
  have s: "serial_now c fs = Some s" using inv by (simp add: cadir_at_def)
  note cert = slot_cert_present [OF inv n] stat_read [OF rdy n]
  have rd: "os_read_file fs (request_path c n) = (case file_at fs (request_path c n) of
      None \<Rightarrow> Inl (ENotExist (''open '' @ path_string (request_path c n))) | Some b \<Rightarrow> Inr b)"
    using rdy n by (simp add: ready_read)
  obtain fs1 where w: "os_write_file fs (request_path c n) pem = (fs1, None)" "ready c fs1"
    "serial_now c fs1 = Some s" "db_of c fs1 = (db_of c fs)\<lparr>db_req := (db_req (db_of c fs))(n \<mapsto> pem)\<rparr>"
    by (rule stored_db [OF rdy n s])
  consider "file_at fs (signed_path c n) \<noteq> None"
    | "file_at fs (signed_path c n) = None" "file_at fs (request_path c n) \<noteq> None" "file_at fs (request_path c n) \<noteq> Some pem"
    | "file_at fs (signed_path c n) = None" "file_at fs (request_path c n) = None \<or> file_at fs (request_path c n) = Some pem"
    by metis
  then show ?thesis
  proof cases
    case 1
    with st cert n rdy show ?thesis
      by (auto simp: submit_store_def db_submit_def db_of_fields outcome_of_def)
  next
    case 2
    with st cert rd n rdy show ?thesis
      by (auto simp: submit_store_def db_submit_def db_of_fields outcome_of_def)
  next
    case 3
    obtain fs2 e where sg: "sign_locked E c fs1 n (autosign_opts c) = (fs2, e)" by fastforce
    note ref = sign_locked_refines [OF w(2) n w(3) sg]
    have st': "submit_store E c a fs n pem =
      (if \<not> as_all a then (fs1, SubmitDone (Inr False))
       else if as_exe a = [] then (fs2, SubmitDone (case e of Some e \<Rightarrow> Inl e | None \<Rightarrow> Inr True))
       else (fs1, AskPolicy))"
      using 3 cert rd w(1) sg by (auto simp: submit_store_def split: option.splits)
    have db': "db_submit E c a n pem (db_of c fs) =
      (if \<not> as_all a then (db_of c fs1, Some (Inr False))
       else if as_exe a = [] then (db_of c fs2, Some (case e of Some e \<Rightarrow> Inl e | None \<Rightarrow> Inr True))
       else (db_of c fs1, None))"
      using 3 cert(1) n ref by (auto simp: db_submit_def db_of_fields w(4) [symmetric] Let_def split: option.splits prod.splits)
    from st st' db' w(2) ref show ?thesis by (auto simp: outcome_of_def split: if_splits option.splits)
  qed
qed

lemma submit_finish_refines:
  assumes rdy: "ready c fs" and inv: "cadir_at c s fs" and n: "valid_certname n"
    and fin: "submit_finish E c fs n pem = (fs', r)"
  shows "ready c fs' \<and> (db_of c fs', r) = db_finish E c n pem (db_of c fs)"
proof -
  have s: "serial_now c fs = Some s" using inv by (simp add: cadir_at_def)
  note cert = slot_cert_present [OF inv n] stat_read [OF rdy n]
  have rd: "os_read_file fs (request_path c n) = (case file_at fs (request_path c n) of
      None \<Rightarrow> Inl (ENotExist (''open '' @ path_string (request_path c n))) | Some b \<Rightarrow> Inr b)"
    using rdy n by (simp add: ready_read)
  obtain fs2 e where sg: "sign_locked E c fs n (autosign_opts c) = (fs2, e)" by fastforce
  note ref = sign_locked_refines [OF rdy n s sg]
  show ?thesis
  proof (cases "file_at fs (request_path c n) = Some pem \<and> file_at fs (signed_path c n) = None")
    case True
    with cert obtain e' where "os_stat fs (signed_path c n) = Inl e'" "err_is_not_exist e'" by metis
    with True rd sg fin have "fs' = fs2" "r = (case e of Some e \<Rightarrow> Inl e | None \<Rightarrow> Inr True)"
      by (auto simp: submit_finish_def split: option.splits)
    with True n cert(1) ref show ?thesis
      by (auto simp: db_finish_def db_of_fields split: option.splits prod.splits)
  next
    case False
    then have "fs' = fs" "r = Inr False"
      using fin rd cert n rdy by (auto simp: submit_finish_def ready_stat is_ok_iff split: option.splits if_splits sum.splits)
    with False n cert(1) rdy show ?thesis by (auto simp: db_finish_def db_of_fields)
  qed
qed

end
