(* ===== verification/Examples.thy ===== *)
theory Examples
  imports StoreSpec
begin

text \<open>
  A small concrete CA on which the properties are instantiated: its environment, its directory
  right after initialisation, an agent's request, and a run in which a policy approves it.
\<close>

definition ex_key :: rsa_private where
  "ex_key = \<lparr>priv_public = \<lparr>rsa_N = 3233, rsa_E = 17\<rparr>, priv_D = 413\<rparr>"

definition ex_agent_key :: rsa_private where
  "ex_agent_key = \<lparr>priv_public = \<lparr>rsa_N = 2773, rsa_E = 17\<rparr>, priv_D = 157\<rparr>"

definition ex_env :: env where
  "ex_env = \<lparr>env_now = 1700000000000000000, env_genkey = (\<lambda>_. Inr ex_key), env_rand128 = Inr 41,
     env_sha1 = (\<lambda>_. [0x0A, 0xFF]), env_sha256 = (\<lambda>_. [0x01, 0x2B, 0xC4])\<rparr>"

definition ex_exe :: string where "ex_exe = ''/opt/policy''"

definition ex_fs0 :: "bytes os" where
  "ex_fs0 = \<lparr>os_files = [(Path True [''opt'', ''policy''], [])], os_dirs = [Path True [''opt'']],
     os_fault = (\<lambda>_ _. None)\<rparr>"

definition ex_opts :: store_options where
  "ex_opts = \<lparr>op_ttl = 0, op_autosign_all = True, op_allow_alt_san = False, op_policy_exe = ex_exe,
     op_policy_timeout = 0\<rparr>"

definition ex_ca_name :: pkix_name where
  "ex_ca_name = \<lparr>nm_cn = ''Puppet CA: test'', nm_rest = []\<rparr>"

definition ex_ca_crt :: certificate where
  "ex_ca_crt = \<lparr>crt_serial = 1, crt_issuer = ex_ca_name, crt_subject = ex_ca_name,
     crt_not_before = 1699996400000000000, crt_not_after = 2015360000000000000,
     crt_pub = RSAKey (priv_public ex_key), crt_key_usage = [CertSign, CRLSign], crt_ext_key_usage = [],
     crt_bc_valid = True, crt_is_ca = True, crt_ski = [10, 255], crt_dns = [], crt_ips = [],
     crt_exts = [], crt_signer = Some (RSAKey (priv_public ex_key))\<rparr>"

definition ex_ca :: ca where
  "ex_ca = \<lparr>ca_dir = ''/ca'', ca_key = ex_key, ca_crt = ex_ca_crt, ca_ttl = 157680000000000000,
     ca_autosign_all = True, ca_allow_alt_san = False, ca_policy_exe = ex_exe,
     ca_policy_timeout = 5000000000\<rparr>"

definition ex_crl :: crl where
  "ex_crl = \<lparr>crl_issuer = ex_ca_name, crl_number = 1700000000, crl_this_update = 1699996400000000000,
     crl_next_update = 1700086400000000000, crl_entries = [],
     crl_signer = Some (RSAKey (priv_public ex_key))\<rparr>"

definition ex_fs :: "bytes os" where
  "ex_fs = \<lparr>os_files = [(Path True [''opt'', ''policy''], []),
      (Path True [''ca'', ''ca_crt.pem''], [Pem ''CERTIFICATE'' (CertDER ex_ca_crt)]),
      (Path True [''ca'', ''ca_key.pem''], [Pem ''RSA PRIVATE KEY'' (Pkcs1DER ex_key)]),
      (Path True [''ca'', ''ca_pub.pem''], [Pem ''PUBLIC KEY'' (SpkiDER (priv_public ex_key))]),
      (Path True [''ca'', ''serial''], text_bytes (''0002'' @ [CHR 0x0A])),
      (Path True [''ca'', ''inventory.txt''], text_bytes
         (''0x0001 2023-11-14T21:13:20UTC 2033-11-11T22:13:20UTC /CN=Puppet CA: test'' @ [CHR 0x0A])),
      (Path True [''ca'', ''ca_crl.pem''], [Pem ''X509 CRL'' (CrlDER ex_crl)])],
     os_dirs = [Path True [''opt''], Path True [''ca''], Path True [''ca'', ''signed''],
      Path True [''ca'', ''requests'']],
     os_fault = (\<lambda>_ _. None)\<rparr>"

definition ex_csr :: csr where
  "ex_csr = \<lparr>csr_subject = \<lparr>nm_cn = ''node1'', nm_rest = []\<rparr>, csr_dns = [], csr_ips = [],
     csr_exts = [\<lparr>ext_id = [1, 3, 6, 1, 4, 1, 34380, 1, 1, 13], ext_critical = False,
        ext_value = [CHR 0x0C, CHR 0x03, CHR ''w'', CHR ''e'', CHR ''b'']\<rparr>],
     csr_pub = RSAKey (priv_public ex_agent_key), csr_signer = Some (RSAKey (priv_public ex_agent_key))\<rparr>"

definition ex_csr_pem :: bytes where
  "ex_csr_pem = [Pem ''CERTIFICATE REQUEST'' (CsrDER ex_csr)]"

text \<open>A policy that approves, one that denies.\<close>

definition ex_approve :: runner where
  "ex_approve exe t body = \<lparr>ex_deadline = False, ex_err = None, ex_stderr = []\<rparr>"

definition ex_deny :: runner where
  "ex_deny exe t body = \<lparr>ex_deadline = False, ex_err = Some (ExitError 1), ex_stderr = [''no'']\<rparr>"

definition ex_start :: sys where "ex_start = sys_start ex_ca ex_fs"


definition ex_events :: "event list" where
  "ex_events = [EvBegin ''node1'' ex_csr_pem ''10.0.0.9'', EvStore ex_env 0, EvPolicy ex_approve 0,
     EvFinish ex_env 0]"

definition ex_end :: sys where "ex_end = the (sys_run ex_events ex_start)"


section \<open>Their values\<close>

lemma ex_dir: "filepath_clean (ca_dir ex_ca) = Path True [''ca'']"
  by code_simp

lemma ex_init_ok: "castore_init ex_env ex_fs0 ''/ca'' ''test'' 0 ex_opts = (ex_fs, Inr ex_ca)"
proof -
  let ?r = "castore_init ex_env ex_fs0 ''/ca'' ''test'' 0 ex_opts"
  have files: "os_files (fst ?r) = os_files ex_fs" by code_simp
  have dirs: "os_dirs (fst ?r) = os_dirs ex_fs" by code_simp
  have ca: "snd ?r = Inr ex_ca" by code_simp
  then have r: "?r = (fst ?r, Inr ex_ca)" by (metis prod.collapse)
  have "os_fault (fst ?r) = os_fault ex_fs0" using r by (rule init_done)
  also have "\<dots> = os_fault ex_fs" by (simp add: ex_fs0_def ex_fs_def)
  finally have "fst ?r = ex_fs" using files dirs by (intro os.equality) simp_all
  with r show ?thesis by simp
qed

lemma ex_fs0_empty:
  "valid_certname n \<Longrightarrow> file_at ex_fs0 (request_path ex_ca n) = None"
  "slot_ok sl \<Longrightarrow> file_at ex_fs0 (slot_path ex_ca sl) = None"
proof -
  show "valid_certname n \<Longrightarrow> file_at ex_fs0 (request_path ex_ca n) = None"
    by (simp add: request_path_eq ex_dir sub_path_def file_at_def ex_fs0_def)
  show "slot_ok sl \<Longrightarrow> file_at ex_fs0 (slot_path ex_ca sl) = None"
    by (cases sl) (simp_all add: signed_path_eq top_file_def ex_dir sub_path_def file_at_def ex_fs0_def)
qed

lemma ex_cadir: "cadir_at ex_ca 2 ex_fs"
  by (rule init_invariant [OF ex_init_ok ex_fs0_empty])

lemma ex_start_inv: "sys_inv ex_start"
  unfolding ex_start_def by (rule init_start_inv [OF ex_init_ok ex_fs0_empty])

lemma ex_log:
  "map_option (\<lambda>s. map (\<lambda>i. (is_slot i, crt_serial (is_cert i), is_cause i)) (sy_log s)) (sys_run ex_events ex_start)
     = Some [(Host ''node1'', 2, ByPolicy ex_csr_pem)]"
  by code_simp

lemma ex_run: "sys_run ex_events ex_start = Some ex_end"
  using ex_log by (auto simp: ex_end_def)

lemma ex_reach: "sys_reach ex_start ex_end"
  by (rule run_reach [OF ex_run]) (simp add: ex_events_def puppet_event_def)

lemma ex_issue:
  obtains i where "sy_log ex_end = [i]" "is_slot i = Host ''node1''" "is_cause i = ByPolicy ex_csr_pem"
    "crt_serial (is_cert i) = 2"
proof -
  have "map (\<lambda>i. (is_slot i, crt_serial (is_cert i), is_cause i)) (sy_log ex_end) = [(Host ''node1'', 2, ByPolicy ex_csr_pem)]"
    using ex_log by (simp add: ex_run)
  with that show thesis by (cases "sy_log ex_end") auto
qed

lemma ex_valid: "valid_certname ''node1''"
  by code_simp

lemma ex_ready: "ready ex_ca ex_fs"
proof -
  have "no_faults ex_fs" by (simp add: no_faults_def ex_fs_def)
  moreover have "\<not> is_dir ex_fs p \<and> is_dir ex_fs (parent_path p)" if "cadir_file ex_ca p" for p
    using that unfolding cadir_file_def
    by (auto simp: request_path_eq signed_path_eq top_file_def ex_dir sub_path_def parent_path_def is_dir_def ex_fs_def)
  ultimately show ?thesis by (simp add: ready_def)
qed


text \<open>The directory after a submission under blanket autosign.\<close>

definition ex_blanket :: autosign where
  "ex_blanket = \<lparr>as_all = True, as_exe = [], as_timeout = 0\<rparr>"

definition ex_signed :: "bytes os" where
  "ex_signed = fst (submit_store ex_env ex_ca ex_blanket ex_fs ''node1'' ex_csr_pem)"

lemma ex_req_ok: "req_ok ''node1'' ex_csr_pem"
  by code_simp

lemma ex_signed_inv: "ready ex_ca ex_signed" "\<exists>s. cadir_at ex_ca s ex_signed"
proof -
  obtain r where r: "submit_store ex_env ex_ca ex_blanket ex_fs ''node1'' ex_csr_pem = (ex_signed, r)"
    by (metis ex_signed_def prod.collapse)
  show "ready ex_ca ex_signed" using submit_store_refines [OF ex_ready ex_cadir ex_valid r] by simp
  show "\<exists>s. cadir_at ex_ca s ex_signed"
    using submit_store_ok [OF ex_cadir ex_valid ex_req_ok r] by (auto simp: ok_step_def)
qed

lemma ex_signed_cert: "\<exists>crt. slot_cert ex_ca ex_signed (Host ''node1'') = Some crt \<and> crt_serial crt = 2"
proof -
  have "map_option crt_serial (slot_cert ex_ca ex_signed (Host ''node1'')) = Some 2" by code_simp
  then show ?thesis by auto
qed

lemma ex_ski: "crt_ski (ca_crt ex_ca) \<noteq> []"
  by (simp add: ex_ca_def ex_ca_crt_def)

lemma ex_revoke: "\<exists>fs'. ca_revoke ex_env ex_ca ex_signed ''node1'' = (fs', None)"
proof -
  obtain s where s: "cadir_at ex_ca s ex_signed" using ex_signed_inv(2) by blast
  obtain fs' e where r: "ca_revoke ex_env ex_ca ex_signed ''node1'' = (fs', e)" by fastforce
  have "db_cert (db_of ex_ca ex_signed) ''node1'' \<noteq> None"
    using ex_signed_cert ex_valid by (auto simp: db_of_fields)
  with revoke_refines [OF ex_signed_inv(1) s ex_ski ex_valid r] have "e = None"
    by (auto simp: db_revoke_def split: option.splits if_splits)
  with r show ?thesis by blast
qed

end
