(* ===== verification/StoreProps.thy ===== *)
theory StoreProps
  imports Examples
begin

text \<open>
  What makes the certificate store correct: the properties of the whole system, in any
  interleaving and under failing file calls, and of its single operations; each with an instance
  on the example CA.
\<close>

section \<open>The system\<close>

text \<open>C1: Whatever the interleaving of submissions, policy runs, operator calls (with no extensions of
  their own, or Puppet's), restarts and failing file calls, the serial numbers of the certificates issued since the CA was initialised
  increase strictly (so no two certificates share one), start at 2 and stay below the number in
  the serial file.\<close>

theorem issued_serials_increase:
  assumes "castore_init E fs0 dir name bits opts = (fs, Inr c)"
    and "\<And>n. valid_certname n \<Longrightarrow> file_at fs0 (request_path c n) = None"
    and "\<And>sl. slot_ok sl \<Longrightarrow> file_at fs0 (slot_path c sl) = None"
    and "sys_reach (sys_start c fs) t"
  shows "sorted_wrt (<) (map (\<lambda>i. crt_serial (is_cert i)) (sy_log t)) \<and>
    (\<exists>k. serial_now (sy_ca t) (sy_fs t) = Some k \<and>
       (\<forall>i \<in> set (sy_log t). 2 \<le> crt_serial (is_cert i) \<and> crt_serial (is_cert i) < k))"
proof -
  have "sys_inv t" by (rule reach_inv [OF assms(4) init_start_inv [OF assms(1-3)]])
  then obtain k where "cadir_at (sy_ca t) k (sy_fs t)" "log_ok (sy_ca t) k (sy_fs t) (sy_log t)"
    by (auto simp: sys_inv_def)
  then show ?thesis by (auto simp: cadir_at_def log_ok_def)
qed

theorem issued_serials_increase_witness:
  "sorted_wrt (<) (map (\<lambda>i. crt_serial (is_cert i)) (sy_log ex_end)) \<and> length (sy_log ex_end) = 1"
proof -
  have "sorted_wrt (<) (map (\<lambda>i. crt_serial (is_cert i)) (sy_log ex_end))"
    using issued_serials_increase [OF ex_init_ok ex_fs0_empty ex_reach [unfolded ex_start_def]] by simp
  with ex_issue show ?thesis by fastforce
qed

text \<open>C3: After any run of events in which operators who sign hand in no extensions of their own, or Puppet
  extensions that are not critical (every call in the repository hands in none; a Go caller who hands in
  others decides himself what the certificate says), each certificate on disk, under \<open>signed/\<close> or the
  server's own, is the encoding of a logged certificate of this CA: signed by its key, not a CA,
  not outliving the CA, with Puppet extensions only, for the name of its file; and it verifies
  against the CA certificate at any time within its own validity that the CA's has reached.\<close>

theorem stored_certificates_sound:
  assumes "castore_init E fs0 dir name bits opts = (fs, Inr c)"
    and "\<And>n. valid_certname n \<Longrightarrow> file_at fs0 (request_path c n) = None"
    and "\<And>sl. slot_ok sl \<Longrightarrow> file_at fs0 (slot_path c sl) = None"
    and "sys_run evs (sys_start c fs) = Some t"
    and "\<And>E n so. EvSign E n so \<in> set evs \<Longrightarrow>
      \<forall>e \<in> set (so_extra_exts so). is_puppet_oid (ext_id e) \<and> \<not> ext_critical e"
    and "slot_ok sl" and "file_at (sy_fs t) (slot_path (sy_ca t) sl) = Some b"
  shows "\<exists>crt. b = encode_cert crt \<and> issued_by (sy_ca t) crt \<and> slot_name sl crt \<and>
    (\<exists>i \<in> set (sy_log t). is_slot i = sl \<and> is_cert i = crt) \<and>
    (\<forall>now. time_valid now crt \<and> crt_not_before (ca_crt (sy_ca t)) \<le> now \<longrightarrow>
       x509_verify now [ca_crt (sy_ca t)] crt)"
proof -
  let ?c = "sy_ca t"
  have "list_all puppet_event evs"
    using assms(5) by (fastforce simp: list_all_iff puppet_event_def puppet_exts_def split: event.splits)
  from reach_inv [OF run_reach [OF assms(4) this] init_start_inv [OF assms(1-3)]] have "sys_inv t" .
  then obtain k where inv: "cadir_at ?c k (sy_fs t)" "log_ok ?c k (sy_fs t) (sy_log t)"
    by (auto simp: sys_inv_def)
  then obtain crt where crt: "b = encode_cert crt" "issued_by ?c crt" "slot_name sl crt"
    using assms(6,7) unfolding cadir_at_def certs_ok_def by blast
  have "slot_cert ?c (sy_fs t) sl = Some crt"
    using assms(7) crt by (simp add: slot_cert_encoded issued_by_def)
  with inv(2) assms(6) have logged: "\<exists>i \<in> set (sy_log t). is_slot i = sl \<and> is_cert i = crt"
    by (simp add: log_ok_def)
  have "ca_ok ?c" using inv(1) by (simp add: cadir_at_def)
  then have "x509_verify now [ca_crt ?c] crt"
    if "time_valid now crt" "crt_not_before (ca_crt ?c) \<le> now" for now
    using that crt(2)
    by (auto simp: x509_verify_def ca_ok_def issued_by_def time_valid_def check_signature_from_def
        no_unhandled_critical_def puppet_exts_def list_all_iff)
  with crt logged show ?thesis by blast
qed

theorem stored_certificates_sound_witness:
  "\<exists>b crt. file_at (sy_fs ex_end) (slot_path (sy_ca ex_end) (Host ''node1'')) = Some b \<and>
     b = encode_cert crt \<and> nm_cn (crt_subject crt) = ''node1''"
proof -
  have ok: "slot_ok (Host ''node1'')" using ex_valid by simp
  have "map_option (\<lambda>s. file_at (sy_fs s) (slot_path (sy_ca s) (Host ''node1'')) \<noteq> None)
      (sys_run ex_events ex_start) = Some True"
    by code_simp
  then obtain b where b: "file_at (sy_fs ex_end) (slot_path (sy_ca ex_end) (Host ''node1'')) = Some b"
    by (auto simp: ex_run)
  have none: "EvSign E n so \<notin> set ex_events" for E n so by (simp add: ex_events_def)
  from stored_certificates_sound [OF ex_init_ok ex_fs0_empty ex_run [unfolded ex_start_def] _ ok b] none b
  show ?thesis by auto
qed

text \<open>C2: With a policy executable, a certificate issued on the policy's word was issued for
  exactly the request the policy approved: some run of the policy on the input built from those
  very bytes approved it, the request's signature and name check, and the certificate carries
  that request's public key. No interleaving between the approval and the signing (a cleaned,
  replaced or deleted request) can change this, in the steps of \<open>CastoreSys\<close>.\<close>

theorem policy_issue_needs_approval:
  assumes "castore_init E fs0 dir name bits opts = (fs, Inr c)"
    and "\<And>n. valid_certname n \<Longrightarrow> file_at fs0 (request_path c n) = None"
    and "\<And>sl. slot_ok sl \<Longrightarrow> file_at fs0 (slot_path c sl) = None"
    and "sys_reach (sys_start c fs) t"
    and "i \<in> set (sy_log t)" and "is_cause i = ByPolicy pem"
  shows "\<exists>n req v ip. is_slot i = Host n \<and> decode_csr pem = Inr req \<and> csr_check_signature req \<and>
    nm_cn (csr_subject req) = n \<and> crt_pub (is_cert i) = csr_pub req \<and>
    v \<in> set (sy_verdicts t) \<and> vd_name v = n \<and> vd_csr v = pem \<and> vd_outcome v = PolicyApproved \<and>
    build_policy_input n req ip = Inr (vd_input v)"
proof -
  have "sys_inv t" by (rule reach_inv [OF assms(4) init_start_inv [OF assms(1-3)]])
  then have "policy_backed (set (sy_verdicts t)) i"
    using assms(5) by (auto simp: sys_inv_def list_all_iff)
  with assms(6) show ?thesis unfolding policy_backed_def input_for_def by fastforce
qed

theorem policy_issue_needs_approval_witness:
  "\<exists>i v. sy_log ex_end = [i] \<and> v \<in> set (sy_verdicts ex_end) \<and> vd_csr v = ex_csr_pem \<and>
     vd_outcome v = PolicyApproved"
proof -
  obtain i where i: "sy_log ex_end = [i]" "is_cause i = ByPolicy ex_csr_pem" using ex_issue by blast
  then have "i \<in> set (sy_log ex_end)" by simp
  from policy_issue_needs_approval [OF ex_init_ok ex_fs0_empty ex_reach [unfolded ex_start_def] this i(2)] i(1)
  show ?thesis by blast
qed


section \<open>The operations refine the data base\<close>

text \<open>C5: In a directory where no file call fails, signing, revoking, deleting, cleaning and the
  two critical sections of a submission are exactly the operations of the abstract data base of
  requests, certificates, next serial and revoked serials: same result, errors included, same
  change of state.\<close>

theorem store_refines_db:
  assumes "ready c fs" and "cadir_at c s fs" and "crt_ski (ca_crt c) \<noteq> []" and "valid_certname n"
  shows "(let (fs', e) = sign_locked E c fs n opts in (db_of c fs', e) = db_sign E c n opts (db_of c fs)) \<and>
    (let (fs', e) = ca_revoke E c fs n in (db_of c fs', e) = db_revoke n (db_of c fs)) \<and>
    (let (fs', e) = delete_csr c fs n in (db_of c fs', e) = db_delete n (db_of c fs)) \<and>
    (let (fs', e) = ca_clean c fs n in (db_of c fs', e) = db_clean n (db_of c fs)) \<and>
    (let (fs', r) = submit_store E c a fs n pem in (db_of c fs', outcome_of r) = db_submit E c a n pem (db_of c fs)) \<and>
    (let (fs', r) = submit_finish E c fs n pem in (db_of c fs', r) = db_finish E c n pem (db_of c fs))"
proof (intro conjI)
  have s: "serial_now c fs = Some s" using assms(2) by (simp add: cadir_at_def)
  show "let (fs', e) = sign_locked E c fs n opts in (db_of c fs', e) = db_sign E c n opts (db_of c fs)"
    using sign_locked_refines [OF assms(1,4) s] by (auto split: prod.splits)
  show "let (fs', e) = ca_revoke E c fs n in (db_of c fs', e) = db_revoke n (db_of c fs)"
    using revoke_refines [OF assms(1,2,3,4)] by (auto split: prod.splits)
  show "let (fs', e) = delete_csr c fs n in (db_of c fs', e) = db_delete n (db_of c fs)"
    using delete_refines [OF assms(1,4)] by (auto split: prod.splits)
  show "let (fs', e) = ca_clean c fs n in (db_of c fs', e) = db_clean n (db_of c fs)"
    using clean_refines [OF assms(1,2,4)] by (auto split: prod.splits)
  show "let (fs', r) = submit_store E c a fs n pem in (db_of c fs', outcome_of r) = db_submit E c a n pem (db_of c fs)"
    using submit_store_refines [OF assms(1,2,4)] by (auto split: prod.splits)
  show "let (fs', r) = submit_finish E c fs n pem in (db_of c fs', r) = db_finish E c n pem (db_of c fs)"
    using submit_finish_refines [OF assms(1,2,4)] by (auto split: prod.splits)
qed

theorem store_refines_db_witness:
  "snd (submit_finish ex_env ex_ca ex_fs ''node1'' ex_csr_pem) = Inr False \<and>
   snd (ca_clean ex_ca ex_fs ''node1'') = Some ENotFound"
proof -
  have none: "db_req (db_of ex_ca ex_fs) ''node1'' = None" "db_cert (db_of ex_ca ex_fs) ''node1'' = None"
    using ex_valid by (simp_all add: db_of_fields request_path_eq signed_path_eq slot_cert_def ex_dir sub_path_def
        file_at_def ex_fs_def)
  from store_refines_db [OF ex_ready ex_cadir ex_ski ex_valid, of ex_env default_sign_opts "autosign_snapshot ex_ca" ex_csr_pem] none
  show ?thesis
    by (cases "submit_finish ex_env ex_ca ex_fs ''node1'' ex_csr_pem"; cases "ca_clean ex_ca ex_fs ''node1''")
      (simp add: db_clean_def db_finish_def)
qed

section \<open>Revocation and status\<close>

text \<open>C11: After a revocation that succeeds, the serial of the name's certificate is in the
  revocation list on disk together with every serial listed before, the list carries the CA's
  name and signature, the status of the name is \<open>revoked\<close>, and revoking again changes
  nothing.\<close>

theorem revoke_lists_serial:
  assumes "ready c fs" and "cadir_at c s fs" and "crt_ski (ca_crt c) \<noteq> []" and "valid_certname n"
    and "ca_revoke E c fs n = (fs', None)"
  shows "\<exists>crt st b. slot_cert c fs (Host n) = Some crt \<and>
    set (map re_serial (read_revoked c fs')) = insert (crt_serial crt) (set (map re_serial (read_revoked c fs))) \<and>
    ca_crl c fs' = Inr b \<and> crl_ok c b \<and>
    ca_status E2 c fs' n = Inr st \<and> State st = StateRevoked \<and> SerialNumber st = show_int (crt_serial crt) \<and>
    ca_revoke E2 c fs' n = (fs', None)"
proof -
  note ref = revoke_refines [OF assms]
  obtain crt where crt: "slot_cert c fs (Host n) = Some crt"
    using ref assms(4) by (auto simp: db_revoke_def db_of_fields split: option.splits)
  have db': "db_of c fs' = fst (db_revoke n (db_of c fs))" using ref by (metis fst_conv)
  have revoked: "set (map re_serial (read_revoked c fs')) = insert (crt_serial crt) (set (map re_serial (read_revoked c fs)))"
    using arg_cong [OF db', of db_revoked] crt assms(4)
    by (auto simp: db_revoke_def db_of_def split: if_splits)
  have rdy': "ready c fs'" using ref by simp
  have inv': "cadir_at c s fs'" using ca_revoke_ok [OF assms(2,5)] by (simp add: ok_step_def)
  then obtain b where "file_at fs' (top_file c ''ca_crl.pem'') = Some b" and b: "crl_ok c b"
    by (auto simp: cadir_at_def)
  then have crl: "ca_crl c fs' = Inr b" using rdy' by (simp add: ca_crl_def ca_path_top ready_read)
  have crt': "slot_cert c fs' (Host n) = Some crt"
    using crt ca_revoke_ok [OF assms(2,5)] assms(4) by (simp add: ok_step_def)
  have "certs_ok c s fs'" using inv' by (simp add: cadir_at_def)
  from certs_ok_slot(1,2) [OF this _ crt'] assms(4)
  have at: "os_read_file fs' (signed_path c n) = Inr (encode_cert crt)" and wf: "decode_cert (encode_cert crt) = Inr crt"
    using rdy' by (auto simp: ready_read issued_by_def decode_encode_cert)
  have listed: "\<exists>r \<in> set (read_revoked c fs'). re_serial r = crt_serial crt"
    using revoked by (metis (no_types, lifting) image_iff insertI1 list.set_map)
  then have "\<exists>st. ca_status E2 c fs' n = Inr st \<and> State st = StateRevoked \<and> SerialNumber st = show_int (crt_serial crt)"
    using assms(4) at wf
    by (auto simp: ca_status_def status_locked_def fill_cert_fields_def Let_def foldl_revoked_state)
  moreover have "ca_revoke E2 c fs' n = (fs', None)"
    using assms(4) at wf listed by (auto simp: ca_revoke_def Let_def list_ex_iff)
  ultimately show ?thesis using crt revoked crl b by blast
qed


theorem revoke_lists_serial_witness:
  "\<exists>fs' crt. ca_revoke ex_env ex_ca ex_signed ''node1'' = (fs', None) \<and>
     slot_cert ex_ca ex_signed (Host ''node1'') = Some crt \<and>
     crt_serial crt \<in> set (map re_serial (read_revoked ex_ca fs'))"
proof -
  obtain s where s: "cadir_at ex_ca s ex_signed" using ex_signed_inv(2) by blast
  obtain fs' where r: "ca_revoke ex_env ex_ca ex_signed ''node1'' = (fs', None)" using ex_revoke by blast
  from revoke_lists_serial [OF ex_signed_inv(1) s ex_ski ex_valid r, of ex_env] r show ?thesis by blast
qed

section \<open>Submission\<close>

text \<open>C10: Whatever other callers do to the store while the policy runs, a submission that returns
  \<open>true\<close> under a policy has its request approved by the policy on the input built from its
  own bytes, and the certificate now on disk under its name is for the public key of that
  request, with the signature checked.\<close>

theorem approved_submission_signs_its_csr:
  assumes "submit_csr E run others c fs n pem ip = (fs', Inr True)"
    and "ca_autosign_all c" and "ca_policy_exe c \<noteq> []"
  shows "\<exists>req i crt. decode_csr pem = Inr req \<and> csr_check_signature req \<and>
    nm_cn (csr_subject req) = n \<and> build_policy_input n req ip = Inr i \<and>
    pr_outcome (run_autosign_policy run (ca_policy_exe c) (ca_policy_timeout c) i) = PolicyApproved \<and>
    slot_cert c fs' (Host n) = Some crt \<and> crt_pub crt = csr_pub req \<and> nm_cn (crt_subject crt) = n \<and>
    crt_exts crt = allowed_from_csr (csr_exts req)"
proof -
  let ?a = "autosign_snapshot c"
  obtain inp where chk: "submit_check ?a n pem ip = Inr inp"
    using assms(1) by (auto simp: submit_csr_def Let_def split: sum.splits)
  note n = submit_check_req_ok(1) [OF chk]
  obtain req i where req: "decode_csr pem = Inr req" "csr_check_signature req" "nm_cn (csr_subject req) = n"
    and i: "build_policy_input n req ip = Inr i" "inp = Some i"
    using chk assms(2,3) by (auto simp: submit_check_def autosign_snapshot_def split: sum.splits if_splits)
  have ask: "snd (submit_store E c ?a fs n pem) \<noteq> SubmitDone (Inr True)"
    using assms(2,3) by (auto simp: submit_store_def autosign_snapshot_def Let_def split: sum.splits option.splits prod.splits)
  obtain fs1 where out: "pr_outcome (run_autosign_policy run (ca_policy_exe c) (ca_policy_timeout c) i) = PolicyApproved"
    and fin: "submit_finish E c (others fs1) n pem = (fs', Inr True)"
    using assms(1) chk i ask
    by (auto simp: submit_csr_def Let_def autosign_snapshot_def
        split: prod.splits store_outcome.splits option.splits if_splits)
  then have rd: "os_read_file (others fs1) (request_path c n) = Inr pem"
    and sg: "sign_locked E c (others fs1) n (autosign_opts c) = (fs', None)"
    by (auto simp: submit_finish_def split: sum.splits if_splits prod.splits option.splits)
  obtain leaf where leaf: "sign_leaf E c (others fs1) n (autosign_opts c) = (fs', Inr leaf)"
    using sg by (cases "sign_leaf E c (others fs1) n (autosign_opts c)")
      (auto simp: sign_locked_def err_of_def split: sum.splits)
  show ?thesis
  proof (rule sign_leaf_done [OF leaf n])
    fix pem2 req2 s
    assume a: "file_at (others fs1) (request_path c n) = Some pem2" "decode_csr pem2 = Inr req2"
      "sign_csr E req2 (ca_crt c) (ca_key c) (autosign_opts c\<lparr>so_serial := Some s,
         so_extra_exts := so_extra_exts (autosign_opts c) @ allowed_from_csr (csr_exts req2)\<rparr>) = Inr leaf"
      "file_at fs' (signed_path c n) = Some (encode_cert leaf)"
    have "req2 = req" using a(1,2) req(1) osf.rd_found [OF rd] by simp
    moreover have "so_extra_exts (autosign_opts c) = []" by (simp add: autosign_opts_def default_sign_opts_def)
    ultimately have sc: "sign_csr E req (ca_crt c) (ca_key c)
        (autosign_opts c\<lparr>so_serial := Some s, so_extra_exts := allowed_from_csr (csr_exts req)\<rparr>) = Inr leaf"
      using a(3) by simp
    note iss = sign_csr_issued [OF sc puppet_allowed]
    have "slot_cert c fs' (Host n) = Some leaf"
      using a(4) iss(1) by (simp add: slot_cert_encoded issued_by_def)
    with req i(1) out iss show ?thesis by auto
  qed
qed

theorem approved_submission_signs_its_csr_witness:
  "\<exists>crt. slot_cert ex_ca (fst (submit_csr ex_env ex_approve id ex_ca ex_fs ''node1'' ex_csr_pem ''10.0.0.9''))
     (Host ''node1'') = Some crt \<and> crt_pub crt = csr_pub ex_csr"
proof -
  let ?r = "submit_csr ex_env ex_approve id ex_ca ex_fs ''node1'' ex_csr_pem ''10.0.0.9''"
  have "snd ?r = Inr True" by code_simp
  then have r: "?r = (fst ?r, Inr True)" by (metis prod.collapse)
  have "ca_autosign_all ex_ca" "ca_policy_exe ex_ca \<noteq> []" by (simp_all add: ex_ca_def ex_exe_def)
  from approved_submission_signs_its_csr [OF r this]
  show ?thesis by (auto simp: ex_csr_pem_def decode_csr_def parse_csr_def ex_csr_def oid_fits_def)
qed

text \<open>With a policy that does not approve (denial, time-out or error), a well-formed request
  is stored and left pending: the call reports \<open>false\<close> without an error, the state the
  other callers made is not touched after the policy's answer, and with no other caller the only
  change is the pending request.\<close>

lemma unapproved_submission_stays_pending:
  assumes "ready c fs" and "cadir_at c s fs"
    and "submit_check (autosign_snapshot c) n pem ip = Inr (Some i)"
    and "pr_outcome (run_autosign_policy run (ca_policy_exe c) (ca_policy_timeout c) i) \<noteq> PolicyApproved"
    and "db_cert (db_of c fs) n = None" and "db_req (db_of c fs) n = None"
  shows "\<exists>fs1. submit_csr E run others c fs n pem ip = (others fs1, Inr False) \<and>
    db_of c fs1 = (db_of c fs)\<lparr>db_req := (db_req (db_of c fs))(n \<mapsto> pem)\<rparr> \<and> get_csr c fs1 n = Inr pem"
proof -
  let ?a = "autosign_snapshot c"
  have n: "valid_certname n" by (rule submit_check_req_ok(1) [OF assms(3)])
  have pol: "as_all ?a" "as_exe ?a \<noteq> []"
    using assms(3) by (auto simp: submit_check_def split: if_splits sum.splits)
  obtain fs1 r where st: "submit_store E c ?a fs n pem = (fs1, r)" by fastforce
  note ref = submit_store_refines [OF assms(1,2) n st]
  have "db_submit E c ?a n pem (db_of c fs) = ((db_of c fs)\<lparr>db_req := (db_req (db_of c fs))(n \<mapsto> pem)\<rparr>, None)"
    using assms(5,6) pol by (simp add: db_submit_def Let_def)
  with ref have db1: "db_of c fs1 = (db_of c fs)\<lparr>db_req := (db_req (db_of c fs))(n \<mapsto> pem)\<rparr>"
    and r: "r = AskPolicy" by (auto simp: outcome_of_def split: store_outcome.splits)
  have "file_at fs1 (request_path c n) = Some pem" using arg_cong [OF db1, of db_req] n
    by (metis db.simps(1) db.update_convs(1) db_of_fields(1) fun_upd_same db.ext_inject db.surjective)
  then have "get_csr c fs1 n = Inr pem" using ready_read [OF conjunct1 [OF ref]] n by (simp add: get_csr_def)
  moreover have "submit_csr E run others c fs n pem ip = (others fs1, Inr False)"
    using assms(3,4) st r by (simp add: submit_csr_def autosign_snapshot_def Let_def)
  ultimately show ?thesis using db1 by blast
qed


lemma ex_empty_db: "db_req (db_of ex_ca ex_fs) ''node1'' = None" "db_cert (db_of ex_ca ex_fs) ''node1'' = None"
  using ex_valid by (simp_all add: db_of_fields request_path_eq signed_path_eq slot_cert_def ex_dir sub_path_def
      file_at_def ex_fs_def)

lemma unapproved_submission_stays_pending_example:
  "\<exists>fs1. submit_csr ex_env ex_deny id ex_ca ex_fs ''node1'' ex_csr_pem ''10.0.0.9'' = (fs1, Inr False) \<and>
     get_csr ex_ca fs1 ''node1'' = Inr ex_csr_pem"
proof -
  have "\<exists>i. submit_check (autosign_snapshot ex_ca) ''node1'' ex_csr_pem ''10.0.0.9'' = Inr (Some i)"
  proof -
    have "(case submit_check (autosign_snapshot ex_ca) ''node1'' ex_csr_pem ''10.0.0.9'' of
        Inr (Some i) \<Rightarrow> True | _ \<Rightarrow> False)" by code_simp
    then show ?thesis by (auto split: sum.splits option.splits)
  qed
  then obtain i where i: "submit_check (autosign_snapshot ex_ca) ''node1'' ex_csr_pem ''10.0.0.9'' = Inr (Some i)" ..
  have "pr_outcome (run_autosign_policy ex_deny (ca_policy_exe ex_ca) (ca_policy_timeout ex_ca) i) \<noteq> PolicyApproved"
    by (simp add: policy_approved_iff ex_deny_def Let_def)
  from unapproved_submission_stays_pending [OF ex_ready ex_cadir i this ex_empty_db(2,1), of ex_env id]
  show ?thesis by auto
qed

text \<open>C25: Submitting for a name that is taken. A name with a certificate refuses every submission, and
  a name with a pending request every submission of other bytes, whatever the autosign setting, and
  nothing changes. The very bytes that are pending are taken as the first time: without autosign
  nothing changes and the answer is \<open>false\<close> again; with a policy nothing has changed when the
  policy is asked again; under blanket autosign the pending request is signed now, or the
  signing's error returned.\<close>

theorem resubmission:
  assumes "ready c fs" and "cadir_at c s fs" and "valid_certname n"
  shows "(db_cert (db_of c fs) n \<noteq> None \<longrightarrow>
       submit_store E c a fs n pem =
         (fs, SubmitDone (Inl (EMsg (''certificate already signed for '' @ go_quote n))))) \<and>
    (db_cert (db_of c fs) n = None \<and> db_req (db_of c fs) n = Some old \<and> old \<noteq> pem \<longrightarrow>
       submit_store E c a fs n pem =
         (fs, SubmitDone (Inl (EMsg (''a different certificate request already exists for '' @ go_quote n))))) \<and>
    (db_cert (db_of c fs) n = None \<and> db_req (db_of c fs) n = Some pem \<longrightarrow>
       (\<exists>fs' r. submit_store E c a fs n pem = (fs', r) \<and>
          (if \<not> as_all a then r = SubmitDone (Inr False) \<and> db_of c fs' = db_of c fs
           else if as_exe a \<noteq> [] then r = AskPolicy \<and> db_of c fs' = db_of c fs
           else \<exists>e. db_sign E c n (autosign_opts c) (db_of c fs) = (db_of c fs', e) \<and>
                  r = SubmitDone (case e of None \<Rightarrow> Inr True | Some err \<Rightarrow> Inl err))))"
proof -
  note cert = slot_cert_present [OF assms(2,3)] stat_read [OF assms(1,3)]
  have rd: "os_read_file fs (request_path c n) = (case file_at fs (request_path c n) of
      None \<Rightarrow> Inl (ENotExist (''open '' @ path_string (request_path c n))) | Some b \<Rightarrow> Inr b)"
    using ready_read [OF assms(1)] assms(3) by simp
  have "submit_store E c a fs n pem = (fs, SubmitDone (Inl (EMsg (''certificate already signed for '' @ go_quote n))))"
    if "db_cert (db_of c fs) n \<noteq> None"
    using that cert assms(3) by (simp add: submit_store_def db_of_fields)
  moreover have "submit_store E c a fs n pem =
      (fs, SubmitDone (Inl (EMsg (''a different certificate request already exists for '' @ go_quote n))))"
    if "db_cert (db_of c fs) n = None" "db_req (db_of c fs) n = Some old" "old \<noteq> pem"
    using that cert rd assms(3) by (auto simp: submit_store_def db_of_fields Let_def)
  moreover obtain fs' r where st: "submit_store E c a fs n pem = (fs', r)" by fastforce
  moreover have "if \<not> as_all a then r = SubmitDone (Inr False) \<and> db_of c fs' = db_of c fs
       else if as_exe a \<noteq> [] then r = AskPolicy \<and> db_of c fs' = db_of c fs
       else \<exists>e. db_sign E c n (autosign_opts c) (db_of c fs) = (db_of c fs', e) \<and>
              r = SubmitDone (case e of None \<Rightarrow> Inr True | Some err \<Rightarrow> Inl err)"
    if pend: "db_cert (db_of c fs) n = None" "db_req (db_of c fs) n = Some pem"
  proof -
    have "(db_of c fs)\<lparr>db_req := (db_req (db_of c fs))(n \<mapsto> pem)\<rparr> = db_of c fs"
      using pend(2) by (simp add: fun_upd_idem)
    with submit_store_refines [OF assms st] pend show ?thesis
      by (cases r) (auto simp: db_submit_def Let_def outcome_of_def split: if_splits prod.splits option.splits)
  qed
  ultimately show ?thesis by blast
qed

definition ex_pending :: "bytes os" where
  "ex_pending = fst (submit_store ex_env ex_ca (autosign_snapshot ex_ca) ex_fs ''node1'' ex_csr_pem)"

theorem resubmission_witness:
  "\<exists>fs1 fs2. submit_store ex_env ex_ca (ex_blanket\<lparr>as_all := False\<rparr>) ex_pending ''node1'' ex_csr_pem = (fs1, SubmitDone (Inr False)) \<and>
     db_of ex_ca fs1 = db_of ex_ca ex_pending \<and>
     submit_store ex_env ex_ca (autosign_snapshot ex_ca) ex_pending ''node1'' ex_csr_pem = (fs2, AskPolicy) \<and>
     db_of ex_ca fs2 = db_of ex_ca ex_pending \<and>
     submit_store ex_env ex_ca ex_blanket ex_pending ''node1'' [] =
       (ex_pending, SubmitDone (Inl (EMsg (''a different certificate request already exists for '' @ go_quote ''node1''))))"
proof -
  let ?a = "autosign_snapshot ex_ca"
  have a: "as_all ?a" "as_exe ?a \<noteq> []" by (simp_all add: autosign_snapshot_def ex_ca_def ex_exe_def)
  obtain r where r: "submit_store ex_env ex_ca ?a ex_fs ''node1'' ex_csr_pem = (ex_pending, r)"
    by (metis ex_pending_def prod.collapse)
  note ref = submit_store_refines [OF ex_ready ex_cadir ex_valid r]
  have rdy: "ready ex_ca ex_pending" using ref by simp
  obtain s where s: "cadir_at ex_ca s ex_pending"
    using submit_store_ok [OF ex_cadir ex_valid ex_req_ok r] by (auto simp: ok_step_def)
  have d: "db_cert (db_of ex_ca ex_pending) ''node1'' = None" "db_req (db_of ex_ca ex_pending) ''node1'' = Some ex_csr_pem"
    using ref a ex_empty_db by (simp_all add: db_submit_def Let_def)
  have "ex_csr_pem \<noteq> []" by (simp add: ex_csr_pem_def)
  with d resubmission [OF rdy s ex_valid, of ex_env ex_blanket "[]" ex_csr_pem]
    resubmission [OF rdy s ex_valid, of ex_env "ex_blanket\<lparr>as_all := False\<rparr>" ex_csr_pem "[]"]
    resubmission [OF rdy s ex_valid, of ex_env ?a ex_csr_pem "[]"] a
  show ?thesis by simp
qed


section \<open>Initialisation, options, paths\<close>

text \<open>C26: A CA that was just initialised can be opened again, with the same key and certificate
  and the options of the new call; a second \<open>Init\<close> over it is refused and changes nothing.\<close>

theorem init_then_open:
  assumes "castore_init E fs dir name bits opts = (fs', Inr c)" and "no_faults fs"
    and "validate_options fs' opts2 = Inr o2"
  shows "castore_open fs' dir opts2 = Inr (new_ca dir (ca_key c) (ca_crt c) o2) \<and>
    castore_init E2 fs' dir name2 bits2 opts2 = (fs', Inl (EMsg (''CA already initialized at '' @ dir)))"
proof
  show "castore_open fs' dir opts2 = Inr (new_ca dir (ca_key c) (ca_crt c) o2)"
    by (rule open_after_init [OF assms])
  show "castore_init E2 fs' dir name2 bits2 opts2 = (fs', Inl (EMsg (''CA already initialized at '' @ dir)))"
    using assms(1)
  proof (rule init_done)
    fix opts' key crt crl
    assume c: "c = new_ca dir key crt opts'" and ft: "os_fault fs' = os_fault fs"
      and at: "\<And>q. q \<noteq> top_file c ''inventory.txt'' \<Longrightarrow> file_at fs' q =
       ((file_at fs)(top_file c ''ca_crt.pem'' \<mapsto> encode_cert crt,
         top_file c ''ca_key.pem'' \<mapsto> encode_private_key key,
         top_file c ''ca_pub.pem'' \<mapsto> pem_encode ''PUBLIC KEY'' (SpkiDER (priv_public key)),
         top_file c ''serial'' \<mapsto> serial_file 2, top_file c ''ca_crl.pem'' \<mapsto> crl)) q"
    have "filepath_join [dir, ''ca_crt.pem''] = top_file c ''ca_crt.pem''"
      by (simp add: ca_path_new [of _ _ key crt opts'] c [symmetric] ca_path_top)
    moreover have "file_at fs' (top_file c ''ca_crt.pem'') = Some (encode_cert crt)" using at by simp
    then have "os_stat fs' (top_file c ''ca_crt.pem'') = Inr False"
      using assms(2) ft by (auto simp: os_stat_def no_faults_def file_at_def split: if_splits)
    ultimately show ?thesis using assms(3) by (simp add: castore_init_def)
  qed
qed

theorem init_then_open_witness:
  "castore_open ex_fs ''/ca'' ex_opts = Inr ex_ca"
proof -
  have nf: "no_faults ex_fs0" by (simp add: no_faults_def ex_fs0_def)
  have v: "validate_options ex_fs ex_opts = Inr (ex_opts\<lparr>op_policy_timeout := defaultAutosignPolicyTimeout\<rparr>)"
    by code_simp
  have "new_ca ''/ca'' (ca_key ex_ca) (ca_crt ex_ca) (ex_opts\<lparr>op_policy_timeout := defaultAutosignPolicyTimeout\<rparr>) = ex_ca"
    by code_simp
  with init_then_open [OF ex_init_ok nf v] show ?thesis by simp
qed

text \<open>The options are accepted in exactly these cases, and only a missing time limit is filled
  in: no policy and no limit, or blanket autosign with an absolute path to an existing file that is
  no directory; a negative limit never.\<close>

lemma validate_options_iff:
  "validate_options fs opts = Inr opts' \<longleftrightarrow>
     0 \<le> op_policy_timeout opts \<and>
     (if op_policy_exe opts = [] then op_policy_timeout opts = 0 \<and> opts' = opts
      else op_autosign_all opts \<and> is_abs (op_policy_exe opts) \<and>
        os_stat fs (filepath_clean (op_policy_exe opts)) = Inr False \<and>
        opts' = opts\<lparr>op_policy_timeout :=
          (if op_policy_timeout opts = 0 then defaultAutosignPolicyTimeout else op_policy_timeout opts)\<rparr>)"
  by (auto simp: validate_options_def split: sum.splits if_splits)

text \<open>C37: A valid certificate name never leaves its directory: the request and the certificate of
  a name are exactly one component below \<open>requests/\<close> and \<open>signed/\<close> of the cleaned cadir,
  different names have different files, and none of them is another file of the CA.\<close>

theorem names_stay_in_their_directory:
  assumes "valid_certname n" and "valid_certname m"
  shows "signed_path c n = sub_path (filepath_clean (ca_dir c)) [''signed'', n @ ''.pem''] \<and>
    request_path c n = sub_path (filepath_clean (ca_dir c)) [''requests'', n @ ''.pem''] \<and>
    (signed_path c n = signed_path c m \<longleftrightarrow> n = m) \<and> (request_path c n = request_path c m \<longleftrightarrow> n = m) \<and>
    signed_path c n \<noteq> request_path c m \<and>
    (\<forall>t. signed_path c n \<noteq> top_file c t \<and> request_path c n \<noteq> top_file c t)"
  using assms by (auto simp: signed_path_eq request_path_eq top_file_def)

theorem names_stay_in_their_directory_witness:
  "signed_path ex_ca ''node1'' = Path True [''ca'', ''signed'', ''node1.pem'']"
  using names_stay_in_their_directory [OF ex_valid ex_valid, of ex_ca] by (simp add: ex_dir sub_path_def)

section \<open>Listing\<close>

lemma trim_suffix_append: "trim_suffix p (n @ p) = n"
  by (simp add: trim_suffix_def has_suffix_def has_prefix_def)

lemma statuses_of_distinct:
  assumes "distinct ns"
  shows "distinct (map Name (statuses_of E c fs revoked ns))"
proof -
  let ?f = "\<lambda>n. res_opt (status_with_revoked E c fs n revoked)"
  have "distinct (map Name (List.map_filter ?f ns))"
    using assms
  proof (induction ns)
    case (Cons a ns)
    have "Name st \<noteq> a" if "st \<in> set (List.map_filter ?f ns)" for st
      using that Cons.prems by (auto simp: set_map_filter_option res_opt_Some dest: status_name)
    moreover have "Name st = a" if "?f a = Some st" for st
      using that by (auto simp: res_opt_Some dest: status_name)
    ultimately show ?case using Cons by (auto simp: List.map_filter_simps split: option.splits)
  qed (simp add: List.map_filter_simps)
  moreover have "mset (map Name (statuses_of E c fs revoked ns)) = mset (map Name (List.map_filter ?f ns))"
    by (simp add: statuses_of_def)
  ultimately show ?thesis using mset_eq_imp_distinct_iff by blast
qed

lemma set_statuses_of:
  "st \<in> set (statuses_of E c fs (read_revoked c fs) ns) \<longleftrightarrow> (\<exists>n \<in> set ns. status_locked E c fs n = Inr st)"
  by (simp add: statuses_of_def set_map_filter_option res_opt_Some status_locked_eq)

text \<open>C38: A listing that succeeds is sorted by name with no name twice, holds only what the status
  call reports for that name, and holds every valid name that has a request or a certificate on
  disk and a status that can be computed. The order in which the names are collected does not
  show.\<close>

theorem statuses_listing:
  assumes "ca_statuses E c fs = Inr sts"
  shows "sorted_wrt (<) (map Name sts) \<and> (\<forall>st \<in> set sts. status_locked E c fs (Name st) = Inr st) \<and>
    (\<forall>n st. valid_certname n \<and> (file_at fs (signed_path c n) \<noteq> None \<or> file_at fs (request_path c n) \<noteq> None) \<and>
       ca_status E c fs n = Inr st \<longrightarrow> st \<in> set sts)"
proof -
  obtain es1 es2 where es: "os_read_dir fs (ca_path c [''signed'']) = Inr es1"
    "os_read_dir fs (ca_path c [''requests'']) = Inr es2"
    and sts: "sts = statuses_of E c fs (read_revoked c fs) (remdups (map (\<lambda>(n, d). trim_suffix ''.pem'' n) (es1 @ es2)))"
    using assms by (auto simp: ca_statuses_def split: sum.splits)
  let ?ns = "remdups (map (\<lambda>(n, d). trim_suffix ''.pem'' n) (es1 @ es2))"
  have mem: "st \<in> set sts \<longleftrightarrow> (\<exists>n \<in> set ?ns. status_locked E c fs n = Inr st)" for st
    unfolding sts by (rule set_statuses_of)
  have nm: "status_locked E c fs n = Inr st \<Longrightarrow> Name st = n" for n st
    by (simp add: status_locked_eq status_name)
  have "distinct (map Name sts)" unfolding sts by (rule statuses_of_distinct) simp
  moreover have "sorted (map Name sts)" by (simp add: sts statuses_of_def)
  ultimately have "sorted_wrt (<) (map Name sts)" by (simp add: strict_sorted_iff)
  moreover have "status_locked E c fs (Name st) = Inr st" if "st \<in> set sts" for st
    using that nm mem by blast
  moreover have "st \<in> set sts" if n: "valid_certname n" "ca_status E c fs n = Inr st"
    and on_disk: "file_at fs (signed_path c n) \<noteq> None \<or> file_at fs (request_path c n) \<noteq> None" for n st
  proof -
    let ?d = "filepath_clean (ca_dir c)"
    have "n @ ''.pem'' \<in> fst ` set es1 \<or> n @ ''.pem'' \<in> fst ` set es2"
      using on_disk os_read_dir_files [of fs "sub_path ?d [''signed'']" es1 "n @ ''.pem''"]
        os_read_dir_files [of fs "sub_path ?d [''requests'']" es2 "n @ ''.pem''"] es n(1)
      by (auto simp: signed_path_eq request_path_eq ca_path_top top_file_def sub_path_def)
    then have "n @ ''.pem'' \<in> fst ` set (es1 @ es2)" by (simp add: image_Un)
    then obtain x where x: "n @ ''.pem'' = fst x" "x \<in> set (es1 @ es2)" by (rule imageE)
    have "(case x of (n, d) \<Rightarrow> trim_suffix ''.pem'' n) = n"
      using trim_suffix_append [of "''.pem''" n] by (simp add: x(1) [symmetric] case_prod_beta)
    with x(2) have "n \<in> (\<lambda>(n, d). trim_suffix ''.pem'' n) ` set (es1 @ es2)" by (metis imageI)
    then have "n \<in> set ?ns" by (simp only: set_remdups set_map)
    with n show ?thesis unfolding mem by (auto simp: ca_status_def)
  qed
  ultimately show ?thesis by blast
qed

theorem statuses_listing_witness:
  "\<exists>sts. ca_statuses ex_env ex_ca ex_signed = Inr sts \<and> sorted_wrt (<) (map Name sts) \<and> length sts = 1"
proof -
  have "(case ca_statuses ex_env ex_ca ex_signed of Inr sts \<Rightarrow> length sts = 1 | _ \<Rightarrow> False)" by code_simp
  then obtain sts where "ca_statuses ex_env ex_ca ex_signed = Inr sts" "length sts = 1"
    by (auto split: sum.splits)
  with statuses_listing [OF this(1)] show ?thesis by blast
qed

end
