(* ===== verification/PkiProps.thy ===== *)
theory PkiProps
  imports Examples
begin

text \<open>
  Properties of the PKI primitives, the Puppet extensions and the autosign policy: what a
  signature puts into a certificate, that trusted facts survive from the agent's map to the
  certificate, and what the policy sees.
\<close>

section \<open>Signing\<close>

text \<open>Signing succeeds in exactly these cases: the request's signature checks, its key is RSA,
  the serial is not negative, no extension comes twice or has an identifier
  too large to be read back, every DNS name is ASCII and the CA's key
  belongs to its certificate; and then the leaf is exactly this certificate, of which only the
  common name, the public key and the permitted names come from the request.\<close>

lemma sign_csr_exactly:
  "sign_csr E c ca k opts = Inr crt \<longleftrightarrow>
     (\<exists>s pub. csr_check_signature c \<and> leaf_serial E opts = Inr s \<and> 0 \<le> s \<and>
        csr_pub c = RSAKey pub \<and> list_all is_ia5 (fst (leaf_sans c opts)) \<and>
        crt_pub ca = RSAKey (priv_public k) \<and> ids_fit (so_extra_exts opts) \<and>
        distinct (map ext_id (so_extra_exts opts)) \<and>
        crt = \<lparr>crt_serial = s, crt_issuer = crt_subject ca,
          crt_subject = \<lparr>nm_cn = nm_cn (csr_subject c), nm_rest = []\<rparr>,
          crt_not_before = trunc_second (env_now E - hour),
          crt_not_after = trunc_second (min
            (env_now E + (if so_ttl opts \<le> 0 then DefaultCATTL else so_ttl opts)) (crt_not_after ca)),
          crt_pub = RSAKey pub, crt_key_usage = [DigitalSignature, KeyEncipherment],
          crt_ext_key_usage = [EkuServerAuth, EkuClientAuth], crt_bc_valid = True, crt_is_ca = False,
          crt_ski = env_sha1 E (RsaPubDER pub), crt_dns = fst (leaf_sans c opts),
          crt_ips = map san_ip (snd (leaf_sans c opts)), crt_exts = so_extra_exts opts,
          crt_signer = Some (RSAKey (priv_public k))\<rparr>)"
  unfolding sign_csr_Inr leaf_of_def Let_def ..

text \<open>One name added: what it can put into the template, and that it does.\<close>

definition ips_of :: "string set \<Rightarrow> ip set" where
  "ips_of ss = {i. \<exists>s \<in> ss. parse_ip (trim_space s) = Some i}"

lemma ips_of_Un: "ips_of (a \<union> b) = ips_of a \<union> ips_of b"
  by (auto simp: ips_of_def)

lemma ips_of_insert: "ips_of (insert s a) = ips_of {s} \<union> ips_of a" "ips_of {} = {}"
  by (auto simp: ips_of_def)

definition named :: "string \<Rightarrow> string list \<Rightarrow> ip list \<Rightarrow> bool" where
  "named s dns ips \<longleftrightarrow> (case parse_ip (trim_space s) of None \<Rightarrow> trim_space s \<in> set dns | Some i \<Rightarrow> i \<in> set ips)"

lemma sign_add_name_shape:
  assumes "sign_add_name (dns, ips) raw = (dns', ips')"
  shows "set dns \<subseteq> set dns' \<and> set dns' \<subseteq> insert (trim_space raw) (set dns) \<and> (distinct dns \<longrightarrow> distinct dns')"
    and "set ips \<subseteq> set ips' \<and> set ips' \<subseteq> set ips \<union> ips_of {raw}"
    and "trim_space raw \<noteq> [] \<Longrightarrow> named raw dns' ips'"
  using assms by (auto simp: sign_add_name_def named_def ips_of_def Let_def split: if_splits option.splits)

lemma named_mono: "named s dns ips \<Longrightarrow> set dns \<subseteq> set dns' \<Longrightarrow> set ips \<subseteq> set ips' \<Longrightarrow> named s dns' ips'"
  by (auto simp: named_def split: option.splits)

lemma foldl_add_names:
  assumes "foldl sign_add_name (dns, ips) raws = (dns', ips')"
  shows "set dns \<subseteq> set dns' \<and> set dns' \<subseteq> set dns \<union> trim_space ` set raws \<and> (distinct dns \<longrightarrow> distinct dns')"
    and "set ips \<subseteq> set ips' \<and> set ips' \<subseteq> set ips \<union> ips_of (set raws)"
    and "r \<in> set raws \<Longrightarrow> trim_space r \<noteq> [] \<Longrightarrow> named r dns' ips'"
proof -
  have "set dns \<subseteq> set dns' \<and> set dns' \<subseteq> set dns \<union> trim_space ` set raws \<and> (distinct dns \<longrightarrow> distinct dns') \<and>
      set ips \<subseteq> set ips' \<and> set ips' \<subseteq> set ips \<union> ips_of (set raws) \<and>
      (\<forall>r \<in> set raws. trim_space r \<noteq> [] \<longrightarrow> named r dns' ips')"
    using assms
  proof (induction raws arbitrary: dns ips)
    case (Cons r raws)
    obtain dns1 ips1 where 1: "sign_add_name (dns, ips) r = (dns1, ips1)" by fastforce
    with Cons.prems have "foldl sign_add_name (dns1, ips1) raws = (dns', ips')" by simp
    note ih = Cons.IH [OF this] and s = sign_add_name_shape [OF 1]
    have "trim_space r \<noteq> [] \<longrightarrow> named r dns' ips'" using s(3) ih named_mono [of r dns1 ips1] by blast
    with ih s(1,2) show ?case by (auto simp: ips_of_insert(1) [of r "set raws"])
  qed (simp add: ips_of_insert)
  then show "set dns \<subseteq> set dns' \<and> set dns' \<subseteq> set dns \<union> trim_space ` set raws \<and> (distinct dns \<longrightarrow> distinct dns')"
    and "set ips \<subseteq> set ips' \<and> set ips' \<subseteq> set ips \<union> ips_of (set raws)"
    and "r \<in> set raws \<Longrightarrow> trim_space r \<noteq> [] \<Longrightarrow> named r dns' ips'"
    by blast+
qed

text \<open>What the request may contribute: nothing unless the CA allows it.\<close>

abbreviation csr_names :: "csr \<Rightarrow> sign_opts \<Rightarrow> string set" where
  "csr_names c opts \<equiv> if so_allow_alt_san opts then set (csr_dns c) else {}"

abbreviation csr_addresses :: "csr \<Rightarrow> sign_opts \<Rightarrow> ip set" where
  "csr_addresses c opts \<equiv> if so_allow_alt_san opts then set (csr_ips c) else {}"

lemma leaf_sans_shape:
  assumes "leaf_sans c opts = (dns, ips)"
  shows "set dns \<subseteq> trim_space ` ({nm_cn (csr_subject c)} \<union> set (so_dns_alt_names opts) \<union> csr_names c opts)"
    and "set ips \<subseteq> ips_of ({nm_cn (csr_subject c)} \<union> set (so_dns_alt_names opts) \<union> csr_names c opts) \<union> csr_addresses c opts"
    and "distinct dns"
    and "dns \<noteq> [] \<or> ips \<noteq> [] \<Longrightarrow> trim_space (nm_cn (csr_subject c)) \<noteq> [] \<Longrightarrow> named (nm_cn (csr_subject c)) dns ips"
    and "s \<in> set (so_dns_alt_names opts) \<Longrightarrow> trim_space s \<noteq> [] \<Longrightarrow> named s dns ips"
proof -
  let ?cn = "nm_cn (csr_subject c)"
  obtain dns1 ips1 where 1: "(if so_allow_alt_san opts
      then (let (d, i) = foldl sign_add_name ([], []) (csr_dns c) in (d, i @ csr_ips c)) else ([], [])) = (dns1, ips1)"
    by fastforce
  obtain dns2 ips2 where 2: "foldl sign_add_name (dns1, ips1) (so_dns_alt_names opts) = (dns2, ips2)" by fastforce
  have r: "(dns, ips) = (if dns2 \<noteq> [] \<or> ips2 \<noteq> [] then sign_add_name (dns2, ips2) ?cn else (dns2, []))"
    using assms by (simp add: leaf_sans_def 1 2)
  have d1: "set dns1 \<subseteq> trim_space ` csr_names c opts \<and> distinct dns1"
    "set ips1 \<subseteq> ips_of (csr_names c opts) \<union> csr_addresses c opts"
    using 1 foldl_add_names(1,2) [of "[]" "[]" "csr_dns c"] by (auto split: if_splits prod.splits)
  note d2 = foldl_add_names [OF 2]
  have d3: "set dns2 \<subseteq> set dns \<and> set dns \<subseteq> insert (trim_space ?cn) (set dns2) \<and> distinct dns \<and>
      set ips2 \<subseteq> set ips \<and> set ips \<subseteq> set ips2 \<union> ips_of {?cn} \<and>
      (dns \<noteq> [] \<or> ips \<noteq> [] \<longrightarrow> trim_space ?cn \<noteq> [] \<longrightarrow> named ?cn dns ips)"
  proof (cases "dns2 \<noteq> [] \<or> ips2 \<noteq> []")
    case True
    with r have "sign_add_name (dns2, ips2) ?cn = (dns, ips)" by simp
    from sign_add_name_shape [OF this] d1(1) d2(1) show ?thesis by simp
  next
    case False
    with r show ?thesis by simp
  qed
  show "set dns \<subseteq> trim_space ` ({?cn} \<union> set (so_dns_alt_names opts) \<union> csr_names c opts)"
    using d1(1) d2(1) d3 unfolding image_Un image_insert image_empty by blast
  show "set ips \<subseteq> ips_of ({?cn} \<union> set (so_dns_alt_names opts) \<union> csr_names c opts) \<union> csr_addresses c opts"
  proof -
    have "set ips \<subseteq> set ips2 \<union> ips_of {?cn}" using d3 by simp
    with d1(2) d2(2) show ?thesis unfolding ips_of_Un by blast
  qed
  show "distinct dns" using d3 by simp
  show "named ?cn dns ips" if "dns \<noteq> [] \<or> ips \<noteq> []" "trim_space ?cn \<noteq> []"
    using that d3 by simp
  show "named s dns ips" if "s \<in> set (so_dns_alt_names opts)" "trim_space s \<noteq> []"
    using d2(3) [OF that] d3 named_mono by blast
qed


definition ex_sign_opts :: sign_opts where
  "ex_sign_opts = default_sign_opts\<lparr>so_serial := Some 7, so_dns_alt_names := [''alias'']\<rparr>"


section \<open>Trusted facts\<close>

text \<open>C14: Trusted facts arrive: what the agent asks for under a name or an identifier of the Puppet
  arc is, after encoding into the request, decoding at the CA and signing with the extensions the
  CA copies, read back from the certificate under that attribute's name with the same value.\<close>

theorem trusted_facts_roundtrip:
  assumes "build_extensions m = Inr exts" and "create_csr key n names exts = Inr pem"
    and "decode_csr pem = Inr req"
    and "sign_csr E req ca k (opts\<lparr>so_extra_exts := allowed_from_csr (csr_exts req)\<rparr>) = Inr crt"
    and "map_of m f = Some v" and "length v < 2 ^ 31"
    and "resolve_oid f = Inr a" and "is_puppet_oid a"
  shows "describe_exts (crt_exts crt) (name_for a) = Some v \<and> csr_check_signature req \<and>
    nm_cn (csr_subject req) = n \<and> crt_pub crt = RSAKey (priv_public key)"
proof -
  have req: "csr_subject req = \<lparr>nm_cn = n, nm_rest = []\<rparr>"
    "csr_pub req = RSAKey (priv_public key)" "csr_signer req = Some (RSAKey (priv_public key))"
    and ids: "distinct (map ext_id (csr_exts req))" and sub: "set exts \<subseteq> set (csr_exts req)"
    using assms(2,3)
    by (auto simp: create_csr_def create_certificate_request_def decode_csr_def parse_csr_def Let_def
        split: sum.splits option.splits prod.splits der.splits if_splits)
  obtain e where e: "e \<in> set exts" "resolve_oid f = Inr (ext_id e)" "encode_value v = Inr (ext_value e)"
    by (rule build_extensions_complete [OF assms(1,5)])
  have a: "ext_id e = a" using e(2) assms(7) by simp
  let ?e = "\<lparr>ext_id = ext_id e, ext_critical = False, ext_value = ext_value e\<rparr>"
  have crt: "crt_exts crt = allowed_from_csr (csr_exts req)" "crt_pub crt = csr_pub req"
    using assms(4) by (auto simp: sign_csr_Inr leaf_of_def Let_def)
  have e': "?e \<in> set (crt_exts crt)"
    using e(1) sub a assms(8) by (auto simp: crt(1) allowed_from_csr_def)
  have dist: "distinct (map ext_id (crt_exts crt))" unfolding crt(1) by (rule allowed_distinct [OF ids])
  have ne: "ext_id x \<noteq> []" if "x \<in> set (crt_exts crt)" for x
    using that allowed_ids [of x "csr_exts req"] by (auto simp: crt(1) is_puppet_oid_prefix base_arc_def)
  have "is_puppet_oid (ext_id ?e)" using a assms(8) by simp
  from decode_selected_hit [OF dist ne e', of is_puppet_oid, OF _ this]
  have "describe_exts (crt_exts crt) (name_for a) = Some (decode_value (ext_value e))"
    using a by (simp add: describe_exts_def)
  with decode_encode_value [OF assms(6) e(3)] req crt show ?thesis by (simp add: csr_check_signature_def)
qed


theorem trusted_facts_roundtrip_witness:
  "\<exists>crt :: certificate. crt_subject crt = \<lparr>nm_cn = ''node1'', nm_rest = []\<rparr> \<and>
     describe_exts (crt_exts crt) (name_for (pp_reg 13)) = Some ''web''"
proof -
  define exts where "exts = [\<lparr>ext_id = [1, 3, 6, 1, 4, 1, 34380, 1, 1, 13], ext_critical = False,
        ext_value = [CHR 0x0C, CHR 0x03, CHR ''w'', CHR ''e'', CHR ''b'']\<rparr>]"
  have 1: "build_extensions [(''pp_role'', ''web'')] = Inr exts"
    unfolding exts_def by code_simp
  have 2: "create_csr ex_agent_key ''node1'' [] exts = Inr ex_csr_pem"
    unfolding exts_def by code_simp
  have 3: "decode_csr ex_csr_pem = Inr ex_csr"
    by (simp add: decode_csr_def ex_csr_pem_def parse_csr_def ex_csr_def oid_fits_def)
  have "is_ok (sign_csr ex_env ex_csr ex_ca_crt ex_key (ex_sign_opts\<lparr>so_extra_exts := allowed_from_csr (csr_exts ex_csr)\<rparr>))"
    by code_simp
  then obtain crt where 4: "sign_csr ex_env ex_csr ex_ca_crt ex_key
      (ex_sign_opts\<lparr>so_extra_exts := allowed_from_csr (csr_exts ex_csr)\<rparr>) = Inr crt"
    by (auto simp: is_ok_iff)
  have 5: "resolve_oid ''pp_role'' = Inr (pp_reg 13)" "is_puppet_oid (pp_reg 13)" by code_simp+
  have "crt_subject crt = \<lparr>nm_cn = ''node1'', nm_rest = []\<rparr>"
    using 4 by (auto simp: sign_csr_Inr leaf_of_def Let_def ex_csr_def)
  with trusted_facts_roundtrip [OF 1 2 3 4, of "''pp_role''" "''web''", OF _ _ 5]
  show ?thesis by (intro exI [of _ crt]) simp
qed

text \<open>C39: Short names and identifiers are inverse to each other: the name a well-formed identifier
  is shown under resolves to that identifier again, and no two identifiers are shown alike.\<close>

theorem resolve_name_for:
  assumes "wf_oid a"
  shows "resolve_oid (name_for a) = Inr a \<and> (\<forall>b. b \<noteq> [] \<and> name_for b = name_for a \<longrightarrow> b = a)"
proof -
  have ne: "a \<noteq> []" using assms by (auto simp: wf_oid_def)
  have "resolve_oid (name_for a) = Inr a"
    using name_for_disj [OF ne] resolve_short resolve_oid_string [OF assms] by auto
  with ne name_for_inject show ?thesis by blast
qed

theorem resolve_name_for_witness:
  "resolve_oid (name_for (pp_auth 13)) = Inr (pp_auth 13)"
proof -
  have "wf_oid (pp_auth 13)" by code_simp
  with resolve_name_for show ?thesis by blast
qed

text \<open>C30: The CA copies from a request exactly its Puppet extensions, values unchanged and never
  critical; nothing outside that arc (so neither basic constraints nor alternative names) gets into
  a certificate this way.\<close>

theorem allowed_extensions_exact:
  "set (allowed_from_csr exts) =
     {\<lparr>ext_id = base_arc @ r, ext_critical = False, ext_value = v\<rparr> | r v cr.
        \<lparr>ext_id = base_arc @ r, ext_critical = cr, ext_value = v\<rparr> \<in> set exts} \<and>
   oid_subject_alt_name \<notin> ext_id ` set (allowed_from_csr exts)"
proof
  show "set (allowed_from_csr exts) =
     {\<lparr>ext_id = base_arc @ r, ext_critical = False, ext_value = v\<rparr> | r v cr.
        \<lparr>ext_id = base_arc @ r, ext_critical = cr, ext_value = v\<rparr> \<in> set exts}" (is "?L = ?R")
  proof
    show "?L \<subseteq> ?R"
    proof
      fix x assume "x \<in> ?L"
      then obtain e where e: "e \<in> set exts" "is_puppet_oid (ext_id e)"
        "x = \<lparr>ext_id = ext_id e, ext_critical = False, ext_value = ext_value e\<rparr>"
        by (auto simp: allowed_from_csr_def)
      then obtain r where r: "ext_id e = base_arc @ r" by (auto simp: is_puppet_oid_prefix)
      obtain cr v where "e = \<lparr>ext_id = base_arc @ r, ext_critical = cr, ext_value = v\<rparr>"
        using r by (cases e) simp
      with e show "x \<in> ?R" by auto
    qed
    show "?R \<subseteq> ?L" by (force simp: allowed_from_csr_def is_puppet_oid_prefix)
  qed
  show "oid_subject_alt_name \<notin> ext_id ` set (allowed_from_csr exts)"
    using san_not_puppet allowed_ids by force
qed

section \<open>The policy\<close>

lemma policy_exts_Inr:
  assumes "policy_exts c inp es = Inr i"
  shows "(\<forall>e \<in> set es. is_puppet_oid (ext_id e) \<or> ext_id e = oid_subject_alt_name \<or> \<not> ext_critical e) \<and>
    (\<forall>e \<in> set es. is_puppet_oid (ext_id e) \<longrightarrow> is_ok (decode_puppet_policy_value e)) \<and>
    pi_version i = pi_version inp \<and>
    pi_certname i = pi_certname inp \<and> pi_sans i = pi_sans inp \<and> pi_source_ip i = pi_source_ip inp \<and>
    pi_ext_san i = (if oid_subject_alt_name \<in> ext_id ` set es then Some (policy_sans_from_csr c) else pi_ext_san inp) \<and>
    pi_ext_requests i = foldl (\<lambda>m e. AList.update (name_for (ext_id e)) (projr (decode_puppet_policy_value e)) m)
      (pi_ext_requests inp) (filter (\<lambda>e. is_puppet_oid (ext_id e)) es)"
  using assms
proof (induction c inp es rule: policy_exts.induct)
  case (2 c inp e es)
  then show ?case
    by (auto simp: san_not_puppet split: if_splits sum.splits)
qed simp

lemma map_of_foldl_update:
  assumes "distinct (map f es)"
  shows "map_of (foldl (\<lambda>m e. AList.update (f e) (g e) m) [] es) k = Some v \<longleftrightarrow> (\<exists>e \<in> set es. f e = k \<and> g e = v)"
  using assms
proof (induction es rule: rev_induct)
  case (snoc x es)
  then show ?case by (cases "f x = k") (auto simp: image_iff)
qed simp

text \<open>C29: The policy is asked about the request as the CA would sign it: its input carries the
  version, the certname, the caller's address, every DNS name and address of the request (a second time
  under its extensions exactly when the request has such an extension), and as extension requests
  exactly the Puppet extensions, each under its name with its text. Of the other extensions, which the CA
  does not copy, nothing is passed on; a request with an undecodable Puppet extension, or with a critical one that
  is neither Puppet's nor the alternative names, never reaches the policy.\<close>

theorem policy_input_faithful:
  assumes "build_policy_input n req ip = Inr i" and "distinct (map ext_id (csr_exts req))"
  shows "pi_version i = 1 \<and> pi_certname i = n \<and> pi_source_ip i = ip \<and>
    pi_sans i = \<lparr>ps_dns = csr_dns req, ps_ip = map ip_string (csr_ips req)\<rparr> \<and>
    pi_ext_san i = (if oid_subject_alt_name \<in> ext_id ` set (csr_exts req) then Some (pi_sans i) else None) \<and>
    (\<forall>k v. map_of (pi_ext_requests i) k = Some v \<longleftrightarrow>
       (\<exists>e \<in> set (csr_exts req). is_puppet_oid (ext_id e) \<and> name_for (ext_id e) = k \<and> decode_puppet_policy_value e = Inr v)) \<and>
    (\<forall>e \<in> set (csr_exts req). is_puppet_oid (ext_id e) \<longrightarrow>
       (\<exists>v. decode_puppet_policy_value e = Inr v \<and> map_of (pi_ext_requests i) (name_for (ext_id e)) = Some v)) \<and>
    (\<forall>e \<in> set (csr_exts req). ext_critical e \<longrightarrow> is_puppet_oid (ext_id e) \<or> ext_id e = oid_subject_alt_name)"
proof -
  let ?es = "filter (\<lambda>e. is_puppet_oid (ext_id e)) (csr_exts req)"
  note r = policy_exts_Inr [OF assms(1) [unfolded build_policy_input_def]]
  have inj: "name_for (ext_id x) = name_for (ext_id y) \<Longrightarrow> ext_id x = ext_id y"
    if "x \<in> set ?es" "y \<in> set ?es" for x y
    using that by (intro name_for_inject) (auto simp: is_puppet_oid_prefix base_arc_def)
  have ids: "distinct (map ext_id ?es)" using assms(2) by (simp add: distinct_map_filter)
  then have "inj_on (\<lambda>e. name_for (ext_id e)) (set ?es)"
    using inj by (auto simp: inj_on_def distinct_map)
  with ids have "distinct (map (\<lambda>e. name_for (ext_id e)) ?es)" by (simp add: distinct_map)
  note got = map_of_foldl_update [OF this, of "\<lambda>e. projr (decode_puppet_policy_value e)"]
  have dec: "\<exists>v. decode_puppet_policy_value e = Inr v" if "e \<in> set ?es" for e
    using that r by (auto simp: is_ok_iff)
  have "map_of (pi_ext_requests i) k = Some v \<longleftrightarrow> (\<exists>e \<in> set (csr_exts req). is_puppet_oid (ext_id e) \<and>
      name_for (ext_id e) = k \<and> decode_puppet_policy_value e = Inr v)" for k v
  proof -
    have "map_of (pi_ext_requests i) k = Some v \<longleftrightarrow>
        (\<exists>e \<in> set ?es. name_for (ext_id e) = k \<and> projr (decode_puppet_policy_value e) = v)"
      using got [of k v] r by simp
    also have "\<dots> \<longleftrightarrow> (\<exists>e \<in> set ?es. name_for (ext_id e) = k \<and> decode_puppet_policy_value e = Inr v)"
      using dec by (metis sum.sel(2))
    finally show ?thesis by auto
  qed
  note exact = this
  moreover have "\<exists>v. decode_puppet_policy_value e = Inr v \<and> map_of (pi_ext_requests i) (name_for (ext_id e)) = Some v"
    if "e \<in> set (csr_exts req)" "is_puppet_oid (ext_id e)" for e
    using dec [of e] that unfolding exact by auto
  moreover have "is_puppet_oid (ext_id e) \<or> ext_id e = oid_subject_alt_name"
    if "e \<in> set (csr_exts req)" "ext_critical e" for e
    using r that by blast
  moreover have "pi_version i = 1 \<and> pi_certname i = n \<and> pi_source_ip i = ip \<and>
      pi_sans i = \<lparr>ps_dns = csr_dns req, ps_ip = map ip_string (csr_ips req)\<rparr> \<and>
      pi_ext_san i = (if oid_subject_alt_name \<in> ext_id ` set (csr_exts req) then Some (pi_sans i) else None)"
    using r by (simp add: policy_sans_from_csr_def)
  ultimately show ?thesis by blast
qed

theorem policy_input_faithful_witness:
  "\<exists>i. build_policy_input ''node1'' ex_csr ''10.0.0.9'' = Inr i \<and>
     map_of (pi_ext_requests i) ''pp_role'' = Some ''web''"
proof -
  have "is_ok (build_policy_input ''node1'' ex_csr ''10.0.0.9'')" by code_simp
  then obtain i where i: "build_policy_input ''node1'' ex_csr ''10.0.0.9'' = Inr i" by (auto simp: is_ok_iff)
  let ?e = "\<lparr>ext_id = [1, 3, 6, 1, 4, 1, 34380, 1, 1, 13], ext_critical = False,
        ext_value = [CHR 0x0C, CHR 0x03, CHR ''w'', CHR ''e'', CHR ''b'']\<rparr>"
  have e: "csr_exts ex_csr = [?e]" by (simp add: ex_csr_def)
  have v: "decode_puppet_policy_value ?e = Inr ''web''" "is_puppet_oid (ext_id ?e)" "name_for (ext_id ?e) = ''pp_role''"
    by code_simp+
  from policy_input_faithful [OF i] e v i show ?thesis by simp
qed

text \<open>The policy approves only by ending with status 0 before its time limit; status 1 is a
  denial, and a time-out, another status or a failed start is an error. What is kept of its standard
  error is the first 4096 bytes, however it is written.\<close>

lemma policy_verdict:
  "pr_outcome (run_autosign_policy run exe t i) =
     (let r = run exe (if t \<le> 0 then defaultAutosignPolicyTimeout else t) (projr (marshal_policy_input i))
      in if ex_deadline r then PolicyError
         else case ex_err r of None \<Rightarrow> PolicyApproved
              | Some e \<Rightarrow> if e = ExitError 1 then PolicyDenied else PolicyError) \<and>
   pr_stderr (run_autosign_policy run exe t i) = take 4096 (concat (ex_stderr
      (run exe (if t \<le> 0 then defaultAutosignPolicyTimeout else t) (projr (marshal_policy_input i)))))"
  by (auto simp: run_autosign_policy_def marshal_policy_input_def Let_def capped_writes_eq
      maxAutosignPolicyStderr_def split: option.splits)

section \<open>Fingerprints and revocation lists\<close>

text \<open>C32: The buffer-filling loop of the fingerprint computes the upper-case hexadecimal bytes joined
  by colons.\<close>

theorem colon_hex_reference:
  "colon_hex b = str_join '':'' (map (\<lambda>v. [hex_upper (drop_bit 4 v), hex_upper (v AND 0x0F)]) b) \<and>
   length (colon_hex b) = 3 * length b - 1"
proof -
  have "length (str_join '':'' (map byte_hex b)) = 3 * length b - 1" for b
  proof (induction b)
    case (Cons v vs)
    then show ?case by (cases vs) (auto simp: byte_hex_def)
  qed simp
  then show ?thesis by (simp add: colon_hex_eq byte_hex_def [abs_def])
qed

text \<open>A revocation list that was created names the CA, is signed by its key, is valid from an
  hour before now to after now, and lists exactly the given serials in order, revocation times
  to the second.\<close>

lemma create_crl_lists:
  assumes "create_crl E ca k revoked vf = Inr b"
  shows "\<exists>l. b = pem_encode ''X509 CRL'' (CrlDER l) \<and> crl_issuer l = crt_subject ca \<and>
    crl_signer l = Some (RSAKey (priv_public k)) \<and>
    map fst (crl_entries l) = map re_serial revoked \<and>
    map snd (crl_entries l) = map (\<lambda>r. trunc_second (re_when r)) revoked \<and>
    crl_this_update l \<le> env_now E \<and> env_now E - second < crl_next_update l"
proof -
  have "crt_ski ca \<noteq> []" "b = [Pem ''X509 CRL'' (CrlDER \<lparr>crl_issuer = crt_subject ca, crl_number = env_now E div second,
           crl_this_update = trunc_second (env_now E - hour),
           crl_next_update = trunc_second (env_now E + (if vf \<le> 0 then 24 * hour else vf)),
           crl_entries = map (\<lambda>r. (re_serial r, trunc_second (re_when r))) revoked,
           crl_signer = Some (RSAKey (priv_public k))\<rparr>)]"
    using assms by (auto simp: create_crl_Inr)
  moreover have "trunc_second (env_now E - hour) \<le> env_now E"
    using trunc_second_le [of "env_now E - hour"] by (simp add: hour_def second_def)
  moreover have "env_now E - second < trunc_second (env_now E + (if vf \<le> 0 then 24 * hour else vf))"
    using pos_mod_bound [of second "env_now E + (if vf \<le> 0 then 24 * hour else vf)"]
    by (auto simp: trunc_second_def hour_def second_def)
  ultimately show ?thesis by (simp add: pem_encode_def comp_def)
qed

lemma create_crl_lists_example:
  "\<exists>l. create_crl ex_env ex_ca_crt ex_key [\<lparr>re_serial = 5, re_when = 0\<rparr>] 0 = Inr (pem_encode ''X509 CRL'' (CrlDER l)) \<and>
     map fst (crl_entries l) = [5]"
proof -
  obtain b where b: "create_crl ex_env ex_ca_crt ex_key [\<lparr>re_serial = 5, re_when = 0\<rparr>] 0 = Inr b"
    using create_crl_Inr [of ex_env ex_ca_crt ex_key "[\<lparr>re_serial = 5, re_when = 0\<rparr>]" 0]
    by (simp add: ex_ca_crt_def)
  from create_crl_lists [OF b] b show ?thesis by auto
qed


section \<open>csr\_attributes.yaml\<close>

text \<open>A line of the extension requests as an administrator writes it.\<close>

definition attr_text :: "string \<times> string \<Rightarrow> string" where
  "attr_text kv = ''  '' @ fst kv @ '': '' @ [CHR 0x22] @ snd kv @ [CHR 0x22]"

definition attr_ok :: "string \<times> string \<Rightarrow> bool" where
  "attr_ok kv \<longleftrightarrow> fst kv \<noteq> [] \<and> plain_char (hd (fst kv)) \<and> plain_char (last (fst kv)) \<and>
     set (fst kv) \<inter> {CHR '':'', CHR ''#'', CHR 0x22, CHR 0x27, CHR 0x0A} = {} \<and>
     set (snd kv) \<inter> {CHR 0x22, CHR 0x0A} = {}"

lemma strip_comment_unquoted:
  "set a \<inter> {CHR 0x22, CHR 0x27, CHR ''#''} = {} \<Longrightarrow> strip_comment None (a @ b) = a @ strip_comment None b"
  by (induction a) auto

lemma strip_comment_quoted: "d \<notin> set v \<Longrightarrow> strip_comment (Some d) (v @ [d]) = v @ [d]"
  by (induction v) auto

lemma strip_attr_text: "attr_ok kv \<Longrightarrow> strip_comment None (attr_text kv) = attr_text kv"
proof -
  assume ok: "attr_ok kv"
  let ?a = "''  '' @ fst kv @ '': ''" and ?q = "CHR 0x22"
  have "strip_comment None (?a @ ([?q] @ snd kv @ [?q])) = ?a @ strip_comment None ([?q] @ snd kv @ [?q])"
    using ok by (intro strip_comment_unquoted) (auto simp: attr_ok_def)
  moreover have "?q \<notin> set (snd kv)" using ok by (auto simp: attr_ok_def)
  ultimately show ?thesis using strip_comment_quoted [of ?q "snd kv"] by (simp add: attr_text_def)
qed

lemma trim_space_blank:
  assumes "s \<noteq> []" and "plain_char (hd s)" and "plain_char (last s)"
  shows "trim_space (CHR '' '' # s) = s" "trim_space (CHR '' '' # CHR '' '' # s) = s"
proof -
  obtain a t where s: "s = a # t" using assms(1) by (cases s) auto
  have front: "trim_front s2 s3 (CHR '' '' # c # r) = trim_front s2 s3 (c # r)" for s2 s3 c r
    by (cases r) (simp_all add: space1_def)
  have "trim_space (CHR '' '' # s) = trim_space s" "trim_space (CHR '' '' # CHR '' '' # s) = trim_space s"
    unfolding s trim_space_def front by (rule refl)+
  with trim_space_plain [OF assms] show "trim_space (CHR '' '' # s) = s" "trim_space (CHR '' '' # CHR '' '' # s) = s"
    by simp_all
qed

lemma attr_line_text:
  assumes ok: "attr_ok kv" and cur: "at_cur st = ExtRequests"
  shows "attr_line st (attr_text kv) = st\<lparr>at_ext := AList.update (fst kv) (snd kv) (at_ext st)\<rparr>"
proof -
  let ?k = "fst kv" and ?v = "snd kv" and ?q = "CHR 0x22"
  let ?qv = "?q # ?v @ [?q]"
  have q: "plain_char ?q" by (simp add: plain_char_def less_eq_char_def)
  have k: "?k \<noteq> []" "plain_char (hd ?k)" "plain_char (last ?k)" "CHR '':'' \<notin> set ?k"
    using ok by (auto simp: attr_ok_def)
  have cut: "str_cut (CHR '':'') (attr_text kv) = Some (''  '' @ ?k, CHR '' '' # ?qv)"
    using k(4) by (simp add: str_cut_Some attr_text_def)
  have val: "trim_space (CHR '' '' # ?qv) = ?qv" "unquote ?qv = ?v"
    using q by (auto intro!: trim_space_blank simp: unquote_def)
  have key: "trim_space (''  '' @ ?k) = ?k" using trim_space_blank(2) [OF k(1-3)] by simp
  have "trim_space (attr_text kv) \<noteq> []"
    using trim_space_blank(2) [of "?k @ '': '' @ ?qv"] k q by (simp add: attr_text_def)
  moreover have "hd (attr_text kv) = CHR '' ''" by (simp add: attr_text_def)
  ultimately show ?thesis
    using cur cut val key by (simp add: attr_line_def strip_attr_text [OF ok] Let_def attr_put_def)
qed

lemma attr_lines_text:
  assumes "list_all attr_ok kvs" and "at_cur st = ExtRequests"
  shows "foldl attr_line st (map attr_text kvs) =
    st\<lparr>at_ext := foldl (\<lambda>m kv. AList.update (fst kv) (snd kv) m) (at_ext st) kvs\<rparr>"
  using assms by (induction kvs arbitrary: st) (auto simp: attr_line_text)

text \<open>C36: A file of quoted extension requests reads back as written: each key with its value, hash
  signs and single quotes inside the quotes included, later lines of a key replacing earlier ones.\<close>

theorem csr_attributes_roundtrip:
  assumes "list_all attr_ok kvs"
    and "os_read_file fs p = Inr (text_bytes (str_join [CHR 0x0A] (''extension_requests:'' # map attr_text kvs)))"
  shows "\<exists>m. parse_csr_attributes fs p = Inr (m, []) \<and> map_of m = map_of (rev kvs)"
proof -
  let ?st = "\<lparr>at_ext = [], at_custom = [], at_cur = NoSection\<rparr>"
  let ?m = "foldl (\<lambda>m kv. AList.update (fst kv) (snd kv) m) [] kvs"
  have "CHR 0x0A \<notin> set w" if "w \<in> set (''extension_requests:'' # map attr_text kvs)" for w
    using that assms(1) by (auto simp: attr_text_def attr_ok_def list_all_iff)
  then have split: "str_split (CHR 0x0A) (str_join [CHR 0x0A] (''extension_requests:'' # map attr_text kvs))
      = ''extension_requests:'' # map attr_text kvs"
    by (intro str_split_join) auto
  have head: "attr_line ?st ''extension_requests:'' = ?st\<lparr>at_cur := ExtRequests\<rparr>" by code_simp
  have "parse_csr_attributes fs p = Inr (?m, [])"
    using assms by (simp add: parse_csr_attributes_def split head attr_lines_text Let_def)
  moreover have "map_of (foldl (\<lambda>m kv. AList.update (fst kv) (snd kv) m) m0 kvs) = map_of m0 ++ map_of (rev kvs)" for m0
    by (induction kvs arbitrary: m0) (auto simp: fun_eq_iff map_add_def split: option.splits)
  then have "map_of ?m = map_of (rev kvs)" by simp
  ultimately show ?thesis by blast
qed

theorem csr_attributes_roundtrip_witness:
  "\<exists>m. parse_csr_attributes (ex_fs0\<lparr>os_files := [(Path True [''a''],
       text_bytes (str_join [CHR 0x0A] (''extension_requests:'' # map attr_text [(''pp_role'', ''web #1'')])))]\<rparr>)
     (Path True [''a'']) = Inr (m, []) \<and> map_of m ''pp_role'' = Some ''web #1''"
proof -
  have ok: "list_all attr_ok [(''pp_role'', ''web #1'')]"
    by (simp add: attr_ok_def plain_char_def less_eq_char_def)
  show ?thesis
    using csr_attributes_roundtrip [OF ok, of "ex_fs0\<lparr>os_files := [(Path True [''a''],
       text_bytes (str_join [CHR 0x0A] (''extension_requests:'' # map attr_text [(''pp_role'', ''web #1'')])))]\<rparr>"
       "Path True [''a'']"]
    by (auto simp: os_read_file_def is_dir_def ex_fs0_def)
qed

end
