(* ===== verification/CaHandler.thy ===== *)
theory CaHandler
  imports StoreSpec GoNet
begin

text \<open>
  \<open>ca/ca.go\<close> and \<open>ca/handler.go\<close>: the CA over HTTP. Options and the loaded CA, the routes of
  the Puppet CA v1 API with the admin gate, one definition per handler from the request and the
  directory to the new directory and the response, and the TLS configuration. A request
  carries what the library decoded from the connection (\<open>rq_tls\<close>: the number of verified
  chains, none without TLS) and from its body: its size, what the first \<open>Decode\<close> on the limited
  reader gives (\<open>rq_json\<close>), and whether the second finds anything but the end (\<open>rq_trailing\<close>).
\<close>

section \<open>Options\<close>

record ca_options =
  co_dir :: string
  co_name :: string
  co_hostnames :: "string list"
  co_ttl :: duration
  co_autosign_all :: bool
  co_allow_alt_san :: bool
  co_policy_exe :: string
  co_policy_timeout :: duration

record ca_api =
  api_store :: ca
  api_hostnames :: "string list"

definition store_opts :: "ca_options \<Rightarrow> store_options" where
  "store_opts o1 = \<lparr>op_ttl = co_ttl o1, op_autosign_all = co_autosign_all o1,
     op_allow_alt_san = co_allow_alt_san o1, op_policy_exe = co_policy_exe o1,
     op_policy_timeout = co_policy_timeout o1\<rparr>"

text \<open>\<open>os.Hostname\<close> is an argument.\<close>

definition default_hostname :: "string res \<Rightarrow> string" where
  "default_hostname h = (case h of Inl _ \<Rightarrow> ''localhost'' | Inr s \<Rightarrow> if s = [] then ''localhost'' else s)"

definition opt_hostnames :: "string res \<Rightarrow> ca_options \<Rightarrow> string list" where
  "opt_hostnames h o1 =
     (let out = filter (\<lambda>s. s \<noteq> []) (map trim_space (co_hostnames o1))
      in if out = [] then [default_hostname h] else out)"

definition api_init :: "env \<Rightarrow> string res \<Rightarrow> bytes os \<Rightarrow> ca_options \<Rightarrow> bytes os \<times> ca_api res" where
  "api_init E h fs o1 =
     (if co_dir o1 = [] then (fs, Inl (EMsg ''ca.Options.Dir is required''))
      else (let name = (if co_name o1 = [] then hd (opt_hostnames h o1) else co_name o1) in
        case castore_init E fs (co_dir o1) name 0 (store_opts o1) of
          (fs', Inl e) \<Rightarrow> (fs', Inl e)
        | (fs', Inr c) \<Rightarrow> (fs', Inr \<lparr>api_store = c, api_hostnames = opt_hostnames h o1\<rparr>)))"

definition api_open :: "string res \<Rightarrow> bytes os \<Rightarrow> ca_options \<Rightarrow> ca_api res" where
  "api_open h fs o1 =
     (if co_dir o1 = [] then Inl (EMsg ''ca.Options.Dir is required'')
      else (case castore_open fs (co_dir o1) (store_opts o1) of
          Inl e \<Rightarrow> Inl e
        | Inr c \<Rightarrow> Inr \<lparr>api_store = c, api_hostnames = opt_hostnames h o1\<rparr>))"

definition is_not_exist :: "go_error option \<Rightarrow> bool" where
  "is_not_exist e = (case e of None \<Rightarrow> False
     | Some err \<Rightarrow> err_is_not_exist err \<or> str_contains ''no such file'' (err_text err))"

definition api_cert :: "ca_api \<Rightarrow> certificate option" where
  "api_cert a = res_opt (parse_certificate (CertDER (ca_crt (api_store a))))"

text \<open>The public status has the fields of the internal one.\<close>

definition status_from_internal :: "cert_status \<Rightarrow> cert_status" where
  "status_from_internal s = \<lparr>Name = Name s, State = State s, Fingerprint = Fingerprint s,
     Fingerprints = Fingerprints s, SubjectAltN = SubjectAltN s, DNSAltN = DNSAltN s,
     SerialNumber = SerialNumber s, NotBefore = NotBefore s, NotAfter = NotAfter s,
     AuthzExtensions = AuthzExtensions s\<rparr>"

text \<open>The operations of the CA are those of its store.\<close>

definition api_ca_pem :: "ca_api \<Rightarrow> bytes" where
  "api_ca_pem a = cert_pem (api_store a)"

definition api_sign :: "env \<Rightarrow> ca_api \<Rightarrow> string \<Rightarrow> sign_opts \<Rightarrow> bytes os \<Rightarrow> bytes os \<times> go_error option" where
  [simp]: "api_sign E a name opts fs = ca_sign E (api_store a) fs name opts"

definition api_revoke :: "env \<Rightarrow> ca_api \<Rightarrow> string \<Rightarrow> bytes os \<Rightarrow> bytes os \<times> go_error option" where
  [simp]: "api_revoke E a name fs = ca_revoke E (api_store a) fs name"

definition api_clean :: "ca_api \<Rightarrow> string \<Rightarrow> bytes os \<Rightarrow> bytes os \<times> go_error option" where
  [simp]: "api_clean a name fs = ca_clean (api_store a) fs name"

definition api_status :: "env \<Rightarrow> ca_api \<Rightarrow> string \<Rightarrow> bytes os \<Rightarrow> cert_status res" where
  "api_status E a name fs = (case ca_status E (api_store a) fs name of
       Inl e \<Rightarrow> Inl e | Inr st \<Rightarrow> Inr (status_from_internal st))"

definition api_statuses :: "env \<Rightarrow> ca_api \<Rightarrow> bytes os \<Rightarrow> cert_status list res" where
  "api_statuses E a fs = (case ca_statuses E (api_store a) fs of
       Inl e \<Rightarrow> Inl e
     | Inr l \<Rightarrow> Inr (map status_from_internal l))"

datatype client_auth = NoClientCert | VerifyClientCertIfGiven

record tls_config =
  tc_cert :: tls_cert
  tc_pool :: "certificate list"
  tc_auth :: client_auth
  tc_min_version :: string

definition server_tls_config :: "env \<Rightarrow> ca_api \<Rightarrow> bytes os \<Rightarrow> bytes os \<times> tls_config res" where
  "server_tls_config E a fs = (case server_tls_cert E (api_store a) fs (api_hostnames a) of
       (fs', Inl e) \<Rightarrow> (fs', Inl (EWrap ''server cert'' e))
     | (fs', Inr leaf) \<Rightarrow> (fs', Inr \<lparr>tc_cert = leaf, tc_pool = [ca_crt (api_store a)],
         tc_auth = VerifyClientCertIfGiven, tc_min_version = ''TLS 1.2''\<rparr>))"

text \<open>
  The handshake of \<open>crypto/tls\<close> under such a configuration: the number of verified chains, or
  none when a presented certificate does not verify (then there is no request).
\<close>

definition tls_accept :: "time \<Rightarrow> tls_config \<Rightarrow> certificate option \<Rightarrow> nat option" where
  "tls_accept now cfg client = (case client of
       None \<Rightarrow> Some 0
     | Some crt \<Rightarrow> (case tc_auth cfg of
           NoClientCert \<Rightarrow> Some 0
         | VerifyClientCertIfGiven \<Rightarrow>
             if x509_verify now (tc_pool cfg) crt \<and> (crt_ext_key_usage crt = [] \<or> EkuClientAuth \<in> set (crt_ext_key_usage crt))
             then Some 1 else None))"

section \<open>Requests and responses\<close>

record http_request =
  rq_method :: string
  rq_path :: string
  rq_remote :: string
  rq_tls :: "nat option"
  rq_body :: bytes
  rq_size :: nat
  rq_json :: "desired_state res"
  rq_trailing :: bool

datatype resp_body =
    NoBody
  | TextBody string
  | PemBody bytes
  | StatusBody cert_status
  | StatusesBody "cert_status list"

record http_response =
  rs_status :: int
  rs_type :: string
  rs_body :: resp_body

datatype answer = Respond http_response | RedirectClean

definition http_error :: "string \<Rightarrow> int \<Rightarrow> http_response" where
  "http_error msg code =
     \<lparr>rs_status = code, rs_type = ''text/plain; charset=utf-8'', rs_body = TextBody (msg @ [CHR 0x0A])\<rparr>"

definition header_only :: "int \<Rightarrow> http_response" where
  "header_only code = \<lparr>rs_status = code, rs_type = [], rs_body = NoBody\<rparr>"

definition write_pem :: "bytes \<Rightarrow> http_response" where
  "write_pem b = \<lparr>rs_status = 200, rs_type = PEMContentType, rs_body = PemBody b\<rparr>"

definition write_json :: "resp_body \<Rightarrow> http_response" where
  "write_json b = \<lparr>rs_status = 200, rs_type = ''application/json'', rs_body = b\<rparr>"

text \<open>Not found, or another error under the code the handler gives it.\<close>

definition error_response :: "int \<Rightarrow> go_error \<Rightarrow> http_response" where
  "error_response code e = (if err_is_not_found e then http_error ''not found'' 404 else http_error (err_text e) code)"

section \<open>Agent endpoints\<close>

definition h_get_cert :: "ca \<Rightarrow> bytes os \<Rightarrow> string \<Rightarrow> http_response" where
  "h_get_cert c fs name = (case get_cert c fs name of
       Inl e \<Rightarrow> error_response 500 e | Inr pem \<Rightarrow> write_pem pem)"

definition direct_peer_ip :: "string \<Rightarrow> string" where
  "direct_peer_ip remote =
     (let host = (case split_host_port remote of None \<Rightarrow> remote | Some (h, p) \<Rightarrow> h)
      in case parse_ip host of Some i \<Rightarrow> ip_string i | None \<Rightarrow> [])"

definition maxCSRBytes :: nat where "maxCSRBytes = 1048576"

definition h_put_csr ::
  "env \<Rightarrow> runner \<Rightarrow> (bytes os \<Rightarrow> bytes os) \<Rightarrow> ca \<Rightarrow> bytes os \<Rightarrow> string \<Rightarrow> http_request \<Rightarrow> bytes os \<times> http_response" where
  "h_put_csr E run others c fs name r =
     (if rq_size r > maxCSRBytes then (fs, http_error ''request too large'' 400)
      else (case submit_csr_from_ip E run others c fs name (rq_body r) (direct_peer_ip (rq_remote r)) of
          (fs', Inl e) \<Rightarrow> (fs', http_error (err_text e) 400)
        | (fs', Inr autosigned) \<Rightarrow> (fs', header_only 200)))"

definition h_get_csr :: "ca \<Rightarrow> bytes os \<Rightarrow> string \<Rightarrow> http_response" where
  "h_get_csr c fs name = (case get_csr c fs name of
       Inl e \<Rightarrow> error_response 500 e | Inr pem \<Rightarrow> write_pem pem)"

definition h_del_csr :: "ca \<Rightarrow> bytes os \<Rightarrow> string \<Rightarrow> bytes os \<times> http_response" where
  "h_del_csr c fs name = (case delete_csr c fs name of
       (fs', Some e) \<Rightarrow> (fs', error_response 500 e) | (fs', None) \<Rightarrow> (fs', header_only 204))"

definition h_get_crl :: "ca \<Rightarrow> bytes os \<Rightarrow> http_response" where
  "h_get_crl c fs = (case ca_crl c fs of
       Inl e \<Rightarrow> http_error (err_text e) 500 | Inr pem \<Rightarrow> write_pem pem)"

section \<open>Admin endpoints\<close>

text \<open>The gate: a TLS connection with a verified chain.\<close>

definition admin_gate :: "http_request \<Rightarrow> (bytes os \<Rightarrow> bytes os \<times> http_response) \<Rightarrow> bytes os \<Rightarrow> bytes os \<times> http_response" where
  "admin_gate r next_h fs =
     (if rq_tls r = None \<or> rq_tls r = Some 0 then (fs, http_error ''client certificate required'' 403)
      else next_h fs)"

definition h_get_status :: "env \<Rightarrow> ca \<Rightarrow> string \<Rightarrow> bytes os \<Rightarrow> bytes os \<times> http_response" where
  "h_get_status E c name fs = (fs, (case ca_status E c fs name of
       Inl e \<Rightarrow> error_response 500 e
     | Inr st \<Rightarrow> write_json (StatusBody (status_from_internal st))))"

definition h_get_statuses :: "env \<Rightarrow> ca_api \<Rightarrow> bytes os \<Rightarrow> bytes os \<times> http_response" where
  "h_get_statuses E a fs = (fs, (case api_statuses E a fs of
       Inl e \<Rightarrow> http_error (err_text e) 500
     | Inr l \<Rightarrow> write_json (StatusesBody l)))"

text \<open>The signing options that the body asks for.\<close>

definition desired_opts :: "desired_state \<Rightarrow> sign_opts res" where
  "desired_opts d =
     (let opts = default_sign_opts\<lparr>so_dns_alt_names := DNSAltNames d\<rparr> in
      if CertTTL d = [] then Inr opts
      else (case parse_duration (CertTTL d) of
          Inl e \<Rightarrow> Inl (EMsg (''invalid cert_ttl: '' @ err_text e))
        | Inr t \<Rightarrow> if t \<le> 0 then Inl (EMsg ''invalid cert_ttl: must be positive'')
                   else Inr (opts\<lparr>so_ttl := t\<rparr>)))"

definition h_put_status :: "env \<Rightarrow> ca \<Rightarrow> string \<Rightarrow> http_request \<Rightarrow> bytes os \<Rightarrow> bytes os \<times> http_response" where
  "h_put_status E c name r fs =
     (case rq_json r of
        Inl e \<Rightarrow> (fs, http_error (''bad JSON: '' @ err_text e) 400)
      | Inr req \<Rightarrow>
          if rq_trailing r then (fs, http_error ''bad JSON: trailing data'' 400)
          else (let finish = (\<lambda>(fs', e). case e of
                      None \<Rightarrow> (fs', header_only 204) | Some err \<Rightarrow> (fs', error_response 409 err))
            in if DesiredState req = StateSigned then
                 (case desired_opts req of
                    Inl e \<Rightarrow> (fs, http_error (err_text e) 400)
                  | Inr opts \<Rightarrow> finish (ca_sign E c fs name opts))
               else if DesiredState req = StateRevoked then finish (ca_revoke E c fs name)
               else (fs, http_error ''desired_state must be signed or revoked'' 400)))"

definition h_del_status :: "env \<Rightarrow> ca \<Rightarrow> string \<Rightarrow> bytes os \<Rightarrow> bytes os \<times> http_response" where
  "h_del_status E c name fs =
     (let fs1 = fst (ca_revoke E c fs name) in
      case ca_clean c fs1 name of
        (fs2, Some e) \<Rightarrow> (fs2, error_response 500 e)
      | (fs2, None) \<Rightarrow> (fs2, header_only 204))"

section \<open>Routes\<close>

datatype route =
    GetCert string | PutCsr string | GetCsr string | DelCsr string | GetCrl string
  | GetStatus string | PutStatus string | DelStatus string | GetStatuses string

text \<open>The segments below the base, percent escapes decoded segment by segment.\<close>

fun path_unescape :: "string \<Rightarrow> string option" where
  "path_unescape [] = Some []"
| "path_unescape (c # cs) =
     (if c = CHR ''%'' then (case cs of
         a # b # r \<Rightarrow> (case (digit_val a, digit_val b) of
             (Some x, Some y) \<Rightarrow> map_option (\<lambda>s. char_of (16 * x + y) # s) (path_unescape r)
           | _ \<Rightarrow> None)
       | _ \<Rightarrow> None)
      else map_option (\<lambda>s. c # s) (path_unescape cs))"

definition segment :: "string \<Rightarrow> string" where
  "segment s = (case path_unescape s of Some t \<Rightarrow> t | None \<Rightarrow> s)"

text \<open>The segments of a path that cleaning leaves alone; the last one is empty for a final slash.\<close>

definition path_segments :: "string \<Rightarrow> string list option" where
  "path_segments p = (case str_split (CHR ''/'') p of
       [] \<Rightarrow> None
     | lead # segs \<Rightarrow>
         if lead = [] \<and> segs \<noteq> [] \<and> list_all (\<lambda>s. s \<noteq> ''.'' \<and> s \<noteq> ''..'') segs \<and> [] \<notin> set (butlast segs)
         then Some segs else None)"

definition base_segments :: "string list" where
  "base_segments = [''puppet-ca'', ''v1'']"

text \<open>The routes of a resource, by method.\<close>

definition resource_routes :: "string \<Rightarrow> string \<Rightarrow> (string \<times> route) list" where
  "resource_routes res name =
     (if res = ''certificate'' then [(''GET'', GetCert name)]
      else if res = ''certificate_request'' then
        [(''GET'', GetCsr name), (''PUT'', PutCsr name), (''DELETE'', DelCsr name)]
      else if res = ''certificate_revocation_list'' then [(''GET'', GetCrl name)]
      else if res = ''certificate_status'' then
        [(''GET'', GetStatus name), (''PUT'', PutStatus name), (''DELETE'', DelStatus name)]
      else if res = ''certificate_statuses'' then [(''GET'', GetStatuses name)]
      else [])"

datatype mux_result = Matched route | MethodNotAllowed | NoRoute | Unclean

definition mux_match :: "string \<Rightarrow> string \<Rightarrow> mux_result" where
  "mux_match meth p = (case path_segments p of
       None \<Rightarrow> Unclean
     | Some segs \<Rightarrow>
         (case segs of
            [b1, b2, res, n] \<Rightarrow>
              if [segment b1, segment b2] = base_segments \<and> n \<noteq> [] then
                (let rs = resource_routes (segment res) (segment n) in
                 case map_of rs (if meth = ''HEAD'' then ''GET'' else meth) of
                   Some rt \<Rightarrow> Matched rt
                 | None \<Rightarrow> if rs = [] then NoRoute else MethodNotAllowed)
              else NoRoute
          | _ \<Rightarrow> NoRoute))"

definition serve_route ::
  "env \<Rightarrow> runner \<Rightarrow> (bytes os \<Rightarrow> bytes os) \<Rightarrow> ca_api \<Rightarrow> http_request \<Rightarrow> route \<Rightarrow> bytes os \<Rightarrow> bytes os \<times> http_response" where
  "serve_route E run others a r rt fs =
     (let c = api_store a in
      case rt of
        GetCert n \<Rightarrow> (fs, h_get_cert c fs n)
      | PutCsr n \<Rightarrow> h_put_csr E run others c fs n r
      | GetCsr n \<Rightarrow> (fs, h_get_csr c fs n)
      | DelCsr n \<Rightarrow> admin_gate r (\<lambda>fs. h_del_csr c fs n) fs
      | GetCrl n \<Rightarrow> (fs, h_get_crl c fs)
      | GetStatus n \<Rightarrow> admin_gate r (h_get_status E c n) fs
      | PutStatus n \<Rightarrow> admin_gate r (h_put_status E c n r) fs
      | DelStatus n \<Rightarrow> admin_gate r (h_del_status E c n) fs
      | GetStatuses n \<Rightarrow> admin_gate r (h_get_statuses E a) fs)"

definition handle ::
  "env \<Rightarrow> runner \<Rightarrow> (bytes os \<Rightarrow> bytes os) \<Rightarrow> ca_api \<Rightarrow> http_request \<Rightarrow> bytes os \<Rightarrow> bytes os \<times> answer" where
  "handle E run others a r fs = (case mux_match (rq_method r) (rq_path r) of
       Unclean \<Rightarrow> (fs, RedirectClean)
     | NoRoute \<Rightarrow> (fs, Respond (http_error ''404 page not found'' 404))
     | MethodNotAllowed \<Rightarrow> (fs, Respond (http_error ''Method Not Allowed'' 405))
     | Matched rt \<Rightarrow> (let (fs', resp) = serve_route E run others a r rt fs in (fs', Respond resp)))"

section \<open>What the certificate route serves\<close>

lemma get_cert_on_disk:
  assumes "ready c fs" and "cadir_at c s fs" and "valid_certname n" and "n \<noteq> ''ca''"
    and "slot_cert c fs (Host n) = Some crt"
  shows "h_get_cert c fs n = write_pem (encode_cert crt) \<and> wf_cert crt \<and> issued_by c crt"
proof -
  have "certs_ok c s fs" using assms(2) by (simp add: cadir_at_def)
  from certs_ok_slot(1,2) [OF this, of "Host n" crt] assms(3,5)
  have "file_at fs (signed_path c n) = Some (encode_cert crt)" "wf_cert crt" "issued_by c crt"
    by (auto simp: issued_by_def)
  with assms ready_read [OF assms(1), of "signed_path c n"] show ?thesis
    by (simp add: h_get_cert_def get_cert_def)
qed

end
