(* ===== verification/HttpProps.thy ===== *)
theory HttpProps
  imports CaHandler Examples
begin

text \<open>
  Properties of the HTTP surface of the CA: who can change what, that every request keeps the
  store's invariant, and what the status codes mean.
\<close>

section \<open>Every request keeps the invariant\<close>

definition keeps :: "ca \<Rightarrow> (bytes os \<Rightarrow> bytes os) \<Rightarrow> bool" where
  "keeps c f \<longleftrightarrow> (\<forall>s fs. cadir_at c s fs \<longrightarrow> (\<exists>s'. s \<le> s' \<and> cadir_at c s' (f fs)))"

lemma keeps_id: "keeps c id" "keeps c (\<lambda>fs. fs)"
  by (auto simp: keeps_def)

lemma keeps_comp: "keeps c f \<Longrightarrow> keeps c g \<Longrightarrow> keeps c (\<lambda>fs. g (f fs))"
  unfolding keeps_def by (meson order_trans)

lemma keeps_step:
  assumes "\<And>s fs. cadir_at c s fs \<Longrightarrow> \<exists>sl s'. ok_step c sl s fs s' (f fs)"
  shows "keeps c f"
  unfolding keeps_def using assms by (meson ok_step_def)

lemma keeps_sign: "puppet_exts (so_extra_exts opts) \<Longrightarrow> keeps c (\<lambda>fs. fst (ca_sign E c fs n opts))"
  by (rule keeps_step) (metis ca_sign_ok prod.collapse)

lemma keeps_revoke: "keeps c (\<lambda>fs. fst (ca_revoke E c fs n))"
  by (rule keeps_step) (metis ca_revoke_ok prod.collapse)

lemma keeps_delete: "keeps c (\<lambda>fs. fst (delete_csr c fs n))"
  by (rule keeps_step) (metis delete_csr_ok prod.collapse)

lemma keeps_clean: "keeps c (\<lambda>fs. fst (ca_clean c fs n))"
  by (rule keeps_step) (metis ca_clean_ok prod.collapse)

lemma keeps_submit:
  assumes others: "keeps c others"
  shows "keeps c (\<lambda>fs. fst (submit_csr E run others c fs n pem ip))"
proof (cases "submit_check (autosign_snapshot c) n pem ip")
  case (Inl e)
  then show ?thesis by (simp add: submit_csr_def keeps_id)
next
  case (Inr inp)
  note ok = submit_check_req_ok [OF Inr]
  have store: "keeps c (\<lambda>fs. fst (submit_store E c (autosign_snapshot c) fs n pem))"
    by (rule keeps_step) (metis submit_store_ok ok prod.collapse)
  have finish: "keeps c (\<lambda>fs. fst (submit_finish E c fs n pem))"
    by (rule keeps_step) (metis submit_finish_ok ok(1) prod.collapse)
  have "fst (submit_csr E run others c fs n pem ip) \<in>
      {fst (submit_store E c (autosign_snapshot c) fs n pem),
       others (fst (submit_store E c (autosign_snapshot c) fs n pem)),
       fst (submit_finish E c (others (fst (submit_store E c (autosign_snapshot c) fs n pem))) n pem)}" for fs
    using Inr by (auto simp: submit_csr_def Let_def split: prod.splits store_outcome.splits option.splits)
  with store keeps_comp [OF store others] keeps_comp [OF keeps_comp [OF store others] finish]
  show ?thesis unfolding keeps_def by (metis insertE singletonD)
qed

lemma desired_opts_exts: "desired_opts d = Inr opts \<Longrightarrow> puppet_exts (so_extra_exts opts)"
  by (auto simp: desired_opts_def default_sign_opts_def puppet_exts_def Let_def split: if_splits sum.splits)

lemma keeps_route:
  assumes others: "keeps (api_store a) others"
  shows "keeps (api_store a) (\<lambda>fs. fst (serve_route E run others a r rt fs))"
proof -
  let ?c = "api_store a"
  have gate: "keeps ?c (\<lambda>fs. fst (admin_gate r h fs))" if "keeps ?c (\<lambda>fs. fst (h fs))" for h
    using that keeps_id(2) by (cases "rq_tls r = None \<or> rq_tls r = Some 0") (auto simp: admin_gate_def)
  have put: "keeps ?c (\<lambda>fs. fst (h_put_status E ?c n r fs))" for n
  proof -
    have eq: "fst (h_put_status E ?c n r fs) = (case rq_json r of Inl _ \<Rightarrow> fs
        | Inr d \<Rightarrow> if rq_trailing r then fs
            else if DesiredState d = StateSigned then
              (case desired_opts d of Inl _ \<Rightarrow> fs | Inr opts \<Rightarrow> fst (ca_sign E ?c fs n opts))
            else if DesiredState d = StateRevoked then fst (ca_revoke E ?c fs n) else fs)" for fs
      by (auto simp: h_put_status_def Let_def split: sum.splits prod.splits option.splits)
    show ?thesis
    proof (cases "rq_json r")
      case (Inr d)
      then show ?thesis unfolding eq
        using keeps_id(2) keeps_revoke keeps_sign [OF desired_opts_exts, of d]
        by (cases "desired_opts d"; cases "rq_trailing r"; cases "DesiredState d = StateSigned";
            cases "DesiredState d = StateRevoked"; simp)
    qed (simp add: eq keeps_id(2))
  qed
  have del: "keeps ?c (\<lambda>fs. fst (h_del_status E ?c n fs))" for n
  proof -
    have "fst (h_del_status E ?c n fs) = fst (ca_clean ?c (fst (ca_revoke E ?c fs n)) n)" for fs
      by (auto simp: h_del_status_def Let_def split: prod.splits option.splits)
    with keeps_comp [OF keeps_revoke keeps_clean] show ?thesis by simp
  qed
  have dcsr: "keeps ?c (\<lambda>fs. fst (h_del_csr ?c fs n))" for n
  proof -
    have "fst (h_del_csr ?c fs n) = fst (delete_csr ?c fs n)" for fs
      by (auto simp: h_del_csr_def split: prod.splits option.splits)
    with keeps_delete show ?thesis by simp
  qed
  have pcsr: "keeps ?c (\<lambda>fs. fst (h_put_csr E run others ?c fs n r))" for n
  proof -
    have "fst (h_put_csr E run others ?c fs n r) = (if rq_size r > maxCSRBytes then fs
        else fst (submit_csr E run others ?c fs n (rq_body r) (direct_peer_ip (rq_remote r))))" for fs
      by (auto simp: h_put_csr_def split: prod.splits sum.splits)
    with keeps_id keeps_submit [OF others] show ?thesis by (cases "rq_size r > maxCSRBytes") simp_all
  qed
  show ?thesis
    by (cases rt) (auto simp: serve_route_def Let_def h_get_status_def h_get_statuses_def keeps_id
        intro!: gate put del dcsr pcsr)
qed

text \<open>C7: Every HTTP request, admin or not, accepted or refused, on any path and with any body and
  failing file calls, leaves the store in a state that satisfies its invariant: the serial number
  never goes back, and requests, certificates and the revocation list stay well formed.\<close>

theorem http_keeps_invariant:
  assumes "cadir_at (api_store a) s fs"
    and "\<And>s fs. cadir_at (api_store a) s fs \<Longrightarrow> \<exists>s' \<ge> s. cadir_at (api_store a) s' (others fs)"
    and "handle E run others a r fs = (fs', ans)"
  shows "\<exists>s' \<ge> s. cadir_at (api_store a) s' fs'"
proof -
  have "keeps (api_store a) others" using assms(2) unfolding keeps_def by blast
  from keeps_route [OF this]
  have "keeps (api_store a) (\<lambda>fs. fst (serve_route E run others a r rt fs))" for rt .
  moreover have "fs' = fs \<or> (\<exists>rt. fs' = fst (serve_route E run others a r rt fs))"
    using assms(3) by (auto simp: handle_def split: mux_result.splits prod.splits) (metis fst_conv)
  ultimately show ?thesis using assms(1) unfolding keeps_def by blast
qed

definition ex_api :: ca_api where
  "ex_api = \<lparr>api_store = ex_ca, api_hostnames = [''puppet'']\<rparr>"

definition ex_put :: http_request where
  "ex_put = \<lparr>rq_method = ''PUT'', rq_path = ''/puppet-ca/v1/certificate_request/node1'',
     rq_remote = ''10.0.0.9:4711'', rq_tls = Some 0, rq_body = ex_csr_pem, rq_size = 900,
     rq_json = Inl (EOther ''EOF''), rq_trailing = False\<rparr>"

theorem http_keeps_invariant_witness:
  "\<exists>s. cadir_at ex_ca s (fst (handle ex_env ex_approve id ex_api ex_put ex_fs))"
proof -
  obtain fs' ans where h: "handle ex_env ex_approve id ex_api ex_put ex_fs = (fs', ans)" by fastforce
  have "cadir_at (api_store ex_api) 2 ex_fs" using ex_cadir by (simp add: ex_api_def)
  from http_keeps_invariant [OF this _ h] h show ?thesis by (auto simp: ex_api_def)
qed

section \<open>Who may change what\<close>

text \<open>C9: Without a verified client certificate the only request that can change anything is the
  submission of a signing request, and it does what the store's submission does; every admin route
  answers 403 and touches nothing.\<close>

theorem unauthenticated_requests:
  assumes "rq_tls r = None \<or> rq_tls r = Some 0"
    and "handle E run others a r fs = (fs', ans)"
  shows "(fs' = fs \<or> (\<exists>n. mux_match (rq_method r) (rq_path r) = Matched (PutCsr n) \<and>
       fs' = fst (submit_csr E run others (api_store a) fs n (rq_body r) (direct_peer_ip (rq_remote r))))) \<and>
    (\<forall>n. mux_match (rq_method r) (rq_path r) \<in>
        {Matched (DelCsr n), Matched (GetStatus n), Matched (PutStatus n), Matched (DelStatus n), Matched (GetStatuses n)}
      \<longrightarrow> fs' = fs \<and> ans = Respond (http_error ''client certificate required'' 403))"
proof (cases "mux_match (rq_method r) (rq_path r)")
  case (Matched rt)
  with assms show ?thesis
    by (cases rt) (auto simp: handle_def serve_route_def Let_def admin_gate_def h_put_csr_def
        split: prod.splits sum.splits if_splits)
qed (use assms in \<open>auto simp: handle_def\<close>)

theorem unauthenticated_requests_witness:
  "handle ex_env ex_approve id ex_api
     (ex_put\<lparr>rq_path := ''/puppet-ca/v1/certificate_status/node1''\<rparr>) ex_fs =
     (ex_fs, Respond (http_error ''client certificate required'' 403))"
proof -
  let ?r = "ex_put\<lparr>rq_path := ''/puppet-ca/v1/certificate_status/node1''\<rparr>"
  obtain fs' ans where h: "handle ex_env ex_approve id ex_api ?r ex_fs = (fs', ans)" by fastforce
  have t: "rq_tls ?r = None \<or> rq_tls ?r = Some 0" by (simp add: ex_put_def)
  have "mux_match (rq_method ?r) (rq_path ?r) = Matched (PutStatus ''node1'')" by code_simp
  with unauthenticated_requests [OF t h] h show ?thesis by simp
qed

text \<open>C12: With the CA's own TLS configuration a request passes the admin gate only on a connection
  whose client presented a certificate that verifies against the CA certificate at that time: it is
  the CA certificate itself or was signed by the CA's key, is within its validity, and allows client
  authentication.\<close>

theorem admin_needs_ca_certificate:
  assumes "server_tls_config E a fs = (fs', Inr cfg)" and "ca_ok (api_store a)"
    and "tls_accept now cfg client = k" and "rq_tls r = k"
    and "admin_gate r h fs2 \<noteq> (fs2, http_error ''client certificate required'' 403)"
  shows "\<exists>crt. client = Some crt \<and> time_valid now crt \<and>
    (crt = ca_crt (api_store a) \<or>
     crt_signer crt = Some (RSAKey (priv_public (ca_key (api_store a)))) \<and>
     crt_issuer crt = crt_subject (ca_crt (api_store a)) \<and> time_valid now (ca_crt (api_store a))) \<and>
    (crt_ext_key_usage crt = [] \<or> EkuClientAuth \<in> set (crt_ext_key_usage crt))"
proof -
  have cfg: "tc_pool cfg = [ca_crt (api_store a)]" "tc_auth cfg = VerifyClientCertIfGiven"
    using assms(1) by (auto simp: server_tls_config_def split: prod.splits sum.splits)
  have k: "k \<noteq> None" "k \<noteq> Some 0" using assms(4,5) by (auto simp: admin_gate_def split: if_splits)
  with assms(3) cfg obtain crt where "client = Some crt" "x509_verify now [ca_crt (api_store a)] crt"
    "crt_ext_key_usage crt = [] \<or> EkuClientAuth \<in> set (crt_ext_key_usage crt)"
    by (auto simp: tls_accept_def split: option.splits if_splits)
  with assms(2) show ?thesis
    by (auto simp: x509_verify_def check_signature_from_def ca_ok_def)
qed


definition ex_leaf_result :: "certificate res" where
  "ex_leaf_result = sign_csr ex_env ex_csr ex_ca_crt ex_key (default_sign_opts\<lparr>so_serial := Some 2\<rparr>)"

theorem admin_needs_ca_certificate_witness:
  "\<exists>crt. ex_leaf_result = Inr crt \<and> crt_signer crt = Some (RSAKey (priv_public ex_key))"
proof -
  let ?now = "1700000000000000000"
  have "is_ok (snd (server_tls_config ex_env ex_api ex_fs))" by code_simp
  then obtain fs' cfg where cfg: "server_tls_config ex_env ex_api ex_fs = (fs', Inr cfg)"
    by (metis is_ok_iff prod.collapse)
  then have pool: "tc_pool cfg = [ex_ca_crt]" "tc_auth cfg = VerifyClientCertIfGiven"
    by (auto simp: server_tls_config_def ex_api_def ex_ca_def split: prod.splits sum.splits)
  have "(case ex_leaf_result of Inr crt \<Rightarrow> x509_verify ?now [ex_ca_crt] crt \<and> EkuClientAuth \<in> set (crt_ext_key_usage crt)
      \<and> crt \<noteq> ex_ca_crt | _ \<Rightarrow> False)" by code_simp
  then obtain crt where crt: "ex_leaf_result = Inr crt" "x509_verify ?now [ex_ca_crt] crt"
    "EkuClientAuth \<in> set (crt_ext_key_usage crt)" "crt \<noteq> ex_ca_crt"
    by (auto split: sum.splits)
  have acc: "tls_accept ?now cfg (Some crt) = Some 1" using pool crt by (simp add: tls_accept_def)
  have ok: "ca_ok (api_store ex_api)" using ex_cadir by (simp add: ex_api_def cadir_at_def)
  have gate: "admin_gate (ex_put\<lparr>rq_tls := Some 1\<rparr>) (\<lambda>fs. (fs, header_only 204)) ex_fs \<noteq>
      (ex_fs, http_error ''client certificate required'' 403)"
    by (simp add: admin_gate_def header_only_def http_error_def)
  from admin_needs_ca_certificate [OF cfg ok acc _ gate] crt show ?thesis
    by (auto simp: ex_api_def ex_ca_def)
qed

section \<open>What the answers mean\<close>

text \<open>C20: Deleting a host through the admin API revokes before it removes: when no file call fails,
  the answer is 204 exactly if there was a certificate or a request, afterwards there is neither,
  the serial of the certificate that was there is on the revocation list with all earlier ones, and
  otherwise the answer is 404.\<close>

theorem delete_status_revokes_and_cleans:
  assumes "ready c fs" and "cadir_at c s fs" and "crt_ski (ca_crt c) \<noteq> []" and "valid_certname n"
    and "h_del_status E c n fs = (fs', resp)"
  shows "db_cert (db_of c fs') n = None \<and> db_req (db_of c fs') n = None \<and>
    set (db_revoked (db_of c fs')) = set (db_revoked (db_of c fs)) \<union>
      (case db_cert (db_of c fs) n of None \<Rightarrow> {} | Some crt \<Rightarrow> {crt_serial crt}) \<and>
    rs_status resp = (if db_cert (db_of c fs) n = None \<and> db_req (db_of c fs) n = None then 404 else 204)"
proof -
  obtain fs1 e1 where 1: "ca_revoke E c fs n = (fs1, e1)" by fastforce
  obtain fs2 e2 where 2: "ca_clean c fs1 n = (fs2, e2)" by fastforce
  note r1 = revoke_refines [OF assms(1-4) 1]
  have inv1: "cadir_at c s fs1" using ca_revoke_ok [OF assms(2) 1] by (simp add: ok_step_def)
  note r2 = clean_refines [OF conjunct1 [OF r1] inv1 assms(4) 2]
  have fs': "fs' = fs2" and resp: "resp = (case e2 of None \<Rightarrow> header_only 204 | Some e \<Rightarrow> error_response 500 e)"
    using assms(5) 1 2 by (auto simp: h_del_status_def split: option.splits)
  from r1 r2 show ?thesis
    unfolding fs' resp
    by (auto simp: db_revoke_def db_clean_def error_response_def http_error_def header_only_def
        split: option.splits if_splits)
qed

theorem delete_status_revokes_and_cleans_witness:
  "rs_status (snd (h_del_status ex_env ex_ca ''node1'' ex_signed)) = 204"
proof -
  obtain s where s: "cadir_at ex_ca s ex_signed" using ex_signed_inv(2) by blast
  obtain fs' resp where h: "h_del_status ex_env ex_ca ''node1'' ex_signed = (fs', resp)" by fastforce
  have "db_cert (db_of ex_ca ex_signed) ''node1'' \<noteq> None"
    using ex_signed_cert ex_valid by (auto simp: db_of_fields)
  with delete_status_revokes_and_cleans [OF ex_signed_inv(1) s ex_ski ex_valid h] h show ?thesis by auto
qed

text \<open>C27: Setting a desired state has one answer for each outcome: 400, with nothing changed, for a
  body that does not decode, trailing data, another state, or a life time that does not parse or is
  not positive; otherwise 404 when the request (to sign) or the certificate (to revoke) is not there
  or the name is not valid, 409 for another failure, and 204 when it was done.\<close>

theorem put_status_codes:
  assumes "h_put_status E c n r fs = (fs', resp)"
  shows "(rs_status resp = 400 \<longleftrightarrow>
       (case rq_json r of Inl _ \<Rightarrow> True
        | Inr d \<Rightarrow> rq_trailing r \<or> DesiredState d \<notin> {StateSigned, StateRevoked} \<or>
            DesiredState d = StateSigned \<and> CertTTL d \<noteq> [] \<and>
              (case parse_duration (CertTTL d) of Inl _ \<Rightarrow> True | Inr t \<Rightarrow> t \<le> 0))) \<and>
    (rs_status resp = 400 \<longrightarrow> fs' = fs) \<and>
    (\<forall>d e. rs_status resp \<noteq> 400 \<and> rq_json r = Inr d \<and>
       (if DesiredState d = StateSigned then \<exists>opts. desired_opts d = Inr opts \<and> ca_sign E c fs n opts = (fs', e)
        else ca_revoke E c fs n = (fs', e)) \<longrightarrow>
       rs_status resp = (case e of None \<Rightarrow> 204 | Some err \<Rightarrow> if err_is_not_found err then 404 else 409))"
proof (cases "rq_json r")
  case (Inl e)
  with assms show ?thesis by (auto simp: h_put_status_def http_error_def)
next
  case (Inr d)
  have differ: "StateSigned \<noteq> StateRevoked" by (simp add: StateSigned_def StateRevoked_def)
  have bad: "(\<exists>e. desired_opts d = Inl e) \<longleftrightarrow> CertTTL d \<noteq> [] \<and>
      (case parse_duration (CertTTL d) of Inl _ \<Rightarrow> True | Inr t \<Rightarrow> t \<le> 0)"
    by (auto simp: desired_opts_def Let_def split: sum.splits)
  show ?thesis
  proof (cases "desired_opts d")
    case (Inl e)
    with assms Inr differ bad show ?thesis
      by (auto simp: h_put_status_def http_error_def header_only_def error_response_def Let_def
          split: if_splits prod.splits option.splits)
  next
    case opts: (Inr opts)
    then have "\<not> (CertTTL d \<noteq> [] \<and> (case parse_duration (CertTTL d) of Inl _ \<Rightarrow> True | Inr t \<Rightarrow> t \<le> 0))"
      using bad by simp
    with assms Inr differ opts show ?thesis
      by (auto simp: h_put_status_def http_error_def header_only_def error_response_def Let_def
          split: if_splits prod.splits option.splits)
  qed
qed

theorem put_status_codes_witness:
  "rs_status (snd (h_put_status ex_env ex_ca ''node1'' (ex_put\<lparr>rq_json := Inr
      \<lparr>DesiredState = ''purged'', DNSAltNames = [], CertTTL = []\<rparr>\<rparr>) ex_fs)) = 400"
proof -
  let ?d = "\<lparr>DesiredState = ''purged'', DNSAltNames = [], CertTTL = []\<rparr>"
  obtain fs' resp where h: "h_put_status ex_env ex_ca ''node1'' (ex_put\<lparr>rq_json := Inr ?d\<rparr>) ex_fs = (fs', resp)"
    by fastforce
  with put_status_codes [OF h] show ?thesis by (simp add: StateSigned_def StateRevoked_def)
qed

text \<open>C35: A certificate that is on disk is what its name's route serves: the bytes of the response
  decode to it, and \<open>ca\<close> serves the CA's own; an invalid or unknown name is answered 404.\<close>

theorem certificate_route_serves_it:
  assumes "ready c fs" and "cadir_at c s fs"
  shows "(\<forall>n crt. valid_certname n \<and> n \<noteq> ''ca'' \<and> slot_cert c fs (Host n) = Some crt \<longrightarrow>
       (\<exists>b. h_get_cert c fs n = write_pem b \<and> decode_cert b = Inr crt)) \<and>
    (\<exists>b. h_get_cert c fs ''ca'' = write_pem b \<and> decode_cert b = Inr (ca_crt c)) \<and>
    (\<forall>n. n \<noteq> ''ca'' \<and> (\<not> valid_certname n \<or> file_at fs (signed_path c n) = None) \<longrightarrow>
       rs_status (h_get_cert c fs n) = 404)"
proof (intro conjI allI impI)
  fix n crt assume n: "valid_certname n \<and> n \<noteq> ''ca'' \<and> slot_cert c fs (Host n) = Some crt"
  with get_cert_on_disk [OF assms, of n crt] show "\<exists>b. h_get_cert c fs n = write_pem b \<and> decode_cert b = Inr crt"
    by (intro exI [of _ "encode_cert crt"]) (simp add: decode_encode_cert)
next
  have "wf_cert (ca_crt c)" using assms(2) by (simp add: cadir_at_def ca_ok_def wf_cert_def)
  then show "\<exists>b. h_get_cert c fs ''ca'' = write_pem b \<and> decode_cert b = Inr (ca_crt c)"
    by (intro exI [of _ "cert_pem c"]) (simp add: h_get_cert_def get_cert_def cert_pem_def decode_encode_cert)
next
  fix n assume n: "n \<noteq> ''ca'' \<and> (\<not> valid_certname n \<or> file_at fs (signed_path c n) = None)"
  show "rs_status (h_get_cert c fs n) = 404"
  proof (cases "valid_certname n")
    case True
    with n ready_read [OF assms(1), of "signed_path c n"] show ?thesis
      by (simp add: h_get_cert_def get_cert_def error_response_def http_error_def)
  next
    case False
    with n show ?thesis by (simp add: h_get_cert_def get_cert_def error_response_def http_error_def)
  qed
qed

theorem certificate_route_serves_it_witness:
  "\<exists>b crt. h_get_cert ex_ca ex_signed ''node1'' = write_pem b \<and> decode_cert b = Inr crt \<and> crt_serial crt = 2"
proof -
  obtain s where s: "cadir_at ex_ca s ex_signed" using ex_signed_inv(2) by blast
  from certificate_route_serves_it [OF ex_signed_inv(1) s] ex_signed_cert ex_valid show ?thesis by blast
qed

section \<open>Revoked client certificates\<close>

text \<open>
  The gate does not look at the revocation list: a host whose certificate was revoked still passes
  it, whatever the list on disk says.
\<close>

lemma gate_ignores_revocation:
  assumes "server_tls_config E a fs = (fs', Inr cfg)" and "tls_accept now cfg (Some crt) = Some 1"
    and "ca_revoke E2 (api_store a) fs' n = (fs2, None)"
    and "server_tls_config E3 a fs2 = (fs3, Inr cfg3)"
  shows "tls_accept now cfg3 (Some crt) = Some 1"
proof -
  have "tc_pool c = [ca_crt (api_store a)] \<and> tc_auth c = VerifyClientCertIfGiven"
    if "server_tls_config F a f = (f', Inr c)" for F f f' c
    using that by (auto simp: server_tls_config_def split: prod.splits sum.splits)
  from this [OF assms(1)] this [OF assms(4)] assms(2) show ?thesis by (simp add: tls_accept_def)
qed

end
