(* ===== verification/Ssldir.thy ===== *)
theory Ssldir
  imports Pki Capi
begin

text \<open>
  \<open>internal/ssldir/ssldir.go\<close>: the agent's directory. Its paths, the creation of its
  sub-directories, and the key that is loaded or made. File modes are not modelled.
\<close>

record ssl_dir =
  sd_dir :: string
  sd_certname :: string

definition private_key_path :: "ssl_dir \<Rightarrow> path" where
  "private_key_path s = filepath_join [sd_dir s, ''private_keys'', sd_certname s @ ''.pem'']"

definition public_key_path :: "ssl_dir \<Rightarrow> path" where
  "public_key_path s = filepath_join [sd_dir s, ''public_keys'', sd_certname s @ ''.pem'']"

definition cert_path :: "ssl_dir \<Rightarrow> path" where
  "cert_path s = filepath_join [sd_dir s, ''certs'', sd_certname s @ ''.pem'']"

definition ca_cert_path :: "ssl_dir \<Rightarrow> path" where
  "ca_cert_path s = filepath_join [sd_dir s, ''certs'', ''ca.pem'']"

definition csr_path :: "ssl_dir \<Rightarrow> path" where
  "csr_path s = filepath_join [sd_dir s, ''certificate_requests'', sd_certname s @ ''.pem'']"

definition crl_path :: "ssl_dir \<Rightarrow> path" where
  "crl_path s = filepath_join [sd_dir s, ''crl.pem'']"

fun ensure_loop :: "ssl_dir \<Rightarrow> bytes os \<Rightarrow> string list \<Rightarrow> bytes os \<times> go_error option" where
  "ensure_loop s fs [] = (fs, None)"
| "ensure_loop s fs (sub # subs) = (case os_mkdir_all fs (filepath_join [sd_dir s, sub]) of
       (fs', Some e) \<Rightarrow> (fs', Some e) | (fs', None) \<Rightarrow> ensure_loop s fs' subs)"

definition ssl_ensure :: "ssl_dir \<Rightarrow> bytes os \<Rightarrow> bytes os \<times> go_error option" where
  "ssl_ensure s fs = (case ensure_loop s fs [''public_keys'', ''certs'', ''certificate_requests''] of
       (fs', Some e) \<Rightarrow> (fs', Some e)
     | (fs', None) \<Rightarrow> os_mkdir_all fs' (filepath_join [sd_dir s, ''private_keys'']))"

definition ssl_exists :: "bytes os \<Rightarrow> path \<Rightarrow> bool" where
  "ssl_exists fs p \<longleftrightarrow> is_ok (os_stat fs p)"

definition has_cert :: "ssl_dir \<Rightarrow> bytes os \<Rightarrow> bool" where
  "has_cert s fs = ssl_exists fs (cert_path s)"

definition has_key :: "ssl_dir \<Rightarrow> bytes os \<Rightarrow> bool" where
  "has_key s fs = ssl_exists fs (private_key_path s)"

definition ssl_load_or_create_key :: "env \<Rightarrow> ssl_dir \<Rightarrow> bytes os \<Rightarrow> int \<Rightarrow> bytes os \<times> rsa_private res" where
  "ssl_load_or_create_key E s fs bits = (case os_read_file fs (private_key_path s) of
       Inr b \<Rightarrow> (fs, decode_private_key b)
     | Inl _ \<Rightarrow>
       (case ssl_ensure s fs of
          (fs1, Some e) \<Rightarrow> (fs1, Inl e)
        | (fs1, None) \<Rightarrow>
          (case generate_key E bits of
             Inl e \<Rightarrow> (fs1, Inl e)
           | Inr key \<Rightarrow>
             (case os_write_file fs1 (private_key_path s) (encode_private_key key) of
                (fs2, Some e) \<Rightarrow> (fs2, Inl e)
              | (fs2, None) \<Rightarrow>
                (case encode_public_key key of
                   Inl e \<Rightarrow> (fs2, Inl e)
                 | Inr pub \<Rightarrow>
                   (case os_write_file fs2 (public_key_path s) pub of
                      (fs3, Some e) \<Rightarrow> (fs3, Inl e)
                    | (fs3, None) \<Rightarrow> (fs3, Inr key)))))))"

definition write_csr :: "ssl_dir \<Rightarrow> bytes os \<Rightarrow> bytes \<Rightarrow> bytes os \<times> go_error option" where
  "write_csr s fs pem = os_write_file fs (csr_path s) pem"

definition write_cert :: "ssl_dir \<Rightarrow> bytes os \<Rightarrow> bytes \<Rightarrow> bytes os \<times> go_error option" where
  "write_cert s fs pem = os_write_file fs (cert_path s) pem"

definition write_ca_cert :: "ssl_dir \<Rightarrow> bytes os \<Rightarrow> bytes \<Rightarrow> bytes os \<times> go_error option" where
  "write_ca_cert s fs pem = os_write_file fs (ca_cert_path s) pem"

definition ssl_write_crl :: "ssl_dir \<Rightarrow> bytes os \<Rightarrow> bytes \<Rightarrow> bytes os \<times> go_error option" where
  "ssl_write_crl s fs pem = os_write_file fs (crl_path s) pem"

definition read_ca_cert :: "ssl_dir \<Rightarrow> bytes os \<Rightarrow> bytes res" where
  "read_ca_cert s fs = os_read_file fs (ca_cert_path s)"

section \<open>Lemmas\<close>

lemma plain_ssl_names [simp]:
  "plain_comp ''private_keys''" "plain_comp ''public_keys''" "plain_comp ''certs''" "plain_comp ''ca.pem''"
  "plain_comp ''certificate_requests''" "plain_comp ''crl.pem''"
  by (simp_all add: plain_comp_def)

lemma ssl_paths [path_simps]:
  assumes "valid_certname (sd_certname s)"
  shows "private_key_path s = sub_path (filepath_clean (sd_dir s)) [''private_keys'', sd_certname s @ ''.pem'']"
    "public_key_path s = sub_path (filepath_clean (sd_dir s)) [''public_keys'', sd_certname s @ ''.pem'']"
    "cert_path s = sub_path (filepath_clean (sd_dir s)) [''certs'', sd_certname s @ ''.pem'']"
    "csr_path s = sub_path (filepath_clean (sd_dir s)) [''certificate_requests'', sd_certname s @ ''.pem'']"
  using assms by (simp_all add: private_key_path_def public_key_path_def cert_path_def csr_path_def path_simps)

lemma ssl_fixed_paths [path_simps]:
  "ca_cert_path s = sub_path (filepath_clean (sd_dir s)) [''certs'', ''ca.pem'']"
  "crl_path s = sub_path (filepath_clean (sd_dir s)) [''crl.pem'']"
  by (simp_all add: ca_cert_path_def crl_path_def path_simps)

text \<open>The one certname whose certificate file is the file of the CA certificate.\<close>

lemma cert_path_ca:
  "valid_certname (sd_certname s) \<Longrightarrow> cert_path s = ca_cert_path s \<longleftrightarrow> sd_certname s = ''ca''"
  using append_same_eq [of "sd_certname s" "''.pem''" "''ca''"] by (simp add: path_simps)

text \<open>A key that was made is the one the next call loads.\<close>

lemma ssl_key_kept:
  assumes "ssl_load_or_create_key E s fs bits = (fs', Inr key)"
    and "valid_certname (sd_certname s)" and "\<And>f p. os_fault fs' f p = None"
  shows "ssl_load_or_create_key E2 s fs' bits2 = (fs', Inr key)"
proof (cases "os_read_file fs (private_key_path s)")
  case (Inr b)
  with assms(1) show ?thesis by (simp add: ssl_load_or_create_key_def)
next
  case (Inl e)
  then obtain fs1 fs2 pub where w: "os_write_file fs1 (private_key_path s) (encode_private_key key) = (fs2, None)"
    "os_write_file fs2 (public_key_path s) pub = (fs', None)"
    using assms(1) by (auto simp: ssl_load_or_create_key_def split: prod.splits option.splits sum.splits)
  have "file_at fs' (private_key_path s) = Some (encode_private_key key)"
    using osf.wr_done [OF w(1)] osf.wr_done [OF w(2)] assms(2) by (simp add: path_simps)
  then have "os_read_file fs' (private_key_path s) = Inr (encode_private_key key)"
    using assms(3) by (auto simp: file_at_def os_read_file_def split: if_splits)
  then show ?thesis
    using key_pem.dec_enc [of key] by (simp add: ssl_load_or_create_key_def res_opt_Some)
qed

end
