(* ===== verification/Identity.thy ===== *)
theory Identity
  imports Pki CastoreStatus
begin

text \<open>
  \<open>agent/identity.go\<close>: the identity an agent holds, and the TLS configurations made from it. A
  configuration reads the certificate through a callback, so it is a function of the identity
  as it is at the handshake; the pool it holds is a copy made when it is built. The lock of the
  Go struct makes each read and each \<open>setCert\<close> one step, as they are here.
\<close>

record identity =
  id_certname :: string
  id_cert :: tls_cert
  id_ca_pem :: bytes
  id_pool :: "certificate list"

definition new_identity :: "string \<Rightarrow> certificate \<Rightarrow> rsa_private \<Rightarrow> bytes \<Rightarrow> identity res" where
  "new_identity certname leaf key ca_pem =
     (let pool = certs_of_pem ca_pem in
      if pool = [] then Inl (EMsg ''cannot parse CA PEM'')
      else Inr \<lparr>id_certname = certname,
             id_cert = \<lparr>tls_chain = [CertDER leaf], tls_key = key, tls_leaf = leaf\<rparr>,
             id_ca_pem = ca_pem, id_pool = pool\<rparr>)"

definition current :: "identity \<Rightarrow> tls_cert" where
  "current i = id_cert i"

definition set_cert :: "identity \<Rightarrow> tls_cert \<Rightarrow> identity" where
  "set_cert i c = i\<lparr>id_cert := c\<rparr>"

definition identity_certname :: "identity \<Rightarrow> string" where "identity_certname i = id_certname i"
definition identity_certificate :: "identity \<Rightarrow> tls_cert" where "identity_certificate i = current i"
definition identity_ca_pool :: "identity \<Rightarrow> certificate list" where "identity_ca_pool i = id_pool i"
definition identity_ca_pem :: "identity \<Rightarrow> bytes" where "identity_ca_pem i = id_ca_pem i"

record client_tls =
  ct_roots :: "certificate list"
  ct_server_name :: string
  ct_min_version :: string
  ct_get_client_certificate :: "identity \<Rightarrow> tls_cert"

definition client_tls_config :: "identity \<Rightarrow> string \<Rightarrow> client_tls" where
  "client_tls_config i server_name = \<lparr>ct_roots = id_pool i, ct_server_name = server_name,
     ct_min_version = ''TLS 1.2'', ct_get_client_certificate = current\<rparr>"

datatype agent_client_auth = NoClientCertificate | RequireAndVerifyClientCert

record server_tls =
  st_client_cas :: "certificate list"
  st_client_auth :: agent_client_auth
  st_min_version :: string
  st_get_certificate :: "identity \<Rightarrow> tls_cert"

definition agent_server_tls_config :: "identity \<Rightarrow> server_tls" where
  "agent_server_tls_config i = \<lparr>st_client_cas = id_pool i, st_client_auth = RequireAndVerifyClientCert,
     st_min_version = ''TLS 1.2'', st_get_certificate = current\<rparr>"

text \<open>\<open>HTTPClient\<close>: no server name, so \<open>crypto/tls\<close> takes the dialed host; its time limit.\<close>

record http_client =
  hc_timeout :: duration
  hc_tls :: client_tls

definition identity_http_client :: "identity \<Rightarrow> http_client" where
  "identity_http_client i = \<lparr>hc_timeout = 30 * second, hc_tls = client_tls_config i []\<rparr>"

definition identity_listener :: "identity \<Rightarrow> string \<Rightarrow> string \<times> server_tls" where
  "identity_listener i addr = (addr, agent_server_tls_config i)"

section \<open>Handshakes of \<open>crypto/tls\<close> under these configurations\<close>

definition usable_for :: "ext_key_usage \<Rightarrow> certificate \<Rightarrow> bool" where
  "usable_for u c \<longleftrightarrow> crt_ext_key_usage c = [] \<or> u \<in> set (crt_ext_key_usage c)"

text \<open>
  What a server does with the leaf a client presents, and a client with a server's leaf, whose
  names must cover the expected one: a DNS name of the leaf, compared without case (wildcards and
  addresses are left out, so this accepts less than the library).
\<close>

definition server_accepts :: "time \<Rightarrow> server_tls \<Rightarrow> certificate option \<Rightarrow> bool" where
  "server_accepts now cfg client = (case client of
       None \<Rightarrow> st_client_auth cfg = NoClientCertificate
     | Some c \<Rightarrow> st_client_auth cfg = NoClientCertificate \<or>
                 x509_verify now (st_client_cas cfg) c \<and> usable_for EkuClientAuth c)"

definition client_accepts :: "time \<Rightarrow> client_tls \<Rightarrow> string \<Rightarrow> certificate \<Rightarrow> bool" where
  "client_accepts now cfg dialed c \<longleftrightarrow>
     x509_verify now (ct_roots cfg) c \<and> usable_for EkuServerAuth c \<and>
     to_lower (if ct_server_name cfg = [] then dialed else ct_server_name cfg) \<in> to_lower ` set (crt_dns c)"

end
