(* ===== verification/Agent.thy ===== *)
theory Agent
  imports Ssldir Identity Requests GoNet
begin

text \<open>
  \<open>agent/agent.go\<close>: enrollment. The network is a parameter (\<open>su_net\<close>): for each request, by its
  time, its number and its contents, what comes back and how long that takes. The context is the time it is
  done and its error. The state is the file system, the clock, which moves with requests and
  waits, and the list of the requests made. Logging is not modelled.
\<close>

section \<open>Surroundings and state\<close>

text \<open>
  A request: the certificates the client trusts (none: it does not verify the server), the
  server name it expects, and the certificate it presents, if any.
\<close>

record http_call =
  hq_method :: string
  hq_url :: string
  hq_roots :: "certificate list option"
  hq_server_name :: string
  hq_cert :: "tls_cert option"
  hq_body :: bytes

text \<open>Status code or error, after a time; then the body with its size, or an error, after a time.\<close>

record http_reply =
  rp_head_time :: nat
  rp_head :: "int res"
  rp_body_time :: nat
  rp_body :: "(bytes \<times> int) res"

type_synonym go_ctx = "(time \<times> go_error) option"

record surroundings =
  su_env :: env
  su_net :: "time \<Rightarrow> nat \<Rightarrow> http_call \<Rightarrow> http_reply"
  su_ctx :: go_ctx
  su_hostname :: "string res"

record world =
  w_fs :: "bytes os"
  w_now :: time
  w_calls :: "http_call list"

definition ctx_err :: "go_ctx \<Rightarrow> time \<Rightarrow> go_error option" where
  "ctx_err c now = (case c of Some (t, e) \<Rightarrow> if t \<le> now then Some e else None | None \<Rightarrow> None)"

section \<open>HTTP helpers\<close>

definition client_timeout :: duration where "client_timeout = 30 * second"

definition maxResponseBytes :: int where "maxResponseBytes = 4194304"

text \<open>The end of a request that started at a time: the client's limit or the context's.\<close>

definition cutoff :: "go_ctx \<Rightarrow> time \<Rightarrow> time \<times> go_error" where
  "cutoff c now =
     (let lim = (now + client_timeout, EOther ''Client.Timeout exceeded'') in
      case c of Some (t, e) \<Rightarrow> if t < now + client_timeout then (t, e) else lim | None \<Rightarrow> lim)"

text \<open>
  \<open>Client.Do\<close> and the reading of the body: an error before the header, or the status code with the
  body and its size or the error that ended the reading.
\<close>

definition http_exchange :: "surroundings \<Rightarrow> http_call \<Rightarrow> world \<Rightarrow> world \<times> (int \<times> (bytes \<times> int) res) res" where
  "http_exchange S c w =
     (case ctx_err (su_ctx S) (w_now w) of
        Some e \<Rightarrow> (w, Inl e)
      | None \<Rightarrow>
          (let r = su_net S (w_now w) (length (w_calls w)) c;
               w1 = w\<lparr>w_calls := w_calls w @ [c]\<rparr>;
               (cut, ce) = cutoff (su_ctx S) (w_now w);
               th = w_now w + int (rp_head_time r); tb = th + int (rp_body_time r)
           in if th > cut then (w1\<lparr>w_now := cut\<rparr>, Inl ce)
              else (case rp_head r of
                  Inl e \<Rightarrow> (w1\<lparr>w_now := th\<rparr>, Inl e)
                | Inr code \<Rightarrow>
                    if tb > cut then (w1\<lparr>w_now := cut\<rparr>, Inr (code, Inl ce))
                    else (w1\<lparr>w_now := tb\<rparr>, Inr (code, rp_body r)))))"

definition http_do :: "surroundings \<Rightarrow> http_call \<Rightarrow> world \<Rightarrow> world \<times> bytes \<times> int \<times> go_error option" where
  "http_do S c w = (case http_exchange S c w of
       (w1, Inl e) \<Rightarrow> (w1, [], 0, Some e)
     | (w1, Inr (code, Inl e)) \<Rightarrow> (w1, [], code, Some e)
     | (w1, Inr (code, Inr (b, n))) \<Rightarrow>
         if n > maxResponseBytes
         then (w1, [], code, Some (EMsg (''response body exceeds '' @ show_int maxResponseBytes @ '' bytes'')))
         else (w1, b, code, None))"

text \<open>What the clients differ in: the certificates trusted, the name, the certificate presented.\<close>

record go_client =
  cl_roots :: "certificate list option"
  cl_server_name :: string
  cl_cert :: "tls_cert option"

definition agent_http_get :: "surroundings \<Rightarrow> go_client \<Rightarrow> string \<Rightarrow> world \<Rightarrow> world \<times> bytes \<times> int \<times> go_error option" where
  "agent_http_get S c url w = http_do S \<lparr>hq_method = ''GET'', hq_url = url, hq_roots = cl_roots c,
     hq_server_name = cl_server_name c, hq_cert = cl_cert c, hq_body = []\<rparr> w"

definition agent_http_put :: "surroundings \<Rightarrow> go_client \<Rightarrow> string \<Rightarrow> bytes \<Rightarrow> world \<Rightarrow> world \<times> bytes \<times> int \<times> go_error option" where
  "agent_http_put S c url body w = http_do S \<lparr>hq_method = ''PUT'', hq_url = url, hq_roots = cl_roots c,
     hq_server_name = cl_server_name c, hq_cert = cl_cert c, hq_body = body\<rparr> w"

section \<open>Configuration\<close>

record agent_config =
  cfg_server :: string
  cfg_certname :: string
  cfg_dir :: string
  cfg_key_bits :: int
  cfg_dns_alt_names :: "string list"
  cfg_extensions :: "(string \<times> string) list"
  cfg_ca_cert :: bytes
  cfg_ca_fingerprint :: string
  cfg_tofu :: bool
  cfg_wait :: duration

record enroller =
  en_cfg :: agent_config
  en_server :: string
  en_certname :: string
  en_ssl :: "ssl_dir option"

definition default_certname :: "string res \<Rightarrow> string" where
  "default_certname h = (case h of Inl _ \<Rightarrow> ''agent'' | Inr s \<Rightarrow> if s = [] then ''agent'' else to_lower s)"

definition new_enroller :: "string res \<Rightarrow> agent_config \<Rightarrow> enroller res" where
  "new_enroller h cfg =
     (if cfg_server cfg = [] then Inl (EMsg ''agent.Config.Server is required'')
      else let server = (case split_host_port (cfg_server cfg) of
                   None \<Rightarrow> join_host_port (cfg_server cfg) ''8140'' | Some _ \<Rightarrow> cfg_server cfg);
               certname = (if cfg_certname cfg = [] then default_certname h else cfg_certname cfg)
        in if \<not> valid_certname certname
           then Inl (EMsg (''invalid certname '' @ go_quote certname @
                  '' (lowercase letters, digits, .-_ only; no path separators)''))
           else Inr \<lparr>en_cfg = cfg, en_server = server, en_certname = certname,
                  en_ssl = (if cfg_dir cfg = [] then None
                            else Some \<lparr>sd_dir = cfg_dir cfg, sd_certname = certname\<rparr>)\<rparr>)"

definition en_base_url :: "enroller \<Rightarrow> string" where
  "en_base_url e = ''https://'' @ en_server e @ Base"

definition en_host :: "enroller \<Rightarrow> string" where
  "en_host e = (case split_host_port (en_server e) of None \<Rightarrow> [] | Some (h, p) \<Rightarrow> h)"

definition ca_url :: "enroller \<Rightarrow> string \<Rightarrow> string" where
  "ca_url e p = en_base_url e @ p @ ''?environment=production''"

section \<open>Pins\<close>

definition fp_norm :: "string \<Rightarrow> string" where
  "fp_norm s = to_lower (filter (\<lambda>c. c \<noteq> CHR '':'') s)"

definition fingerprint_equal :: "string \<Rightarrow> string \<Rightarrow> bool" where
  "fingerprint_equal a b \<longleftrightarrow> fp_norm a = fp_norm b"

definition cert_fingerprint :: "env \<Rightarrow> certificate \<Rightarrow> string" where
  "cert_fingerprint E crt = (case pki_fingerprints E (CertDER crt) ''SHA256'' of Some s \<Rightarrow> s | None \<Rightarrow> [])"

definition validate_pinned_ca :: "env \<Rightarrow> bytes \<Rightarrow> agent_config \<Rightarrow> go_error option" where
  "validate_pinned_ca E ca_pem cfg =
     (case (if cfg_ca_cert cfg = [] then None
            else (case decode_cert ca_pem of
                Inl e \<Rightarrow> Some (EWrap ''stored CA certificate is invalid'' e)
              | Inr stored \<Rightarrow> (case decode_cert (cfg_ca_cert cfg) of
                    Inl e \<Rightarrow> Some (EWrap ''configured CACert is not a certificate'' e)
                  | Inr pinned \<Rightarrow>
                      if CertDER stored \<noteq> CertDER pinned
                      then Some (EMsg ''stored CA certificate does not match configured CACert'')
                      else None))) of
        Some e \<Rightarrow> Some e
      | None \<Rightarrow>
          if cfg_ca_fingerprint cfg = [] then None
          else (case decode_cert ca_pem of
              Inl e \<Rightarrow> Some (EWrap ''stored CA certificate is invalid'' e)
            | Inr crt \<Rightarrow>
                if fingerprint_equal (cert_fingerprint E crt) (cfg_ca_fingerprint cfg) then None
                else Some (EMsg (''stored CA fingerprint mismatch: stored CA is '' @ cert_fingerprint E crt))))"

definition validate_issued_cert :: "time \<Rightarrow> bytes \<Rightarrow> bytes \<Rightarrow> string \<Rightarrow> rsa_private \<Rightarrow> go_error option" where
  "validate_issued_cert now cert_bytes ca_pem certname key =
     (case decode_cert cert_bytes of
        Inl e \<Rightarrow> Some (EWrap ''issued cert is not valid PEM'' e)
      | Inr crt \<Rightarrow>
          if certs_of_pem ca_pem = [] then Some (EMsg ''cannot parse pinned CA'')
          else if \<not> x509_verify now (certs_of_pem ca_pem) crt
            then Some (EWrap ''issued cert does not chain to pinned CA'' (EOther ''x509: verification failed''))
          else if nm_cn (crt_subject crt) \<noteq> certname
            then Some (EMsg (''issued cert CN '' @ go_quote (nm_cn (crt_subject crt)) @
                   '' does not match requested certname '' @ go_quote certname))
          else (case crt_pub crt of
              OtherKey _ \<Rightarrow> Some (EMsg ''issued cert public key does not match local private key'')
            | RSAKey pub \<Rightarrow>
                if rsa_N pub \<noteq> rsa_N (priv_public key) \<or> rsa_E pub \<noteq> rsa_E (priv_public key)
                then Some (EMsg ''issued cert public key does not match local private key'')
                else None))"

section \<open>The stored identity\<close>

text \<open>\<open>None\<close> is the result \<open>ok = false\<close>: not provisioned.\<close>

definition load_from_disk :: "env \<Rightarrow> agent_config \<Rightarrow> string \<Rightarrow> ssl_dir \<Rightarrow> time \<Rightarrow> bytes os \<Rightarrow> identity option res" where
  "load_from_disk E cfg certname ssl now fs =
     (case read_ca_cert ssl fs of
        Inl e \<Rightarrow> if err_is_not_exist e then Inr None else Inl (EWrap ''read stored CA certificate'' e)
      | Inr ca_pem \<Rightarrow>
          if ca_pem = [] \<or> \<not> has_cert ssl fs \<or> \<not> has_key ssl fs then Inr None
          else (case validate_pinned_ca E ca_pem cfg of Some e \<Rightarrow> Inl e | None \<Rightarrow>
            (case os_read_file fs (cert_path ssl) of
               Inl e \<Rightarrow> if err_is_not_exist e then Inr None else Inl (EWrap ''read stored certificate'' e)
             | Inr cert_bytes \<Rightarrow>
            (case os_read_file fs (private_key_path ssl) of
               Inl e \<Rightarrow> if err_is_not_exist e then Inr None else Inl (EWrap ''read stored private key'' e)
             | Inr key_pem \<Rightarrow>
            (case decode_private_key key_pem of Inl e \<Rightarrow> Inl e | Inr key \<Rightarrow>
            (case validate_issued_cert now cert_bytes ca_pem certname key of Some e \<Rightarrow> Inl e | None \<Rightarrow>
            (case decode_cert cert_bytes of Inl e \<Rightarrow> Inl e | Inr leaf \<Rightarrow>
            (case new_identity certname leaf key ca_pem of Inl e \<Rightarrow> Inl e
             | Inr i \<Rightarrow> Inr (Some i)))))))))"

definition no_config :: agent_config where
  "no_config = \<lparr>cfg_server = [], cfg_certname = [], cfg_dir = [], cfg_key_bits = 0,
     cfg_dns_alt_names = [], cfg_extensions = [], cfg_ca_cert = [], cfg_ca_fingerprint = [],
     cfg_tofu = False, cfg_wait = 0\<rparr>"

definition agent_load :: "env \<Rightarrow> string res \<Rightarrow> string \<Rightarrow> string \<Rightarrow> time \<Rightarrow> bytes os \<Rightarrow> identity res" where
  "agent_load E h dir certname0 now fs =
     (if dir = [] then Inl (EMsg ''agent.Load requires a dir'')
      else let certname = (if certname0 = [] then default_certname h else certname0) in
        if \<not> valid_certname certname then Inl (EMsg (''invalid certname '' @ go_quote certname))
        else (case load_from_disk E no_config certname \<lparr>sd_dir = dir, sd_certname = certname\<rparr> now fs of
            Inl e \<Rightarrow> Inl e
          | Inr None \<Rightarrow> Inl (EMsg (''no bootstrapped identity for '' @ go_quote certname @ '' in '' @ dir @
                 '' (run bootstrap first)''))
          | Inr (Some i) \<Rightarrow> Inr i))"

section \<open>Adopting a certificate\<close>

definition adopt :: "enroller \<Rightarrow> bytes \<Rightarrow> bytes \<Rightarrow> rsa_private \<Rightarrow> world \<Rightarrow> world \<times> identity res" where
  "adopt e cert_bytes ca_pem key w =
     (case validate_issued_cert (w_now w) cert_bytes ca_pem (en_certname e) key of
        Some err \<Rightarrow> (w, Inl err)
      | None \<Rightarrow>
          (case (case en_ssl e of None \<Rightarrow> (w_fs w, None) | Some s \<Rightarrow> write_cert s (w_fs w) cert_bytes) of
             (fs1, Some err) \<Rightarrow> (w\<lparr>w_fs := fs1\<rparr>, Inl err)
           | (fs1, None) \<Rightarrow>
               (case decode_cert cert_bytes of
                  Inl err \<Rightarrow> (w\<lparr>w_fs := fs1\<rparr>, Inl err)
                | Inr leaf \<Rightarrow> (w\<lparr>w_fs := fs1\<rparr>, new_identity (en_certname e) leaf key ca_pem))))"

section \<open>The CA to trust\<close>

text \<open>The client that verifies nothing.\<close>

definition tofu_fetch_ca :: "surroundings \<Rightarrow> enroller \<Rightarrow> world \<Rightarrow> world \<times> bytes res" where
  "tofu_fetch_ca S e w =
     (case agent_http_get S \<lparr>cl_roots = None, cl_server_name = [], cl_cert = None\<rparr> (ca_url e ''/certificate/ca'') w of
        (w1, body, code, Some err) \<Rightarrow> (w1, Inl err)
      | (w1, body, code, None) \<Rightarrow>
          if code \<noteq> 200 then (w1, Inl (EMsg (''CA fetch returned '' @ show_int code))) else (w1, Inr body))"

definition trusted_ca :: "surroundings \<Rightarrow> enroller \<Rightarrow> world \<Rightarrow> world \<times> bytes res" where
  "trusted_ca S e w =
     (let cfg = en_cfg e; fp = cert_fingerprint (su_env S) in
      if cfg_ca_cert cfg \<noteq> [] then
        (w, (case decode_cert (cfg_ca_cert cfg) of
             Inl err \<Rightarrow> Inl (EWrap ''pinned CACert is not a certificate'' err)
           | Inr crt \<Rightarrow>
               if cfg_ca_fingerprint cfg \<noteq> [] \<and> \<not> fingerprint_equal (fp crt) (cfg_ca_fingerprint cfg)
               then Inl (EMsg (''configured CACert does not match CAFingerprint: CACert is '' @ fp crt))
               else Inr (cfg_ca_cert cfg)))
      else if cfg_ca_fingerprint cfg \<noteq> [] \<or> cfg_tofu cfg then
        (case tofu_fetch_ca S e w of
           (w1, Inl err) \<Rightarrow> (w1, Inl err)
         | (w1, Inr body) \<Rightarrow>
             (w1, (case decode_cert body of
                Inl err \<Rightarrow> Inl (EWrap ''CA response is not a certificate'' err)
              | Inr crt \<Rightarrow>
                  if cfg_ca_fingerprint cfg \<noteq> [] \<and> \<not> fingerprint_equal (fp crt) (cfg_ca_fingerprint cfg)
                  then Inl (EMsg (''CA fingerprint mismatch: server presented '' @ fp crt))
                  else Inr body)))
      else (w, Inl (EMsg ''no CA trust configured: set CACert, CAFingerprint, or TrustOnFirstUse'')))"

definition stored_ca :: "enroller \<Rightarrow> world \<Rightarrow> bytes option" where
  "stored_ca e w = (case en_ssl e of None \<Rightarrow> None
     | Some s \<Rightarrow> (case read_ca_cert s (w_fs w) of Inl _ \<Rightarrow> None | Inr b \<Rightarrow> if b = [] then None else Some b))"

definition obtain_ca :: "surroundings \<Rightarrow> enroller \<Rightarrow> world \<Rightarrow> world \<times> bytes res" where
  "obtain_ca S e w = (case stored_ca e w of
       Some b \<Rightarrow> (w, (case validate_pinned_ca (su_env S) b (en_cfg e) of Some err \<Rightarrow> Inl err | None \<Rightarrow> Inr b))
     | None \<Rightarrow>
         (case trusted_ca S e w of
            (w1, Inl err) \<Rightarrow> (w1, Inl err)
          | (w1, Inr ca_pem) \<Rightarrow>
              (case en_ssl e of
                 None \<Rightarrow> (w1, Inr ca_pem)
               | Some s \<Rightarrow> (case write_ca_cert s (w_fs w1) ca_pem of
                     (fs2, Some err) \<Rightarrow> (w1\<lparr>w_fs := fs2\<rparr>, Inl err)
                   | (fs2, None) \<Rightarrow> (w1\<lparr>w_fs := fs2\<rparr>, Inr ca_pem)))))"

definition verified_client :: "enroller \<Rightarrow> bytes \<Rightarrow> tls_cert option \<Rightarrow> go_client res" where
  "verified_client e ca_pem client_cert =
     (let pool = certs_of_pem ca_pem in
      if pool = [] then Inl (EMsg ''could not parse CA certificate'')
      else Inr \<lparr>cl_roots = Some pool, cl_server_name = en_host e, cl_cert = client_cert\<rparr>)"

definition load_or_create_key :: "surroundings \<Rightarrow> enroller \<Rightarrow> int \<Rightarrow> world \<Rightarrow> world \<times> rsa_private res" where
  "load_or_create_key S e bits w = (case en_ssl e of
       None \<Rightarrow> (w, generate_key (su_env S) bits)
     | Some s \<Rightarrow> (let (fs1, r) = ssl_load_or_create_key (su_env S) s (w_fs w) bits in (w\<lparr>w_fs := fs1\<rparr>, r)))"

section \<open>Waiting for the certificate\<close>

definition cert_url :: "enroller \<Rightarrow> string" where
  "cert_url e = ca_url e (''/certificate/'' @ en_certname e)"

definition poll_interval :: "duration \<Rightarrow> duration" where
  "poll_interval wait = (if wait > 0 \<and> wait < 10 * second then wait else 10 * second)"

lemma poll_interval_pos: "0 < poll_interval wait"
  by (simp add: poll_interval_def second_def)

lemma ctx_err_None: "ctx_err c now = None \<longleftrightarrow> (\<forall>t e. c = Some (t, e) \<longrightarrow> now < t)"
  by (cases c) (auto simp: ctx_err_def split: if_splits)

lemma cutoff_bounds:
  "ctx_err c now = None \<Longrightarrow> cutoff c now = (t, e) \<Longrightarrow> now < t \<and> t \<le> now + client_timeout"
  by (auto simp: cutoff_def ctx_err_def client_timeout_def second_def split: option.splits if_splits)

lemma http_exchange_time:
  "http_exchange S c w = (w1, r) \<Longrightarrow> w_now w \<le> w_now w1 \<and> w_now w1 \<le> w_now w + client_timeout"
  using cutoff_bounds [of "su_ctx S" "w_now w"]
  by (fastforce simp: http_exchange_def Let_def client_timeout_def second_def
      split: option.splits prod.splits sum.splits if_splits)

lemma http_do_exchange: "http_do S c w = (w1, r) \<Longrightarrow> \<exists>q. http_exchange S c w = (w1, q)"
  by (auto simp: http_do_def split: prod.splits sum.splits if_splits)

lemma http_do_time:
  "http_do S c w = (w1, r) \<Longrightarrow> w_now w \<le> w_now w1 \<and> w_now w1 \<le> w_now w + client_timeout"
  by (blast dest: http_do_exchange http_exchange_time)

lemma agent_http_get_time: "agent_http_get S c u w = (w1, r) \<Longrightarrow> w_now w \<le> w_now w1"
  by (auto simp: agent_http_get_def dest: http_do_time)

text \<open>
  One round asks, then gives up or waits. The wait ends at the context's time when that comes
  first. The distance to the deadline shrinks with every round that waits.
\<close>

function poll_loop :: "surroundings \<Rightarrow> enroller \<Rightarrow> go_client \<Rightarrow> time \<Rightarrow> world \<Rightarrow> world \<times> bytes res" where
  "poll_loop S e c deadline w =
     (case ctx_err (su_ctx S) (w_now w) of
        Some err \<Rightarrow> (w, Inl err)
      | None \<Rightarrow>
          (case agent_http_get S c (cert_url e) w of
             (w1, body, code, err) \<Rightarrow>
               if err = None \<and> code = 200 then (w1, Inr body)
               else if cfg_wait (en_cfg e) \<le> 0
                 then (w1, Inl (EMsg ''certificate not yet signed (run again or have the CA sign it)''))
               else if deadline - w_now w1 \<le> 0
                 then (w1, Inl (EMsg (''gave up waiting for certificate after '' @
                        duration_string (cfg_wait (en_cfg e)))))
               else
                 (let wake = w_now w1 + min (poll_interval (cfg_wait (en_cfg e))) (deadline - w_now w1) in
                  case ctx_err (su_ctx S) wake of
                    Some err \<Rightarrow> (w1\<lparr>w_now := max (w_now w1) (fst (the (su_ctx S)))\<rparr>, Inl err)
                  | None \<Rightarrow> poll_loop S e c deadline (w1\<lparr>w_now := wake\<rparr>))))"
  by pat_completeness auto
termination
proof (relation "measure (\<lambda>(S, e, c, deadline, w). nat (deadline - w_now w))", goal_cases)
  case 1
  show ?case by simp
next
  case (2 S e c deadline w w1 body r code err wake)
  then have "w_now w \<le> w_now w1"
    by (metis agent_http_get_time)
  with 2 poll_interval_pos [of "cfg_wait (en_cfg e)"] show ?case by auto
qed

declare poll_loop.simps [simp del]

definition poll_for_cert :: "surroundings \<Rightarrow> enroller \<Rightarrow> go_client \<Rightarrow> world \<Rightarrow> world \<times> bytes res" where
  "poll_for_cert S e c w = poll_loop S e c (w_now w + cfg_wait (en_cfg e)) w"


section \<open>Enrollment\<close>

text \<open>The revocation list is stored only when its request succeeded; its write may fail.\<close>

definition fetch_crl :: "surroundings \<Rightarrow> enroller \<Rightarrow> go_client \<Rightarrow> world \<Rightarrow> world" where
  "fetch_crl S e c w = (case en_ssl e of
       None \<Rightarrow> w
     | Some s \<Rightarrow>
         (case agent_http_get S c (ca_url e ''/certificate_revocation_list/ca'') w of
            (w1, crl, code, err) \<Rightarrow>
              if err = None \<and> code = 200 then w1\<lparr>w_fs := fst (ssl_write_crl s (w_fs w1) crl)\<rparr> else w1))"

definition store_csr :: "enroller \<Rightarrow> bytes \<Rightarrow> world \<Rightarrow> world \<times> go_error option" where
  "store_csr e csr_bytes w = (case en_ssl e of
       None \<Rightarrow> (w, None)
     | Some s \<Rightarrow> (let (fs1, err) = write_csr s (w_fs w) csr_bytes in (w\<lparr>w_fs := fs1\<rparr>, err)))"

text \<open>The part of \<open>run\<close> after the first look for a certificate: request, submit, wait, adopt.\<close>

definition request_cert ::
  "surroundings \<Rightarrow> enroller \<Rightarrow> go_client \<Rightarrow> bytes \<Rightarrow> rsa_private \<Rightarrow> world \<Rightarrow> world \<times> identity res" where
  "request_cert S e c ca_pem key w =
     (case build_extensions (cfg_extensions (en_cfg e)) of
        Inl err \<Rightarrow> (w, Inl (EWrap ''extension requests'' err))
      | Inr exts \<Rightarrow>
     (case create_csr key (en_certname e) (cfg_dns_alt_names (en_cfg e)) exts of
        Inl err \<Rightarrow> (w, Inl err)
      | Inr csr_bytes \<Rightarrow>
     (case store_csr e csr_bytes w of
        (w1, Some err) \<Rightarrow> (w1, Inl err)
      | (w1, None) \<Rightarrow>
     (case agent_http_put S c (ca_url e (''/certificate_request/'' @ en_certname e)) csr_bytes w1 of
        (w2, body, code, Some err) \<Rightarrow> (w2, Inl (EWrap ''submit CSR'' err))
      | (w2, body, code, None) \<Rightarrow>
          if code \<noteq> 200 then (w2, Inl (EMsg (''submit CSR: server returned '' @ show_int code)))
          else (case poll_for_cert S e c w2 of
              (w3, Inl err) \<Rightarrow> (w3, Inl err)
            | (w3, Inr cert_bytes) \<Rightarrow> adopt e cert_bytes ca_pem key w3)))))"

text \<open>The part of \<open>run\<close> that needs the network.\<close>

definition enroll_online :: "surroundings \<Rightarrow> enroller \<Rightarrow> int \<Rightarrow> world \<Rightarrow> world \<times> identity res" where
  "enroll_online S e key_bits w =
     (case obtain_ca S e w of
        (w1, Inl err) \<Rightarrow> (w1, Inl (EWrap ''obtain CA'' err))
      | (w1, Inr ca_pem) \<Rightarrow>
     (case verified_client e ca_pem None of
        Inl err \<Rightarrow> (w1, Inl err)
      | Inr c \<Rightarrow>
     (case load_or_create_key S e key_bits (fetch_crl S e c w1) of
        (w3, Inl err) \<Rightarrow> (w3, Inl err)
      | (w3, Inr key) \<Rightarrow>
     (case agent_http_get S c (cert_url e) w3 of
        (w4, body, code, err) \<Rightarrow>
          if code = 200 then adopt e body ca_pem key w4
          else request_cert S e c ca_pem key w4))))"

definition enroll_run :: "surroundings \<Rightarrow> enroller \<Rightarrow> world \<Rightarrow> world \<times> identity res" where
  "enroll_run S e w =
     (let key_bits = (if cfg_key_bits (en_cfg e) \<le> 0 then DefaultKeyBits else cfg_key_bits (en_cfg e)) in
      if key_bits < 2048
      then (w, Inl (EMsg (''agent.Config.KeyBits must be at least 2048 (got '' @ show_int key_bits @ '')'')))
      else (case en_ssl e of
          None \<Rightarrow> enroll_online S e key_bits w
        | Some s \<Rightarrow>
            (case load_from_disk (su_env S) (en_cfg e) (en_certname e) s (w_now w) (w_fs w) of
               Inl err \<Rightarrow> (w, Inl err)
             | Inr (Some i) \<Rightarrow> (w, Inr i)
             | Inr None \<Rightarrow>
                 (case ssl_ensure s (w_fs w) of
                    (fs1, Some err) \<Rightarrow> (w\<lparr>w_fs := fs1\<rparr>, Inl err)
                  | (fs1, None) \<Rightarrow> enroll_online S e key_bits (w\<lparr>w_fs := fs1\<rparr>)))))"

definition enroll :: "surroundings \<Rightarrow> agent_config \<Rightarrow> world \<Rightarrow> world \<times> identity res" where
  "enroll S cfg w = (case new_enroller (su_hostname S) cfg of
       Inl err \<Rightarrow> (w, Inl err) | Inr e \<Rightarrow> enroll_run S e w)"

end
