(* ===== verification/AgentInv.thy ===== *)
theory AgentInv
  imports Agent
begin

text \<open>
  What enrollment does to the world, as a relation: every operation of the agent is a run of the
  steps of \<open>agent_step\<close> (a request, a wait, a file of the ssldir, a directory), so what each
  step keeps is kept by all of them.
\<close>

section \<open>Trust\<close>

text \<open>A CA that agrees with the pins of the configuration.\<close>

definition pins_agree :: "env \<Rightarrow> agent_config \<Rightarrow> bytes \<Rightarrow> bool" where
  "pins_agree E cfg ca_pem \<longleftrightarrow>
     (cfg_ca_cert cfg \<noteq> [] \<longrightarrow>
        is_ok (decode_cert ca_pem) \<and> decode_cert (cfg_ca_cert cfg) = decode_cert ca_pem) \<and>
     (cfg_ca_fingerprint cfg \<noteq> [] \<longrightarrow> is_ok (decode_cert ca_pem) \<and>
        fingerprint_equal (cert_fingerprint E (projr (decode_cert ca_pem))) (cfg_ca_fingerprint cfg))"

lemma validate_pinned_ca_None: "validate_pinned_ca E b cfg = None \<longleftrightarrow> pins_agree E cfg b"
  by (cases "decode_cert b"; cases "decode_cert (cfg_ca_cert cfg)")
    (auto simp: validate_pinned_ca_def pins_agree_def)

lemma pins_agree_no_config [simp]: "pins_agree E no_config b"
  by (simp add: pins_agree_def no_config_def)

lemma trusted_ca_pins:
  assumes "trusted_ca S e w = (w1, Inr b)"
  shows "pins_agree (su_env S) (en_cfg e) b \<and> is_ok (decode_cert b)"
  using assms by (auto simp: trusted_ca_def pins_agree_def Let_def split: if_splits sum.splits prod.splits)

lemma obtain_ca_pins: "obtain_ca S e w = (w1, Inr b) \<Longrightarrow> pins_agree (su_env S) (en_cfg e) b"
  by (auto simp: obtain_ca_def validate_pinned_ca_None dest!: trusted_ca_pins split: option.splits sum.splits prod.splits)

section \<open>Sound identities\<close>

definition identity_ok :: "time \<Rightarrow> identity \<Rightarrow> bool" where
  "identity_ok now i \<longleftrightarrow>
     tls_chain (id_cert i) = [CertDER (tls_leaf (id_cert i))] \<and>
     nm_cn (crt_subject (tls_leaf (id_cert i))) = id_certname i \<and>
     crt_pub (tls_leaf (id_cert i)) = RSAKey (priv_public (tls_key (id_cert i))) \<and>
     id_pool i = certs_of_pem (id_ca_pem i) \<and>
     x509_verify now (id_pool i) (tls_leaf (id_cert i))"

lemma validate_issued_cert_None:
  "validate_issued_cert now b ca_pem n key = None \<longleftrightarrow>
     (\<exists>crt. decode_cert b = Inr crt \<and> x509_verify now (certs_of_pem ca_pem) crt \<and>
            certs_of_pem ca_pem \<noteq> [] \<and> nm_cn (crt_subject crt) = n \<and> crt_pub crt = RSAKey (priv_public key))"
proof -
  have eq: "rsa_N p = rsa_N q \<and> rsa_E p = rsa_E q \<longleftrightarrow> p = q" for p q :: rsa_public
    by (metis rsa_public.equality old.unit.exhaust)
  show ?thesis
    by (auto simp: validate_issued_cert_def eq [symmetric] split: sum.splits pubkey.splits)
qed

lemma new_identity_Inr:
  "new_identity n leaf key ca_pem = Inr i \<longleftrightarrow>
     certs_of_pem ca_pem \<noteq> [] \<and>
     i = \<lparr>id_certname = n, id_cert = \<lparr>tls_chain = [CertDER leaf], tls_key = key, tls_leaf = leaf\<rparr>,
          id_ca_pem = ca_pem, id_pool = certs_of_pem ca_pem\<rparr>"
  by (auto simp: new_identity_def Let_def)

lemma validated_identity:
  assumes "validate_issued_cert now b ca_pem n key = None" and "decode_cert b = Inr leaf"
  obtains i where "new_identity n leaf key ca_pem = Inr i" "identity_ok now i" "id_certname i = n"
    "id_ca_pem i = ca_pem" "tls_key (id_cert i) = key" "tls_leaf (id_cert i) = leaf"
  using assms by (auto simp: validate_issued_cert_None new_identity_Inr identity_ok_def)

text \<open>Loading, in one formula.\<close>

lemma load_from_disk_Some:
  "load_from_disk E cfg n s now fs = Inr (Some i) \<longleftrightarrow>
     (\<exists>ca_pem cb kb key leaf.
        read_ca_cert s fs = Inr ca_pem \<and> ca_pem \<noteq> [] \<and> has_cert s fs \<and> has_key s fs \<and>
        pins_agree E cfg ca_pem \<and> os_read_file fs (cert_path s) = Inr cb \<and>
        os_read_file fs (private_key_path s) = Inr kb \<and> decode_private_key kb = Inr key \<and>
        validate_issued_cert now cb ca_pem n key = None \<and> decode_cert cb = Inr leaf \<and>
        new_identity n leaf key ca_pem = Inr i)"
  by (auto simp: load_from_disk_def validate_pinned_ca_None [symmetric]
      split: sum.splits option.splits if_splits)

lemma load_from_disk_ok:
  assumes "load_from_disk E cfg n s now fs = Inr (Some i)"
  shows "identity_ok now i \<and> id_certname i = n \<and> pins_agree E cfg (id_ca_pem i) \<and>
     read_ca_cert s fs = Inr (id_ca_pem i)"
  using assms unfolding load_from_disk_Some
  by (auto simp: validate_issued_cert_None new_identity_Inr identity_ok_def)

lemma adopt_ok:
  assumes "adopt e b ca_pem key w = (w', Inr i)"
  shows "identity_ok (w_now w') i \<and> id_certname i = en_certname e \<and> id_ca_pem i = ca_pem \<and>
     tls_key (id_cert i) = key \<and> w_now w' = w_now w"
  using assms
  by (auto simp: adopt_def validate_issued_cert_None new_identity_Inr identity_ok_def
      split: option.splits sum.splits prod.splits)

section \<open>Steps\<close>

text \<open>The files that may be written at any time; the key files are written only when the key
  could not be read.\<close>

definition cert_files :: "ssl_dir \<Rightarrow> path set" where
  "cert_files s = {ca_cert_path s, crl_path s, csr_path s, cert_path s}"

definition key_files :: "ssl_dir \<Rightarrow> path set" where
  "key_files s = {private_key_path s, public_key_path s}"

text \<open>
  A request is either the one for the CA certificate, without verification and only when the
  configuration says so, or it goes over a connection that is verified against a CA that agrees
  with the pins.
\<close>

definition call_allowed :: "surroundings \<Rightarrow> enroller \<Rightarrow> http_call \<Rightarrow> bool" where
  "call_allowed S e c \<longleftrightarrow>
     hq_cert c = None \<and> (hq_roots c = None \<and> hq_method c = ''GET'' \<and> hq_url c = ca_url e ''/certificate/ca'' \<and> hq_body c = [] \<and>
       cfg_ca_cert (en_cfg e) = [] \<and> (cfg_ca_fingerprint (en_cfg e) \<noteq> [] \<or> cfg_tofu (en_cfg e))
   \<or> (\<exists>ca_pem. pins_agree (su_env S) (en_cfg e) ca_pem \<and> certs_of_pem ca_pem \<noteq> [] \<and>
        hq_roots c = Some (certs_of_pem ca_pem) \<and> hq_server_name c = en_host e))"

inductive agent_step :: "surroundings \<Rightarrow> enroller \<Rightarrow> world \<Rightarrow> world \<Rightarrow> bool" for S e where
  Call: "call_allowed S e c \<Longrightarrow> http_do S c w = (w', r) \<Longrightarrow> agent_step S e w w'"
| Wait: "w_now w \<le> t \<Longrightarrow> agent_step S e w (w\<lparr>w_now := t\<rparr>)"
| File: "en_ssl e = Some s \<Longrightarrow> p \<in> cert_files s \<Longrightarrow> os_write_file (w_fs w) p b = (fs', err) \<Longrightarrow>
     agent_step S e w (w\<lparr>w_fs := fs'\<rparr>)"
| Key: "en_ssl e = Some s \<Longrightarrow> os_read_file (w_fs w) (private_key_path s) = Inl er \<Longrightarrow>
     fst (ssl_load_or_create_key (su_env S) s (w_fs w) bits) = fs' \<Longrightarrow>
     agent_step S e w (w\<lparr>w_fs := fs'\<rparr>)"
| Dirs: "en_ssl e = Some s \<Longrightarrow> fst (ssl_ensure s (w_fs w)) = fs' \<Longrightarrow> agent_step S e w (w\<lparr>w_fs := fs'\<rparr>)"

inductive_cases agent_stepE: "agent_step S e w w'"

abbreviation agent_steps :: "surroundings \<Rightarrow> enroller \<Rightarrow> world \<Rightarrow> world \<Rightarrow> bool" where
  "agent_steps S e \<equiv> (agent_step S e)\<^sup>*\<^sup>*"

named_theorems steps \<open>every operation of the agent is a run of steps\<close>

lemma call_steps: "http_do S c w = (w', r) \<Longrightarrow> call_allowed S e c \<Longrightarrow> agent_steps S e w w'"
  by (blast intro: agent_step.Call)

lemma wait_steps: "w_now w \<le> t \<Longrightarrow> agent_steps S e w (w\<lparr>w_now := t\<rparr>)"
  by (blast intro: agent_step.Wait)

lemma file_steps [steps]:
  "en_ssl e = Some s \<Longrightarrow> write_ca_cert s (w_fs w) b = (fs', err) \<Longrightarrow> agent_steps S e w (w\<lparr>w_fs := fs'\<rparr>)"
  "en_ssl e = Some s \<Longrightarrow> ssl_write_crl s (w_fs w) b = (fs', err) \<Longrightarrow> agent_steps S e w (w\<lparr>w_fs := fs'\<rparr>)"
  "en_ssl e = Some s \<Longrightarrow> write_csr s (w_fs w) b = (fs', err) \<Longrightarrow> agent_steps S e w (w\<lparr>w_fs := fs'\<rparr>)"
  "en_ssl e = Some s \<Longrightarrow> write_cert s (w_fs w) b = (fs', err) \<Longrightarrow> agent_steps S e w (w\<lparr>w_fs := fs'\<rparr>)"
  unfolding write_ca_cert_def ssl_write_crl_def write_csr_def write_cert_def
  by (rule r_into_rtranclp, erule agent_step.File, simp_all add: cert_files_def)+

lemma adopt_steps [steps]: "adopt e b ca_pem key w = (w', r) \<Longrightarrow> agent_steps S e w w'"
  by (auto simp: adopt_def intro: steps split: option.splits prod.splits sum.splits)

text \<open>The client that trusts a CA which agrees with the pins.\<close>

definition pinned_client :: "surroundings \<Rightarrow> enroller \<Rightarrow> go_client \<Rightarrow> bool" where
  "pinned_client S e c \<longleftrightarrow> cl_server_name c = en_host e \<and> cl_cert c = None \<and>
     (\<exists>ca_pem. pins_agree (su_env S) (en_cfg e) ca_pem \<and> verified_client e ca_pem None = Inr c)"

lemma pinned_client_allowed:
  "pinned_client S e c \<Longrightarrow>
     call_allowed S e \<lparr>hq_method = m, hq_url = u, hq_roots = cl_roots c, hq_server_name = cl_server_name c, hq_cert = cl_cert c, hq_body = b\<rparr>"
  by (auto simp: pinned_client_def call_allowed_def verified_client_def Let_def split: if_splits)

lemma verified_client_pinned:
  "verified_client e ca_pem None = Inr c \<Longrightarrow> pins_agree (su_env S) (en_cfg e) ca_pem \<Longrightarrow> pinned_client S e c"
  by (auto simp: pinned_client_def verified_client_def Let_def split: if_splits)

lemma agent_http_steps [steps]:
  "pinned_client S e c \<Longrightarrow> agent_http_get S c u w = (w', r) \<Longrightarrow> agent_steps S e w w'"
  "pinned_client S e c \<Longrightarrow> agent_http_put S c u b w = (w', r) \<Longrightarrow> agent_steps S e w w'"
  unfolding agent_http_get_def agent_http_put_def by (erule call_steps, erule pinned_client_allowed)+

lemma tofu_fetch_steps:
  assumes "tofu_fetch_ca S e w = (w', r)" and "cfg_ca_cert (en_cfg e) = []"
    and "cfg_ca_fingerprint (en_cfg e) \<noteq> [] \<or> cfg_tofu (en_cfg e)"
  shows "agent_steps S e w w'"
proof -
  obtain w1 body code err where g: "agent_http_get S \<lparr>cl_roots = None, cl_server_name = [], cl_cert = None\<rparr> (ca_url e ''/certificate/ca'') w
      = (w1, body, code, err)" by (metis prod.collapse)
  with assms(1) have "w' = w1" by (auto simp: tofu_fetch_ca_def split: option.splits if_splits)
  with g assms(2,3) show ?thesis
    unfolding agent_http_get_def by (auto simp: call_allowed_def elim!: call_steps)
qed

lemma trusted_ca_steps: "trusted_ca S e w = (w', r) \<Longrightarrow> agent_steps S e w w'"
  by (auto simp: trusted_ca_def Let_def intro: tofu_fetch_steps split: if_splits prod.splits sum.splits)

lemma obtain_ca_steps [steps]: "obtain_ca S e w = (w', r) \<Longrightarrow> agent_steps S e w w'"
  by (auto simp: obtain_ca_def intro: trusted_ca_steps
      intro: rtranclp_trans [OF trusted_ca_steps file_steps(1)] split: option.splits prod.splits sum.splits)

text \<open>The rounds of the waiting loop, as an induction rule.\<close>

lemma poll_rounds [consumes 1, case_names Over Hit Stop Cancel Again]:
  assumes run: "poll_loop S e c d w = (w', r)"
    and over: "\<And>w err. ctx_err (su_ctx S) (w_now w) = Some err \<Longrightarrow> P w w (Inl err)"
    and hit: "\<And>w w1 body. ctx_err (su_ctx S) (w_now w) = None \<Longrightarrow>
      agent_http_get S c (cert_url e) w = (w1, body, 200, None) \<Longrightarrow> P w w1 (Inr body)"
    and stop: "\<And>w w1 body code err m. ctx_err (su_ctx S) (w_now w) = None \<Longrightarrow>
      agent_http_get S c (cert_url e) w = (w1, body, code, err) \<Longrightarrow> \<not> (err = None \<and> code = 200) \<Longrightarrow>
      cfg_wait (en_cfg e) \<le> 0 \<or> d \<le> w_now w1 \<Longrightarrow> P w w1 (Inl m)"
    and cancel: "\<And>w w1 body code err wake ce. ctx_err (su_ctx S) (w_now w) = None \<Longrightarrow>
      agent_http_get S c (cert_url e) w = (w1, body, code, err) \<Longrightarrow> w_now w1 < d \<Longrightarrow> 0 < cfg_wait (en_cfg e) \<Longrightarrow>
      wake = w_now w1 + min (poll_interval (cfg_wait (en_cfg e))) (d - w_now w1) \<Longrightarrow>
      ctx_err (su_ctx S) wake = Some ce \<Longrightarrow> P w (w1\<lparr>w_now := max (w_now w1) (fst (the (su_ctx S)))\<rparr>) (Inl ce)"
    and again: "\<And>w w1 body code err wake w' r. ctx_err (su_ctx S) (w_now w) = None \<Longrightarrow>
      agent_http_get S c (cert_url e) w = (w1, body, code, err) \<Longrightarrow> \<not> (err = None \<and> code = 200) \<Longrightarrow>
      w_now w1 < d \<Longrightarrow> 0 < cfg_wait (en_cfg e) \<Longrightarrow>
      wake = w_now w1 + min (poll_interval (cfg_wait (en_cfg e))) (d - w_now w1) \<Longrightarrow>
      ctx_err (su_ctx S) wake = None \<Longrightarrow> P (w1\<lparr>w_now := wake\<rparr>) w' r \<Longrightarrow> P w w' r"
  shows "P w w' r"
  using assms
proof (induction S e c d w rule: poll_loop.induct)
  case (1 S e c d w)
  note run = "1.prems"(1) and rules = "1.prems"(2-6)
  show ?case
  proof (cases "ctx_err (su_ctx S) (w_now w)")
    case (Some err)
    with run rules(1) show ?thesis by (auto simp: poll_loop.simps [of S e c d w])
  next
    case None
    obtain w1 body code err where g: "agent_http_get S c (cert_url e) w = (w1, body, code, err)"
      by (metis prod.collapse)
    define wake where "wake = w_now w1 + min (poll_interval (cfg_wait (en_cfg e))) (d - w_now w1)"
    show ?thesis
    proof (cases "(err = None \<and> code = 200) \<or> cfg_wait (en_cfg e) \<le> 0 \<or> d - w_now w1 \<le> 0")
      case True
      with run None g rules(2) [OF None] rules(3) [OF None g] show ?thesis
        by (auto simp: poll_loop.simps [of S e c d w] split: if_splits)
    next
      case False
      then have go: "w_now w1 < d" "0 < cfg_wait (en_cfg e)" "\<not> (err = None \<and> code = 200)" by auto
      show ?thesis
      proof (cases "ctx_err (su_ctx S) wake")
        case (Some ce)
        with run None g False have "w' = w1\<lparr>w_now := max (w_now w1) (fst (the (su_ctx S)))\<rparr> \<and> r = Inl ce"
          by (auto simp: poll_loop.simps [of S e c d w] wake_def Let_def)
        with rules(4) [OF None g go(1,2) wake_def Some] show ?thesis by simp
      next
        case w: None
        have "poll_loop S e c d (w1\<lparr>w_now := wake\<rparr>) = (w', r)"
          using run None g go w by (auto simp: poll_loop.simps [of S e c d w] wake_def [symmetric] Let_def split: if_splits)
        then have "P (w1\<lparr>w_now := wake\<rparr>) w' r"
          using "1.IH" [OF None g [symmetric] refl refl go(3) _ _ wake_def w] go rules by auto
        with rules(5) [OF None g go(3,1,2) wake_def w] show ?thesis by simp
      qed
    qed
  qed
qed

lemma poll_loop_steps:
  "poll_loop S e c d w = (w', r) \<Longrightarrow> pinned_client S e c \<Longrightarrow> agent_steps S e w w'"
proof (induction rule: poll_rounds)
  case (Cancel w w1 body code err wake ce)
  then show ?case
    using agent_http_steps(1) [OF Cancel(7,2)] wait_steps [of w1 "max (w_now w1) (fst (the (su_ctx S)))" S e] by simp
next
  case (Again w w1 body code err wake w' r)
  have "w_now w1 \<le> wake" using Again(4,6) poll_interval_pos [of "cfg_wait (en_cfg e)"] by simp
  from agent_http_steps(1) [OF Again(9,2)] wait_steps [OF this, of S e] Again(8,9) show ?case
    by (meson rtranclp_trans)
qed (auto intro: agent_http_steps)


lemma poll_for_cert_steps [steps]:
  "poll_for_cert S e c w = (w', r) \<Longrightarrow> pinned_client S e c \<Longrightarrow> agent_steps S e w w'"
  unfolding poll_for_cert_def by (rule poll_loop_steps)

lemma load_or_create_key_steps [steps]:
  assumes "load_or_create_key S e bits w = (w', r)"
  shows "agent_steps S e w w'"
proof (cases "en_ssl e")
  case None
  with assms show ?thesis by (simp add: load_or_create_key_def)
next
  case (Some s)
  show ?thesis
  proof (cases "os_read_file (w_fs w) (private_key_path s)")
    case (Inl er)
    from assms Some have "w' = w\<lparr>w_fs := fst (ssl_load_or_create_key (su_env S) s (w_fs w) bits)\<rparr>"
      by (auto simp: load_or_create_key_def split: prod.splits)
    with agent_step.Key [OF Some Inl refl] show ?thesis by (auto intro: r_into_rtranclp)
  next
    case (Inr b)
    with assms Some show ?thesis by (auto simp: load_or_create_key_def ssl_load_or_create_key_def)
  qed
qed

lemma fetch_crl_steps [steps]:
  assumes "pinned_client S e c"
  shows "agent_steps S e w (fetch_crl S e c w)"
proof (cases "en_ssl e")
  case (Some s)
  obtain w1 crl code err where g: "agent_http_get S c (ca_url e ''/certificate_revocation_list/ca'') w = (w1, crl, code, err)"
    by (metis prod.collapse)
  obtain fs2 er where "ssl_write_crl s (w_fs w1) crl = (fs2, er)" by fastforce
  with g Some agent_http_steps(1) [OF assms g] file_steps(2) [OF Some this] show ?thesis
    by (auto simp: fetch_crl_def intro: rtranclp_trans)
qed (simp add: fetch_crl_def)

lemma store_csr_steps [steps]: "store_csr e b w = (w', r) \<Longrightarrow> agent_steps S e w w'"
  by (auto simp: store_csr_def intro: file_steps split: option.splits prod.splits)

lemma request_cert_steps [steps]:
  assumes "request_cert S e c ca_pem key w = (w', r)" and "pinned_client S e c"
  shows "agent_steps S e w w'"
  using assms
  by (auto simp: request_cert_def split: sum.splits prod.splits option.splits if_splits
      dest!: store_csr_steps [where S = S] agent_http_steps(2) [OF assms(2)] poll_for_cert_steps [OF _ assms(2)]
        adopt_steps [where S = S])

lemma enroll_online_steps:
  assumes "enroll_online S e bits w = (w', r)"
  shows "agent_steps S e w w'"
proof -
  obtain w1 rc where o: "obtain_ca S e w = (w1, rc)" by fastforce
  note st1 = obtain_ca_steps [OF o]
  show ?thesis
  proof (cases rc)
    case (Inl err)
    with o assms st1 show ?thesis by (simp add: enroll_online_def)
  next
    case ca: (Inr ca_pem)
    show ?thesis
    proof (cases "verified_client e ca_pem None")
      case (Inl err)
      with o ca assms st1 show ?thesis by (simp add: enroll_online_def)
    next
      case (Inr c)
      from o ca have "pins_agree (su_env S) (en_cfg e) ca_pem" by (auto dest: obtain_ca_pins)
      with Inr have pc: "pinned_client S e c" by (rule verified_client_pinned)
      obtain w3 rk where k: "load_or_create_key S e bits (fetch_crl S e c w1) = (w3, rk)" by fastforce
      have st3: "agent_steps S e w w3"
        using st1 fetch_crl_steps [OF pc] load_or_create_key_steps [OF k] by (meson rtranclp_trans)
      show ?thesis
      proof (cases rk)
        case (Inl err)
        with o ca \<open>verified_client e ca_pem None = Inr c\<close> k assms st3 show ?thesis by (simp add: enroll_online_def)
      next
        case key: (Inr key)
        obtain w4 body code err where g: "agent_http_get S c (cert_url e) w3 = (w4, body, code, err)"
          by (metis prod.collapse)
        have "agent_steps S e w4 w'"
          using o ca Inr k key g assms pc
          by (auto simp: enroll_online_def intro: adopt_steps request_cert_steps split: if_splits)
        with st3 agent_http_steps(1) [OF pc g] show ?thesis by (meson rtranclp_trans)
      qed
    qed
  qed
qed

lemma enroll_run_steps:
  assumes "enroll_run S e w = (w', r)"
  shows "agent_steps S e w w'"
proof (cases "en_ssl e")
  case None
  with assms show ?thesis by (auto simp: enroll_run_def Let_def intro: enroll_online_steps split: if_splits)
next
  case (Some s)
  have st: "agent_steps S e w (w\<lparr>w_fs := fst (ssl_ensure s (w_fs w))\<rparr>)"
    using agent_step.Dirs [OF Some refl] by (auto intro: r_into_rtranclp)
  from assms Some st show ?thesis
    by (auto simp: enroll_run_def Let_def split: if_splits sum.splits option.splits prod.splits
        dest!: enroll_online_steps intro: rtranclp_trans)
qed

lemma enroll_steps:
  "enroll S cfg w = (w', r) \<Longrightarrow> new_enroller (su_hostname S) cfg = Inr e \<Longrightarrow> agent_steps S e w w'"
  by (simp add: enroll_def enroll_run_steps)


section \<open>What a successful enrollment returns\<close>

definition result_ok :: "surroundings \<Rightarrow> enroller \<Rightarrow> bytes \<Rightarrow> world \<Rightarrow> identity \<Rightarrow> bool" where
  "result_ok S e ca_pem w i \<longleftrightarrow> identity_ok (w_now w) i \<and> id_certname i = en_certname e \<and> id_ca_pem i = ca_pem"

lemma adopt_result: "adopt e b ca_pem key w = (w', Inr i) \<Longrightarrow> result_ok S e ca_pem w' i"
  by (auto simp: result_ok_def dest: adopt_ok)

lemma request_cert_result:
  "request_cert S e c ca_pem key w = (w', Inr i) \<Longrightarrow> result_ok S e ca_pem w' i"
  by (auto simp: request_cert_def intro: adopt_result split: sum.splits prod.splits option.splits if_splits)

lemma enroll_online_result:
  assumes "enroll_online S e bits w = (w', Inr i)"
  obtains w1 where "obtain_ca S e w = (w1, Inr (id_ca_pem i))" "result_ok S e (id_ca_pem i) w' i"
proof -
  from assms obtain w1 ca_pem where "obtain_ca S e w = (w1, Inr ca_pem)" "result_ok S e ca_pem w' i"
    by (auto simp: enroll_online_def intro: adopt_result request_cert_result
        split: sum.splits prod.splits if_splits)
  then show thesis using that by (auto simp: result_ok_def)
qed

lemma enroll_run_result:
  assumes "enroll_run S e w = (w', Inr i)"
  shows "result_ok S e (id_ca_pem i) w' i \<and> pins_agree (su_env S) (en_cfg e) (id_ca_pem i)"
proof (cases "en_ssl e")
  case None
  with assms show ?thesis
    by (auto simp: enroll_run_def Let_def split: if_splits elim!: enroll_online_result dest: obtain_ca_pins)
next
  case (Some s)
  from assms Some show ?thesis
    by (auto simp: enroll_run_def Let_def result_ok_def split: if_splits sum.splits option.splits prod.splits
        elim!: enroll_online_result dest!: load_from_disk_ok obtain_ca_pins)
qed

lemma new_enroller_Inr:
  assumes "new_enroller h cfg = Inr e"
  shows "en_cfg e = cfg \<and> valid_certname (en_certname e) \<and>
     en_certname e = (if cfg_certname cfg = [] then default_certname h else cfg_certname cfg) \<and>
     en_ssl e = (if cfg_dir cfg = [] then None else Some \<lparr>sd_dir = cfg_dir cfg, sd_certname = en_certname e\<rparr>)"
  using assms by (auto simp: new_enroller_def Let_def split: if_splits)

section \<open>What every step keeps\<close>

lemma http_exchange_effect:
  "http_exchange S c w = (w', r) \<Longrightarrow> (w_calls w' = w_calls w \<or> w_calls w' = w_calls w @ [c]) \<and> w_fs w' = w_fs w"
  by (auto simp: http_exchange_def Let_def split: option.splits prod.splits sum.splits if_splits)

lemma http_do_calls: "http_do S c w = (w', r) \<Longrightarrow> w_calls w' = w_calls w \<or> w_calls w' = w_calls w @ [c]"
  by (blast dest: http_do_exchange http_exchange_effect)

lemma http_do_fs: "http_do S c w = (w', r) \<Longrightarrow> w_fs w' = w_fs w"
  by (blast dest: http_do_exchange http_exchange_effect)

lemma agent_step_calls:
  "agent_step S e w w' \<Longrightarrow> w_calls w' = w_calls w \<or> (\<exists>c. call_allowed S e c \<and> w_calls w' = w_calls w @ [c])"
  by (erule agent_stepE) (auto dest: http_do_calls)

lemma agent_step_time: "agent_step S e w w' \<Longrightarrow> w_now w \<le> w_now w'"
  by (erule agent_stepE) (auto dest: http_do_time)

interpretation calls: growing "agent_step S e" w_calls for S e
  by unfold_locales (auto dest: agent_step_calls)

interpretation allowed: preserved "agent_step S e" "\<lambda>w. list_all (call_allowed S e) (drop k (w_calls w))" for S e k
  by unfold_locales (auto dest!: agent_step_calls simp: drop_Cons' split: if_splits)

interpretation clock: preserved "agent_step S e" "\<lambda>w. t \<le> w_now w" for S e t
  by unfold_locales (auto dest: agent_step_time)

lemma ensure_loop_files: "ensure_loop s fs subs = (fs', err) \<Longrightarrow> file_at fs' = file_at fs \<and> os_fault fs' = os_fault fs"
proof (induction s fs subs rule: ensure_loop.induct)
  case (2 s fs sub subs)
  obtain fs1 e1 where m: "os_mkdir_all fs (filepath_join [sd_dir s, sub]) = (fs1, e1)" by fastforce
  with mkdir_file_at [OF m] 2 show ?case by (cases e1) auto
qed simp

lemma ssl_ensure_files:
  assumes "ssl_ensure s fs = (fs', err)"
  shows "file_at fs' = file_at fs \<and> os_fault fs' = os_fault fs"
  using assms unfolding ssl_ensure_def
  by (auto simp del: ensure_loop.simps split: prod.splits option.splits
      dest!: ensure_loop_files mkdir_file_at)

lemma write_frame:
  assumes "os_write_file fs p b = (fs', err)"
  shows "os_fault fs' = os_fault fs" and "q \<noteq> p \<Longrightarrow> file_at fs' q = file_at fs q"
  using os_write_keeps(2) [OF assms] osf.wr_frame [OF assms, of q] by auto

lemma new_key_frame:
  assumes "ssl_load_or_create_key E s fs bits = (fs', r)"
  shows "os_fault fs' = os_fault fs \<and> (\<forall>q. q \<notin> key_files s \<longrightarrow> file_at fs' q = file_at fs q)"
  using assms
  by (auto simp: ssl_load_or_create_key_def key_files_def write_frame dest!: ssl_ensure_files
      split: sum.splits prod.splits option.splits)

lemma agent_step_frame:
  assumes "agent_step S e w w'"
  shows "os_fault (w_fs w') = os_fault (w_fs w) \<and>
    (\<forall>q. (\<forall>s. en_ssl e = Some s \<longrightarrow> q \<notin> cert_files s \<union> key_files s) \<longrightarrow> file_at (w_fs w') q = file_at (w_fs w) q)"
  using assms
proof (cases rule: agent_step.cases)
  case (Key s er bits fs')
  with new_key_frame [of "su_env S" s "w_fs w" bits fs'] show ?thesis
    by (cases "ssl_load_or_create_key (su_env S) s (w_fs w) bits") auto
next
  case (Dirs s fs')
  with ssl_ensure_files [of s "w_fs w" fs'] show ?thesis by (cases "ssl_ensure s (w_fs w)") auto
next
  case (File s p b fs' err)
  with write_frame [of "w_fs w" p b fs' err] show ?thesis by (auto simp: Ball_def) (metis)
qed (auto dest: http_do_fs)

text \<open>A private key that can be read is never replaced.\<close>

definition key_held :: "enroller \<Rightarrow> ssl_dir \<Rightarrow> bytes \<Rightarrow> world \<Rightarrow> bool" where
  "key_held e s b w \<longleftrightarrow> en_ssl e = Some s \<and> valid_certname (sd_certname s) \<and>
     os_fault (w_fs w) OpRead (private_key_path s) = None \<and> file_at (w_fs w) (private_key_path s) = Some b"

lemma key_not_cert_file:
  "valid_certname (sd_certname s) \<Longrightarrow> private_key_path s \<notin> cert_files s"
  by (simp add: cert_files_def path_simps)

lemma agent_step_key:
  assumes "key_held e s b w" and "agent_step S e w w'"
  shows "key_held e s b w'"
proof -
  have fault: "os_fault (w_fs w') = os_fault (w_fs w)" using agent_step_frame [OF assms(2)] by simp
  have "file_at (w_fs w') (private_key_path s) = file_at (w_fs w) (private_key_path s)"
    using assms(2)
  proof (cases rule: agent_step.cases)
    case (Key s' er bits fs')
    with assms(1) show ?thesis by (auto simp: key_held_def os_read_file_def file_at_def split: if_splits)
  next
    case (File s' p c fs' err)
    with assms(1) key_not_cert_file [of s] write_frame(2) [of "w_fs w" p c fs' err "private_key_path s"]
    show ?thesis by (auto simp: key_held_def)
  next
    case (Dirs s' fs')
    with ssl_ensure_files [of s' "w_fs w" fs'] show ?thesis by (cases "ssl_ensure s' (w_fs w)") auto
  qed (auto dest: http_do_fs)
  with assms(1) fault show ?thesis by (simp add: key_held_def)
qed

interpretation held: preserved "agent_step S e" "key_held e s b" for S e s b
  by unfold_locales (rule agent_step_key)

interpretation frame: preserved "agent_step S e" "\<lambda>w. os_fault (w_fs w) = f \<and>
    (\<forall>q. (\<forall>s. en_ssl e = Some s \<longrightarrow> q \<notin> cert_files s \<union> key_files s) \<longrightarrow> file_at (w_fs w) q = v q)" for S e f v
  by unfold_locales (auto dest: agent_step_frame)


section \<open>The waiting loop\<close>

lemma cutoff_ctx: "c = Some (t, e) \<Longrightarrow> fst (cutoff c now) \<le> t"
  by (auto simp: cutoff_def)

lemma http_do_ctx:
  assumes "http_do S c w = (w1, r)" and "su_ctx S = Some (t, e)" and "w_now w \<le> t"
  shows "w_now w1 \<le> t"
proof -
  obtain cut ce where "cutoff (su_ctx S) (w_now w) = (cut, ce)" by fastforce
  with cutoff_ctx [OF assms(2), of "w_now w"] assms(2,3) http_do_exchange [OF assms(1)] show ?thesis
    by (auto simp: http_exchange_def Let_def split: option.splits sum.splits prod.splits if_splits)
qed

lemma agent_http_get_effect:
  assumes "agent_http_get S c u w = (w1, r)"
  shows "w_now w \<le> w_now w1 \<and> w_now w1 \<le> w_now w + client_timeout \<and> w_fs w1 = w_fs w \<and>
    int (length (w_calls w1)) \<le> int (length (w_calls w)) + 1"
    and "su_ctx S = Some (t, er) \<Longrightarrow> w_now w \<le> t \<Longrightarrow> w_now w1 \<le> t"
proof -
  obtain q where q: "http_do S q w = (w1, r)" using assms by (auto simp: agent_http_get_def)
  show "w_now w \<le> w_now w1 \<and> w_now w1 \<le> w_now w + client_timeout \<and> w_fs w1 = w_fs w \<and>
    int (length (w_calls w1)) \<le> int (length (w_calls w)) + 1"
    using http_do_time [OF q] http_do_fs [OF q] http_do_calls [OF q] by auto
  show "su_ctx S = Some (t, er) \<Longrightarrow> w_now w \<le> t \<Longrightarrow> w_now w1 \<le> t"
    by (rule http_do_ctx [OF q])
qed

definition rounds_left :: "duration \<Rightarrow> duration \<Rightarrow> int" where
  "rounds_left wait left = (left + poll_interval wait - 1) div poll_interval wait"

lemma rounds_left_0 [simp]: "rounds_left wait 0 = 0"
  using poll_interval_pos [of wait] by (simp add: rounds_left_def div_pos_pos_trivial)

lemma rounds_left_mono: "a \<le> b \<Longrightarrow> rounds_left wait a \<le> rounds_left wait b"
  using poll_interval_pos [of wait] by (simp add: rounds_left_def zdiv_mono1)

lemma rounds_left_nonneg: "0 \<le> a \<Longrightarrow> 0 \<le> rounds_left wait a"
  using rounds_left_mono [of 0 a wait] by simp

lemma rounds_left_step:
  assumes "0 < a"
  shows "rounds_left wait (a - min (poll_interval wait) a) + 1 = rounds_left wait a"
proof -
  have "(a - 1 + poll_interval wait) div poll_interval wait = (a - 1) div poll_interval wait + 1"
    using div_add_self2 [of "poll_interval wait" "a - 1"] poll_interval_pos [of wait] by simp
  then have whole: "rounds_left wait a = (a - 1) div poll_interval wait + 1"
    by (simp add: rounds_left_def algebra_simps)
  show ?thesis
  proof (cases "poll_interval wait \<le> a")
    case True
    then show ?thesis unfolding whole by (simp add: rounds_left_def)
  next
    case False
    then have "(a - 1) div poll_interval wait = 0"
      using assms by (intro div_pos_pos_trivial) auto
    with False show ?thesis unfolding whole by (simp add: min_def)
  qed
qed

lemma poll_loop_fs: "poll_loop S e c d w = (w', r) \<Longrightarrow> w_fs w' = w_fs w"
  by (induction rule: poll_rounds) (auto dest: agent_http_get_effect(1))

lemma poll_loop_ctx:
  "poll_loop S e c d w = (w', r) \<Longrightarrow> su_ctx S = Some (t, er) \<Longrightarrow> w_now w \<le> t \<Longrightarrow> w_now w' \<le> t"
proof (induction rule: poll_rounds)
  case (Again w w1 body code err wake w' r)
  then show ?case by (auto simp: ctx_err_None)
next
  case (Cancel w w1 body code err wake ce)
  then show ?case using agent_http_get_effect(2) [OF Cancel(2,7,8)] by simp
qed (auto dest: agent_http_get_effect(2))

lemma poll_loop_bounds:
  "poll_loop S e c d w = (w', r) \<Longrightarrow>
     w_now w \<le> w_now w' \<and> w_now w' \<le> max (w_now w) d + client_timeout \<and>
     int (length (w_calls w')) \<le> int (length (w_calls w)) + 1 +
       rounds_left (cfg_wait (en_cfg e)) (max (w_now w) d - w_now w)"
proof (induction rule: poll_rounds)
  case (Over w err)
  then show ?case by (simp add: client_timeout_def second_def rounds_left_nonneg)
next
  case (Hit w w1 body)
  have "0 \<le> rounds_left (cfg_wait (en_cfg e)) (max (w_now w) d - w_now w)" by (simp add: rounds_left_nonneg)
  with agent_http_get_effect(1) [OF Hit(2)] show ?case by linarith
next
  case (Stop w w1 body code err m)
  have "0 \<le> rounds_left (cfg_wait (en_cfg e)) (max (w_now w) d - w_now w)" by (simp add: rounds_left_nonneg)
  with agent_http_get_effect(1) [OF Stop(2)] show ?case by linarith
next
  case (Cancel w w1 body code err wake ce)
  have "fst (the (su_ctx S)) \<le> wake" using Cancel(6) by (auto simp: ctx_err_def split: option.splits if_splits)
  moreover have "wake \<le> d" using Cancel(5) by simp
  moreover have "0 \<le> rounds_left (cfg_wait (en_cfg e)) (max (w_now w) d - w_now w)" by (simp add: rounds_left_nonneg)
  moreover have "0 \<le> client_timeout" by (simp add: client_timeout_def second_def)
  ultimately show ?case using agent_http_get_effect(1) [OF Cancel(2)] Cancel(3)
    by (auto simp: le_max_iff_disj)
next
  case (Again w w1 body code err wake w' r)
  let ?wait = "cfg_wait (en_cfg e)"
  have t: "w_now w \<le> w_now w1" using Again(2) by (rule agent_http_get_time)
  have wake: "w_now w1 < wake" "wake \<le> d" using Again(4,6) poll_interval_pos [of ?wait] by auto
  have "rounds_left ?wait (d - wake) + 1 = rounds_left ?wait (d - w_now w1)"
    using rounds_left_step [of "d - w_now w1" ?wait] Again(4,6) by (simp add: algebra_simps)
  also have "\<dots> \<le> rounds_left ?wait (d - w_now w)" using t by (intro rounds_left_mono) simp
  finally have "rounds_left ?wait (d - wake) + 1 \<le> rounds_left ?wait (d - w_now w)" .
  moreover have "length (w_calls w1) \<le> length (w_calls w) + 1"
    using agent_http_get_effect(1) [OF Again(2)] by simp
  ultimately show ?case using Again(8) t wake by auto
qed


text \<open>From some time on, a request is answered in time with a certificate.\<close>

definition serves_from :: "surroundings \<Rightarrow> enroller \<Rightarrow> go_client \<Rightarrow> time \<Rightarrow> bool" where
  "serves_from S e c T \<longleftrightarrow> (\<forall>t n. T \<le> t \<longrightarrow>
     (let r = su_net S t n \<lparr>hq_method = ''GET'', hq_url = cert_url e, hq_roots = cl_roots c,
                hq_server_name = cl_server_name c, hq_cert = cl_cert c, hq_body = []\<rparr>
      in rp_head r = Inr 200 \<and> (\<exists>b k. rp_body r = Inr (b, k) \<and> k \<le> maxResponseBytes) \<and>
         int (rp_head_time r) + int (rp_body_time r) \<le> client_timeout))"

lemma served_get:
  assumes "serves_from S e c T" and "su_ctx S = None" and "T \<le> w_now w"
  obtains w1 b where "agent_http_get S c (cert_url e) w = (w1, b, 200, None)"
proof -
  let ?r = "su_net S (w_now w) (length (w_calls w)) \<lparr>hq_method = ''GET'', hq_url = cert_url e,
      hq_roots = cl_roots c, hq_server_name = cl_server_name c, hq_cert = cl_cert c, hq_body = []\<rparr>"
  obtain b k where "rp_head ?r = Inr 200" "rp_body ?r = Inr (b, k)" "k \<le> maxResponseBytes"
    "int (rp_head_time ?r) + int (rp_body_time ?r) \<le> client_timeout"
    using assms(1) [unfolded serves_from_def Let_def, rule_format, OF assms(3), of "length (w_calls w)"]
    by blast
  with that assms(2) show thesis
    by (auto simp: agent_http_get_def http_do_def http_exchange_def ctx_err_def cutoff_def Let_def)
qed

lemma poll_loop_serves:
  "poll_loop S e c d w = (w', r) \<Longrightarrow> serves_from S e c T \<Longrightarrow> su_ctx S = None \<Longrightarrow>
     T + client_timeout < d \<Longrightarrow> 0 < cfg_wait (en_cfg e) \<Longrightarrow> \<exists>b. r = Inr b"
proof (induction rule: poll_rounds)
  case (Stop w w1 body code err m)
  show ?case
  proof (cases "T \<le> w_now w")
    case True
    with Stop(5,6) Stop(2,3) show ?thesis by (auto elim!: served_get)
  next
    case False
    with Stop(4,7,8) agent_http_get_effect(1) [OF Stop(2)] show ?thesis by auto
  qed
qed (auto simp: ctx_err_def)

end
