(* ===== verification/AgentExamples.thy ===== *)
theory AgentExamples
  imports AgentInv Examples
begin

text \<open>
  A concrete enrollment against the CA of \<open>Examples\<close>: the network answers what that CA serves,
  and the certificate appears five seconds after the start.
\<close>

definition ex_agent_env :: env where
  "ex_agent_env = ex_env\<lparr>env_genkey := (\<lambda>_. Inr ex_agent_key)\<rparr>"

definition ex_leaf_pem :: bytes where
  "ex_leaf_pem = the (file_at ex_signed (signed_path ex_ca ''node1''))"

definition ex_leaf :: certificate where
  "ex_leaf = the (slot_cert ex_ca ex_signed (Host ''node1''))"

definition ex_t0 :: time where "ex_t0 = 1700000000000000000"

definition ex_url :: "string \<Rightarrow> string" where
  "ex_url p = ''https://ca.test:8140/puppet-ca/v1'' @ p @ ''?environment=production''"

definition reply_of :: "int \<Rightarrow> bytes \<Rightarrow> http_reply" where
  "reply_of code b = \<lparr>rp_head_time = 1, rp_head = Inr code, rp_body_time = 0, rp_body = Inr (b, 2000)\<rparr>"

definition ex_net :: "time \<Rightarrow> nat \<Rightarrow> http_call \<Rightarrow> http_reply" where
  "ex_net t n q =
     (if hq_method q = ''PUT'' then reply_of 200 []
      else if hq_url q = ex_url ''/certificate/ca'' then reply_of 200 (cert_pem ex_ca)
      else if hq_url q = ex_url ''/certificate_revocation_list/ca'' then reply_of 200 [Pem ''X509 CRL'' (CrlDER ex_crl)]
      else if hq_url q = ex_url ''/certificate/node1'' then
        (if t < ex_t0 + 5 * second then reply_of 404 [] else reply_of 200 ex_leaf_pem)
      else reply_of 404 [])"

definition ex_surr :: surroundings where
  "ex_surr = \<lparr>su_env = ex_agent_env, su_net = ex_net, su_ctx = None, su_hostname = Inr ''Node1''\<rparr>"

definition ex_cfg :: agent_config where
  "ex_cfg = \<lparr>cfg_server = ''ca.test'', cfg_certname = [], cfg_dir = ''/agent'', cfg_key_bits = 0,
     cfg_dns_alt_names = [], cfg_extensions = [(''pp_role'', ''web'')], cfg_ca_cert = [],
     cfg_ca_fingerprint = ''01:2b:C4'', cfg_tofu = False, cfg_wait = 120 * second\<rparr>"

definition ex_world :: world where
  "ex_world = \<lparr>w_fs = \<lparr>os_files = [], os_dirs = [], os_fault = (\<lambda>_ _. None)\<rparr>, w_now = ex_t0, w_calls = []\<rparr>"

definition ex_enrolled :: "world \<times> identity res" where
  "ex_enrolled = enroll ex_surr ex_cfg ex_world"

definition ex_id :: identity where
  "ex_id = \<lparr>id_certname = ''node1'',
     id_cert = \<lparr>tls_chain = [CertDER ex_leaf], tls_key = ex_agent_key, tls_leaf = ex_leaf\<rparr>,
     id_ca_pem = cert_pem ex_ca, id_pool = [ex_ca_crt]\<rparr>"

definition ex_enr :: enroller where
  "ex_enr = \<lparr>en_cfg = ex_cfg, en_server = ''ca.test:8140'', en_certname = ''node1'',
     en_ssl = Some \<lparr>sd_dir = ''/agent'', sd_certname = ''node1''\<rparr>\<rparr>"

lemma ex_new_enroller: "new_enroller (su_hostname ex_surr) ex_cfg = Inr ex_enr"
  by code_simp

lemma ex_enroll_id: "snd ex_enrolled = Inr ex_id"
  by code_simp

lemma ex_enroll_rest: "(w_now (fst ex_enrolled) - ex_t0, length (w_calls (fst ex_enrolled))) = (10 * second + 6, 6)"
  by code_simp

lemma ex_enroll: "enroll ex_surr ex_cfg ex_world = (fst ex_enrolled, Inr ex_id)"
  using ex_enroll_id by (metis ex_enrolled_def prod.collapse)


lemma ex_fields:
  "su_env ex_surr = ex_agent_env" "su_hostname ex_surr = Inr ''Node1''" "su_ctx ex_surr = None"
  "cfg_certname ex_cfg = []" "cfg_server ex_cfg = ''ca.test''" "cfg_dir ex_cfg = ''/agent''"
  "cfg_key_bits ex_cfg = 0" "cfg_wait ex_cfg = 120 * second" "cfg_ca_cert ex_cfg = []"
  "id_ca_pem ex_id = cert_pem ex_ca" "id_certname ex_id = ''node1''" "w_now ex_world = ex_t0"
  by (simp_all add: ex_surr_def ex_cfg_def ex_id_def ex_world_def)


definition ex_client :: go_client where
  "ex_client = \<lparr>cl_roots = Some [ex_ca_crt], cl_server_name = ''ca.test'', cl_cert = None\<rparr>"

lemma ex_loads:
  "agent_load ex_agent_env (Inr ''Node1'') ''/agent'' [] (w_now (fst ex_enrolled)) (w_fs (fst ex_enrolled)) = Inr ex_id"
  by code_simp

lemma ex_pins: "pins_agree ex_agent_env ex_cfg (cert_pem ex_ca)"
  by code_simp

lemma ex_serves: "serves_from ex_surr ex_enr ex_client (ex_t0 + 5 * second)"
proof -
  have "cert_url ex_enr = ex_url ''/certificate/node1''" by code_simp
  then show ?thesis
    by (simp add: serves_from_def ex_surr_def ex_net_def ex_url_def reply_of_def client_timeout_def second_def
        maxResponseBytes_def)
qed

end
