(* ===== verification/AgentDisk.thy ===== *)
theory AgentDisk
  imports AgentInv
begin

text \<open>
  What a successful enrollment leaves in its ssldir: the CA text, the certificate and the key of
  the identity it returns, so that \<open>Load\<close> finds them again.
\<close>

lemma read_at:
  assumes "no_faults fs" and "file_at fs p = Some b"
  shows "os_read_file fs p = Inr b" and "ssl_exists fs p"
  using assms by (auto simp: file_at_def os_read_file_def ssl_exists_def os_stat_def no_faults_def split: if_splits)

text \<open>The files in which an identity is kept.\<close>

definition kept_in :: "ssl_dir \<Rightarrow> bytes os \<Rightarrow> identity \<Rightarrow> bool" where
  "kept_in s fs i \<longleftrightarrow> file_at fs (ca_cert_path s) = Some (id_ca_pem i) \<and>
     (\<exists>b. file_at fs (cert_path s) = Some b \<and> decode_cert b = Inr (tls_leaf (id_cert i))) \<and>
     (\<exists>b. file_at fs (private_key_path s) = Some b \<and> decode_private_key b = Inr (tls_key (id_cert i)))"

text \<open>A kept identity loads at any time at which its leaf verifies.\<close>

lemma kept_loads:
  assumes "kept_in s fs i" and "identity_ok t i" and "no_faults fs"
    and "x509_verify now (id_pool i) (tls_leaf (id_cert i))"
  shows "load_from_disk E no_config (id_certname i) s now fs = Inr (Some i)"
proof -
  from assms(1) obtain cb kb where f: "file_at fs (ca_cert_path s) = Some (id_ca_pem i)"
    "file_at fs (cert_path s) = Some cb" "decode_cert cb = Inr (tls_leaf (id_cert i))"
    "file_at fs (private_key_path s) = Some kb" "decode_private_key kb = Inr (tls_key (id_cert i))"
    by (auto simp: kept_in_def)
  note rd = read_at [OF assms(3) f(1)] read_at [OF assms(3) f(2)] read_at [OF assms(3) f(4)]
  have ne: "certs_of_pem (id_ca_pem i) \<noteq> []"
    using assms(2,4) by (auto simp: identity_ok_def x509_verify_def)
  then have "id_ca_pem i \<noteq> []" by auto
  moreover have "validate_issued_cert now cb (id_ca_pem i) (id_certname i) (tls_key (id_cert i)) = None"
    using assms(2,4) f(3) ne by (simp add: validate_issued_cert_None identity_ok_def)
  moreover have "new_identity (id_certname i) (tls_leaf (id_cert i)) (tls_key (id_cert i)) (id_ca_pem i) = Inr i"
    using assms(2) ne by (auto simp: new_identity_Inr identity_ok_def intro!: identity.equality tls_cert.equality)
  ultimately show ?thesis
    using rd f(3,5) unfolding load_from_disk_Some by (auto simp: read_ca_cert_def has_cert_def has_key_def)
qed

section \<open>Effects of the operations on the ssldir\<close>

lemma ssl_paths_distinct:
  assumes "valid_certname (sd_certname s)" and "sd_certname s \<noteq> ''ca''"
  shows "distinct [ca_cert_path s, crl_path s, csr_path s, cert_path s, private_key_path s, public_key_path s]"
  using assms append_same_eq [of "sd_certname s" "''.pem''" "''ca''"] by (simp add: path_simps)

lemma adopt_keeps:
  assumes "adopt e b ca_pem key w = (w', Inr i)" and "en_ssl e = Some s"
  shows "file_at (w_fs w') (cert_path s) = Some b \<and> decode_cert b = Inr (tls_leaf (id_cert i)) \<and>
    (\<forall>q. q \<noteq> cert_path s \<longrightarrow> file_at (w_fs w') q = file_at (w_fs w) q)"
  using assms
  by (auto simp: adopt_def write_cert_def new_identity_Inr write_frame dest: osf.wr_done
      split: option.splits sum.splits prod.splits)

lemma http_fs: "agent_http_get S c u w = (w1, r) \<Longrightarrow> w_fs w1 = w_fs w" "agent_http_put S c u b w = (w1, r) \<Longrightarrow> w_fs w1 = w_fs w"
  by (auto simp: agent_http_get_def agent_http_put_def dest: http_do_fs)

lemma poll_for_cert_fs: "poll_for_cert S e c w = (w', r) \<Longrightarrow> w_fs w' = w_fs w"
  unfolding poll_for_cert_def by (rule poll_loop_fs)

lemma fetch_crl_keeps:
  assumes "en_ssl e = Some s" and "q \<noteq> crl_path s"
  shows "file_at (w_fs (fetch_crl S e c w)) q = file_at (w_fs w) q"
proof -
  obtain w1 crl code err where g: "agent_http_get S c (ca_url e ''/certificate_revocation_list/ca'') w = (w1, crl, code, err)"
    by (metis prod.collapse)
  obtain fs2 er where wr: "os_write_file (w_fs w1) (crl_path s) crl = (fs2, er)" by fastforce
  from g assms http_fs(1) [OF g] write_frame(2) [OF wr] wr show ?thesis
    by (auto simp: fetch_crl_def ssl_write_crl_def)
qed

lemma request_cert_keeps:
  assumes "request_cert S e c ca_pem key w = (w', Inr i)" and s: "en_ssl e = Some s"
  obtains b where "file_at (w_fs w') (cert_path s) = Some b" "decode_cert b = Inr (tls_leaf (id_cert i))"
    "\<And>q. q \<noteq> cert_path s \<Longrightarrow> q \<noteq> csr_path s \<Longrightarrow> file_at (w_fs w') q = file_at (w_fs w) q"
proof -
  from assms obtain csr_bytes fs1 w2 body w3 b where
    wr: "os_write_file (w_fs w) (csr_path s) csr_bytes = (fs1, None)"
    and put: "agent_http_put S c (ca_url e (''/certificate_request/'' @ en_certname e)) csr_bytes (w\<lparr>w_fs := fs1\<rparr>)
      = (w2, body, 200, None)"
    and poll: "poll_for_cert S e c w2 = (w3, Inr b)" and ad: "adopt e b ca_pem key w3 = (w', Inr i)"
    by (auto simp: request_cert_def store_csr_def write_csr_def split: sum.splits prod.splits option.splits if_splits)
  from adopt_keeps [OF ad s] poll_for_cert_fs [OF poll] http_fs(2) [OF put] write_frame(2) [OF wr] that
  show thesis by auto
qed

lemma load_or_create_key_keeps:
  assumes "load_or_create_key S e bits w = (w', Inr key)" and s: "en_ssl e = Some s"
    and "valid_certname (sd_certname s)"
  shows "(\<exists>b. file_at (w_fs w') (private_key_path s) = Some b \<and> decode_private_key b = Inr key) \<and>
    (\<forall>q. q \<notin> key_files s \<longrightarrow> file_at (w_fs w') q = file_at (w_fs w) q)"
proof -
  from assms(1) s have r: "ssl_load_or_create_key (su_env S) s (w_fs w) bits = (w_fs w', Inr key)"
    by (auto simp: load_or_create_key_def split: prod.splits)
  have "\<exists>b. file_at (w_fs w') (private_key_path s) = Some b \<and> decode_private_key b = Inr key"
  proof (cases "os_read_file (w_fs w) (private_key_path s)")
    case (Inr b)
    with r show ?thesis by (auto simp: ssl_load_or_create_key_def dest: osf.rd_found)
  next
    case (Inl e)
    then obtain fs1 fs2 pub where wr: "os_write_file fs1 (private_key_path s) (encode_private_key key) = (fs2, None)"
      "os_write_file fs2 (public_key_path s) pub = (w_fs w', None)"
      using r by (auto simp: ssl_load_or_create_key_def split: prod.splits option.splits sum.splits)
    have "file_at (w_fs w') (private_key_path s) = Some (encode_private_key key)"
      using osf.wr_done [OF wr(1)] osf.wr_done [OF wr(2)] assms(3) by (simp add: path_simps)
    with key_pem.dec_enc [of key] show ?thesis by (auto simp: res_opt_Some)
  qed
  with new_key_frame [OF r] show ?thesis by simp
qed

lemma obtain_ca_keeps:
  assumes "obtain_ca S e w = (w1, Inr ca_pem)" and "en_ssl e = Some s"
  shows "file_at (w_fs w1) (ca_cert_path s) = Some ca_pem"
proof (cases "stored_ca e w")
  case None
  with assms show ?thesis
    by (auto simp: obtain_ca_def write_ca_cert_def dest: osf.wr_done split: sum.splits prod.splits option.splits)
next
  case (Some b)
  then have "file_at (w_fs w) (ca_cert_path s) = Some b"
    using assms(2) by (auto simp: stored_ca_def read_ca_cert_def dest!: osf.rd_found split: sum.splits if_splits)
  with assms Some show ?thesis by (auto simp: obtain_ca_def split: option.splits)
qed

lemma adopt_key: "adopt e b ca_pem key w = (w', Inr i) \<Longrightarrow> tls_key (id_cert i) = key \<and> id_ca_pem i = ca_pem"
  by (auto dest: adopt_ok)

lemma request_cert_key: "request_cert S e c ca_pem key w = (w', Inr i) \<Longrightarrow> tls_key (id_cert i) = key \<and> id_ca_pem i = ca_pem"
  by (auto simp: request_cert_def dest: adopt_key split: sum.splits prod.splits option.splits if_splits)

lemma enroll_online_keeps:
  assumes run: "enroll_online S e bits w = (w', Inr i)" and s: "en_ssl e = Some s"
    and n: "valid_certname (sd_certname s)" "sd_certname s \<noteq> ''ca''"
  shows "kept_in s (w_fs w') i"
proof -
  from run obtain w1 ca_pem c w3 key w4 body code err where
    o: "obtain_ca S e w = (w1, Inr ca_pem)" and k: "load_or_create_key S e bits (fetch_crl S e c w1) = (w3, Inr key)"
    and g: "agent_http_get S c (cert_url e) w3 = (w4, body, code, err)"
    and fin: "adopt e body ca_pem key w4 = (w', Inr i) \<or> request_cert S e c ca_pem key w4 = (w', Inr i)"
    by (auto simp: enroll_online_def split: sum.splits prod.splits if_splits)
  note d = ssl_paths_distinct [OF n]
  obtain kb where key: "file_at (w_fs w3) (private_key_path s) = Some kb" "decode_private_key kb = Inr key"
    and rest: "\<And>q. q \<notin> key_files s \<Longrightarrow> file_at (w_fs w3) q = file_at (w_fs (fetch_crl S e c w1)) q"
    using load_or_create_key_keeps [OF k s n(1)] by auto
  have ca: "file_at (w_fs w3) (ca_cert_path s) = Some ca_pem"
    using rest [of "ca_cert_path s"] fetch_crl_keeps [OF s, of "ca_cert_path s" S c w1] obtain_ca_keeps [OF o s] d
    by (auto simp: key_files_def)
  obtain b where b: "file_at (w_fs w') (cert_path s) = Some b" "decode_cert b = Inr (tls_leaf (id_cert i))"
    "\<And>q. q \<noteq> cert_path s \<Longrightarrow> q \<noteq> csr_path s \<Longrightarrow> file_at (w_fs w') q = file_at (w_fs w4) q"
    using fin adopt_keeps [OF _ s] by (metis request_cert_keeps [OF _ s])
  have "tls_key (id_cert i) = key \<and> id_ca_pem i = ca_pem"
    using fin by (auto dest: adopt_key request_cert_key)
  with b(1,2) b(3) [of "ca_cert_path s"] b(3) [of "private_key_path s"] http_fs(1) [OF g] key ca d show ?thesis
    by (auto simp: kept_in_def)
qed

lemma enroll_run_keeps:
  assumes run: "enroll_run S e w = (w', Inr i)" and s: "en_ssl e = Some s"
    and n: "valid_certname (sd_certname s)" "sd_certname s \<noteq> ''ca''"
  shows "kept_in s (w_fs w') i"
proof -
  consider "load_from_disk (su_env S) (en_cfg e) (en_certname e) s (w_now w) (w_fs w) = Inr (Some i)" "w' = w"
    | fs1 bits where "enroll_online S e bits (w\<lparr>w_fs := fs1\<rparr>) = (w', Inr i)"
    using run s by (auto simp: enroll_run_def Let_def split: if_splits sum.splits option.splits prod.splits)
  then show ?thesis
  proof cases
    case 1
    then show ?thesis unfolding load_from_disk_Some
      by (auto simp: kept_in_def read_ca_cert_def new_identity_Inr dest!: osf.rd_found)
  next
    case 2
    then show ?thesis by (rule enroll_online_keeps [OF _ s n])
  qed
qed

end
