(* ===== verification/AgentProps.thy ===== *)
theory AgentProps
  imports AgentExamples AgentDisk
begin

unbundle bit_operations_syntax

text \<open>
  What the agent guarantees: the identities it returns, where its trust comes from, its files,
  its waiting, and the fingerprints it accepts.
\<close>

section \<open>Identities and trust\<close>

text \<open>C4: An identity that enrollment returns is sound: its name is the requested certname (by
  default the lower-case host name), the leaf carries that name and the public half of the key
  held, the pool is the certificates of the CA text, the leaf verifies against the pool at that time, and
  the first certificate of the CA text agrees with every pin of the configuration.\<close>
theorem enrolled_identity_sound:
  assumes "enroll S cfg w = (w', Inr i)"
  shows "identity_ok (w_now w') i \<and> valid_certname (id_certname i) \<and>
    id_certname i = (if cfg_certname cfg = [] then default_certname (su_hostname S) else cfg_certname cfg) \<and>
    pins_agree (su_env S) cfg (id_ca_pem i)"
proof -
  from assms obtain e where e: "new_enroller (su_hostname S) cfg = Inr e" and r: "enroll_run S e w = (w', Inr i)"
    by (auto simp: enroll_def split: sum.splits)
  from new_enroller_Inr [OF e] enroll_run_result [OF r] show ?thesis unfolding result_ok_def by metis
qed

theorem enrolled_identity_sound_witness:
  "identity_ok (w_now (fst ex_enrolled)) ex_id \<and> valid_certname (id_certname ex_id) \<and>
    id_certname ex_id = default_certname (Inr ''Node1'') \<and> pins_agree ex_agent_env ex_cfg (cert_pem ex_ca)"
  using enrolled_identity_sound [OF ex_enroll] unfolding ex_fields by auto

lemma trusted_ca_unconfigured:
  "cfg_ca_cert (en_cfg e) = [] \<Longrightarrow> cfg_ca_fingerprint (en_cfg e) = [] \<Longrightarrow> \<not> cfg_tofu (en_cfg e) \<Longrightarrow>
     trusted_ca S e w \<noteq> (w1, Inr b)"
  by (simp add: trusted_ca_def Let_def)

lemma obtain_ca_stored:
  assumes "obtain_ca S e w = (w1, Inr b)" and "cfg_ca_cert (en_cfg e) = []"
    and "cfg_ca_fingerprint (en_cfg e) = []" and "\<not> cfg_tofu (en_cfg e)"
  obtains s where "en_ssl e = Some s" "file_at (w_fs w) (ca_cert_path s) = Some b"
proof -
  have "stored_ca e w = Some b"
    using assms(1) trusted_ca_unconfigured [OF assms(2-4)]
    by (auto simp: obtain_ca_def split: option.splits sum.splits prod.splits)
  with that show thesis
    by (auto simp: stored_ca_def read_ca_cert_def dest!: osf.rd_found split: option.splits sum.splits if_splits)
qed

lemma enroll_run_stored:
  assumes "enroll_run S e w = (w', Inr i)" and "cfg_ca_cert (en_cfg e) = []"
    and "cfg_ca_fingerprint (en_cfg e) = []" and "\<not> cfg_tofu (en_cfg e)"
  shows "\<exists>s. en_ssl e = Some s \<and> file_at (w_fs w) (ca_cert_path s) = Some (id_ca_pem i)"
proof (cases "en_ssl e")
  case None
  with assms show ?thesis
    by (auto simp: enroll_run_def Let_def split: if_splits elim!: enroll_online_result obtain_ca_stored)
next
  case (Some s)
  consider "load_from_disk (su_env S) (en_cfg e) (en_certname e) s (w_now w) (w_fs w) = Inr (Some i)"
    | fs1 bits where "ssl_ensure s (w_fs w) = (fs1, None)" "enroll_online S e bits (w\<lparr>w_fs := fs1\<rparr>) = (w', Inr i)"
    using assms(1) Some by (auto simp: enroll_run_def Let_def split: if_splits sum.splits option.splits prod.splits)
  then show ?thesis
  proof cases
    case 1
    with Some show ?thesis
      by (auto simp: read_ca_cert_def dest!: load_from_disk_ok osf.rd_found)
  next
    case 2
    from enroll_online_result [OF 2(2)] obtain w1 where "obtain_ca S e (w\<lparr>w_fs := fs1\<rparr>) = (w1, Inr (id_ca_pem i))" .
    with ssl_ensure_files [OF 2(1)] Some assms(2-4) show ?thesis by (auto elim!: obtain_ca_stored)
  qed
qed

text \<open>C6: Trust has to be asked for. A request over an unverified connection is only ever the
  fetch of the CA certificate, and only under a fingerprint pin or trust on first use and without a
  pinned certificate; every other request verifies the server, under its host name, against the
  certificates of a CA text that agrees with the pins. Without any of the three settings, enrollment
  succeeds only with the CA that was already stored in the directory.\<close>
theorem trust_is_asked_for:
  assumes "enroll S cfg w = (w', r)" and "new_enroller (su_hostname S) cfg = Inr e"
  shows "\<exists>cs. w_calls w' = w_calls w @ cs \<and>
    (\<forall>c\<in>set cs. case hq_roots c of
        None \<Rightarrow> hq_method c = ''GET'' \<and> hq_url c = ca_url e ''/certificate/ca'' \<and> hq_body c = [] \<and>
          cfg_ca_cert cfg = [] \<and> (cfg_ca_fingerprint cfg \<noteq> [] \<or> cfg_tofu cfg)
      | Some rs \<Rightarrow> hq_server_name c = en_host e \<and> rs \<noteq> [] \<and>
          (\<exists>ca_pem. pins_agree (su_env S) cfg ca_pem \<and> rs = certs_of_pem ca_pem)) \<and>
    (\<forall>i. r = Inr i \<and> cfg_ca_cert cfg = [] \<and> cfg_ca_fingerprint cfg = [] \<and> \<not> cfg_tofu cfg \<longrightarrow>
       (\<exists>s. en_ssl e = Some s \<and> file_at (w_fs w) (ca_cert_path s) = Some (id_ca_pem i)))"
proof -
  note cfg = new_enroller_Inr [OF assms(2)]
  note st = enroll_steps [OF assms]
  obtain cs where cs: "w_calls w' = w_calls w @ cs"
    using calls.steps_grow [OF st] by (auto simp: prefix_def)
  have "list_all (call_allowed S e) cs"
    using allowed.steps_inv [OF st, of "length (w_calls w)"] cs by simp
  moreover have "\<exists>s. en_ssl e = Some s \<and> file_at (w_fs w) (ca_cert_path s) = Some (id_ca_pem i)"
    if "r = Inr i" "cfg_ca_cert cfg = []" "cfg_ca_fingerprint cfg = []" "\<not> cfg_tofu cfg" for i
    using enroll_run_stored [of S e w w' i] assms that cfg by (auto simp: enroll_def)
  ultimately show ?thesis using cs cfg
    by (intro exI [of _ cs]) (fastforce simp: list_all_iff call_allowed_def split: option.splits)
qed

theorem trust_is_asked_for_witness:
  "\<exists>cs. w_calls (fst ex_enrolled) = w_calls ex_world @ cs \<and>
    (\<forall>c\<in>set cs. hq_roots c = None \<longrightarrow> hq_url c = ca_url ex_enr ''/certificate/ca'')"
  using trust_is_asked_for [OF ex_enroll ex_new_enroller] by (fastforce split: option.splits)

section \<open>The stored identity\<close>

lemma agent_load_Inr:
  assumes "agent_load E h dir n now fs = Inr i"
  shows "dir \<noteq> [] \<and> valid_certname (if n = [] then default_certname h else n) \<and>
    load_from_disk E no_config (if n = [] then default_certname h else n)
      \<lparr>sd_dir = dir, sd_certname = (if n = [] then default_certname h else n)\<rparr> now fs = Inr (Some i)"
  using assms by (auto simp: agent_load_def Let_def split: if_splits sum.splits option.splits)

text \<open>Loading depends on the configuration by its pins only.\<close>

lemma load_from_disk_cfg:
  assumes "load_from_disk E no_config n s now fs = Inr (Some i)"
  shows "pins_agree E cfg (id_ca_pem i) \<Longrightarrow> load_from_disk E cfg n s now fs = Inr (Some i)"
    and "\<not> pins_agree E cfg (id_ca_pem i) \<Longrightarrow> \<exists>err. load_from_disk E cfg n s now fs = Inl err"
proof -
  note ok = load_from_disk_ok [OF assms]
  show "pins_agree E cfg (id_ca_pem i) \<Longrightarrow> load_from_disk E cfg n s now fs = Inr (Some i)"
    using assms ok unfolding load_from_disk_Some by auto
  assume no: "\<not> pins_agree E cfg (id_ca_pem i)"
  then obtain err where "validate_pinned_ca E (id_ca_pem i) cfg = Some err"
    by (auto simp: validate_pinned_ca_None [symmetric])
  with assms ok show "\<exists>err. load_from_disk E cfg n s now fs = Inl err"
    unfolding load_from_disk_Some by (auto simp: load_from_disk_def)
qed

lemma provisioned_enroll:
  assumes load: "agent_load (su_env S) (su_hostname S) (cfg_dir cfg) (cfg_certname cfg) (w_now w) (w_fs w) = Inr i"
    and "cfg_server cfg \<noteq> []" and bits: "cfg_key_bits cfg \<le> 0 \<or> 2048 \<le> cfg_key_bits cfg"
  shows "if pins_agree (su_env S) cfg (id_ca_pem i) then enroll S cfg w = (w, Inr i)
    else \<exists>err. enroll S cfg w = (w, Inl err)"
proof -
  let ?n = "if cfg_certname cfg = [] then default_certname (su_hostname S) else cfg_certname cfg"
  note l = agent_load_Inr [OF load]
  obtain e where e: "new_enroller (su_hostname S) cfg = Inr e"
    using l assms(2) by (auto simp: new_enroller_def Let_def)
  have "enroll S cfg w = enroll_run S e w" by (simp add: enroll_def e)
  moreover have "en_ssl e = Some \<lparr>sd_dir = cfg_dir cfg, sd_certname = ?n\<rparr>" "en_cfg e = cfg" "en_certname e = ?n"
    using new_enroller_Inr [OF e] l by auto
  moreover have "\<not> (if cfg_key_bits cfg \<le> 0 then DefaultKeyBits else cfg_key_bits cfg) < 2048"
    using bits by (auto simp: DefaultKeyBits_def)
  ultimately show ?thesis
    using load_from_disk_cfg [of "su_env S" ?n _ _ _ i cfg] l by (fastforce simp: enroll_run_def Let_def)
qed

text \<open>C23: A directory from which \<open>Load\<close> returns an identity needs no network: enrollment in it
  returns the same identity and leaves the files, the clock and the list of requests as they are. When
  a pin contradicts the stored CA, it fails, and again touches nothing.\<close>
theorem provisioned_needs_no_network:
  assumes "agent_load (su_env S) (su_hostname S) (cfg_dir cfg) (cfg_certname cfg) (w_now w) (w_fs w) = Inr i"
    and "cfg_server cfg \<noteq> []" and "cfg_key_bits cfg \<le> 0 \<or> 2048 \<le> cfg_key_bits cfg"
  shows "if pins_agree (su_env S) cfg (id_ca_pem i) then enroll S cfg w = (w, Inr i)
    else \<exists>err. enroll S cfg w = (w, Inl err)"
  using assms by (rule provisioned_enroll)

theorem provisioned_needs_no_network_witness:
  "enroll ex_surr ex_cfg (fst ex_enrolled) = (fst ex_enrolled, Inr ex_id)"
proof -
  have "agent_load (su_env ex_surr) (su_hostname ex_surr) (cfg_dir ex_cfg) (cfg_certname ex_cfg)
      (w_now (fst ex_enrolled)) (w_fs (fst ex_enrolled)) = Inr ex_id"
    unfolding ex_fields by (rule ex_loads)
  from provisioned_needs_no_network [OF this] ex_pins show ?thesis by (simp add: ex_fields)
qed

section \<open>Files\<close>

text \<open>C22: Enrollment, whatever its outcome, keeps the files. A private key that is stored and can be
  read is never replaced, and nothing outside the six files of the ssldir (CA certificate, revocation
  list, request, certificate, private key, public key) changes; without a directory nothing does.\<close>
theorem enrollment_keeps_files:
  assumes "enroll S cfg w = (w', r)" and "new_enroller (su_hostname S) cfg = Inr e"
  shows "(\<forall>s b. en_ssl e = Some s \<and> os_fault (w_fs w) OpRead (private_key_path s) = None \<and>
       file_at (w_fs w) (private_key_path s) = Some b \<longrightarrow> file_at (w_fs w') (private_key_path s) = Some b) \<and>
    (\<forall>q. (\<forall>s. en_ssl e = Some s \<longrightarrow> q \<notin> {ca_cert_path s, crl_path s, csr_path s, cert_path s,
            private_key_path s, public_key_path s}) \<longrightarrow> file_at (w_fs w') q = file_at (w_fs w) q)"
proof -
  note st = enroll_steps [OF assms]
  have "key_held e s b w'" if "en_ssl e = Some s" "os_fault (w_fs w) OpRead (private_key_path s) = None"
    "file_at (w_fs w) (private_key_path s) = Some b" for s b
    using held.steps_inv [OF st, of s b] that new_enroller_Inr [OF assms(2)]
    by (auto simp: key_held_def split: if_splits)
  moreover have "file_at (w_fs w') q = file_at (w_fs w) q"
    if "\<forall>s. en_ssl e = Some s \<longrightarrow> q \<notin> cert_files s \<union> key_files s" for q
    using frame.steps_inv [OF st, of "os_fault (w_fs w)" "file_at (w_fs w)"] that by simp
  ultimately show ?thesis by (auto simp: key_held_def cert_files_def key_files_def)
qed

theorem enrollment_keeps_files_witness:
  "file_at (w_fs (fst ex_enrolled)) (Path True [''etc'', ''passwd'']) = None"
proof -
  have "file_at (w_fs ex_world) (Path True [''etc'', ''passwd'']) = None" by code_simp
  moreover have "Path True [''etc'', ''passwd''] \<notin> {ca_cert_path s, crl_path s, csr_path s, cert_path s,
      private_key_path s, public_key_path s}" if "s = \<lparr>sd_dir = ''/agent'', sd_certname = ''node1''\<rparr>" for s
    unfolding that by code_simp
  ultimately show ?thesis
    using enrollment_keeps_files [OF ex_enroll ex_new_enroller] by (simp add: ex_enr_def)
qed

section \<open>Waiting\<close>

text \<open>C16: Waiting for the certificate ends: not later than one request's time limit after the
  deadline (or after the start, without a wait), never after the context is done, with at most one
  request more than there are intervals in the wait, rounded up; it leaves the files alone.\<close>
theorem waiting_is_bounded:
  assumes "poll_for_cert S e c w = (w', r)"
  shows "w_now w \<le> w_now w' \<and> w_now w' \<le> w_now w + max 0 (cfg_wait (en_cfg e)) + 30 * second \<and>
    int (length (w_calls w')) \<le> int (length (w_calls w)) + 1 +
      (max 0 (cfg_wait (en_cfg e)) + poll_interval (cfg_wait (en_cfg e)) - 1) div poll_interval (cfg_wait (en_cfg e)) \<and>
    (\<forall>t err. su_ctx S = Some (t, err) \<and> w_now w \<le> t \<longrightarrow> w_now w' \<le> t) \<and> w_fs w' = w_fs w"
proof -
  note run = assms [unfolded poll_for_cert_def]
  have "max (w_now w) (w_now w + cfg_wait (en_cfg e)) = w_now w + max 0 (cfg_wait (en_cfg e))" by simp
  with poll_loop_bounds [OF run] poll_loop_fs [OF run] poll_loop_ctx [OF run] show ?thesis
    by (auto simp: rounds_left_def client_timeout_def)
qed

theorem waiting_is_bounded_witness:
  "w_now (fst (poll_for_cert ex_surr ex_enr ex_client ex_world)) \<le> ex_t0 + 150 * second"
proof -
  obtain w' r where p: "poll_for_cert ex_surr ex_enr ex_client ex_world = (w', r)" by fastforce
  from waiting_is_bounded [OF p] p show ?thesis by (simp add: ex_enr_def ex_fields second_def)
qed

text \<open>C17: Waiting finds the certificate: when no context cuts it off and from some time on, more than
  one request's time limit before the deadline, every request for it is answered in time, the wait
  ends with a certificate.\<close>
theorem waiting_finds_the_certificate:
  assumes "poll_for_cert S e c w = (w', r)" and "0 < cfg_wait (en_cfg e)" and "su_ctx S = None"
    and "serves_from S e c T" and "T + 30 * second < w_now w + cfg_wait (en_cfg e)"
  shows "\<exists>b. r = Inr b"
  using poll_loop_serves [OF assms(1) [unfolded poll_for_cert_def] assms(4,3)] assms(2,5)
  by (simp add: client_timeout_def)

theorem waiting_finds_the_certificate_witness:
  "\<exists>b. snd (poll_for_cert ex_surr ex_enr ex_client ex_world) = Inr b"
proof -
  obtain w' r where p: "poll_for_cert ex_surr ex_enr ex_client ex_world = (w', r)" by fastforce
  have "\<exists>b. r = Inr b"
    by (rule waiting_finds_the_certificate [OF p _ _ ex_serves])
      (simp_all add: ex_fields ex_enr_def second_def)
  with p show ?thesis by simp
qed

section \<open>Round trip\<close>

text \<open>C15: What enrollment stores, \<open>Load\<close> finds: after a successful enrollment in a directory, with no
  failing file call and a certname other than \<open>ca\<close>, loading from that directory returns the same
  identity, at every time at which its leaf still verifies against the CA.\<close>
theorem enroll_then_load:
  assumes "enroll S cfg w = (w', Inr i)" and "cfg_dir cfg \<noteq> []" and "no_faults (w_fs w)"
    and "id_certname i \<noteq> ''ca''" and "x509_verify now (id_pool i) (tls_leaf (id_cert i))"
  shows "agent_load E h (cfg_dir cfg) (id_certname i) now (w_fs w') = Inr i"
proof -
  obtain e where e: "new_enroller (su_hostname S) cfg = Inr e" and r: "enroll_run S e w = (w', Inr i)"
    using assms(1) by (auto simp: enroll_def split: sum.splits)
  let ?s = "\<lparr>sd_dir = cfg_dir cfg, sd_certname = en_certname e\<rparr>"
  have n: "id_certname i = en_certname e" "identity_ok (w_now w') i"
    using enroll_run_result [OF r] by (auto simp: result_ok_def)
  have s: "en_ssl e = Some ?s" "valid_certname (en_certname e)"
    using new_enroller_Inr [OF e] assms(2) by auto
  have "kept_in ?s (w_fs w') i"
    using enroll_run_keeps [OF r s(1)] s(2) n(1) assms(4) by simp
  moreover have "os_fault (w_fs w') = os_fault (w_fs w)"
    using frame.steps_inv [OF enroll_run_steps [OF r], of "os_fault (w_fs w)" "file_at (w_fs w)"] by simp
  then have "no_faults (w_fs w')" using assms(3) by (simp add: no_faults_def)
  ultimately have "load_from_disk E no_config (id_certname i) ?s now (w_fs w') = Inr (Some i)"
    using kept_loads n(2) assms(5) by blast
  with s(2) n(1) assms(2) show ?thesis by (auto simp: agent_load_def Let_def valid_certname_def)
qed

theorem enroll_then_load_witness:
  "agent_load ex_agent_env (Inr ''other'') ''/agent'' ''node1'' (ex_t0 + hour) (w_fs (fst ex_enrolled)) = Inr ex_id"
proof -
  have "x509_verify (ex_t0 + hour) (id_pool ex_id) (tls_leaf (id_cert ex_id))" by code_simp
  from enroll_then_load [OF ex_enroll _ _ _ this] show ?thesis
    by (simp add: ex_fields) (simp add: ex_world_def no_faults_def)
qed

section \<open>Fingerprints\<close>

definition hex_digit :: "byte \<Rightarrow> char" where
  "hex_digit v = ''0123456789abcdef'' ! unat v"

lemma nibbles: "unat (drop_bit 4 v) < 16" "unat (v AND 0x0F) < 16" for v :: byte
proof -
  have "unat v < 256" using unsigned_less [of v] by simp
  then show "unat (drop_bit 4 v) < 16" unfolding unat_drop_bit_eq by (simp add: drop_bit_eq_div)
  have "v AND 0x0F = v AND mask 4" by (simp add: mask_eq_exp_minus_1)
  then show "unat (v AND 0x0F) < 16"
    using take_bit_nat_less_exp [of 4 "unat v"] by (simp add: take_bit_eq_mask [symmetric] unsigned_take_bit_eq)
qed

lemma lower_hex:
  assumes "unat v < 16"
  shows "ascii_lower (hex_upper v) = hex_digit v \<and> hex_upper v \<noteq> CHR '':''"
proof -
  have "list_all (\<lambda>k. ascii_lower (''0123456789ABCDEF'' ! k) = ''0123456789abcdef'' ! k \<and>
      ''0123456789ABCDEF'' ! k \<noteq> CHR '':'') [0..<16]" by code_simp
  with assms show ?thesis by (simp add: list_all_iff hex_upper_def hex_digit_def)
qed

lemma hex_digit_inject: "unat u < 16 \<Longrightarrow> unat v < 16 \<Longrightarrow> hex_digit u = hex_digit v \<Longrightarrow> u = v"
proof -
  have "distinct ''0123456789abcdef''" by simp
  then show "unat u < 16 \<Longrightarrow> unat v < 16 \<Longrightarrow> hex_digit u = hex_digit v \<Longrightarrow> u = v"
    by (simp add: hex_digit_def nth_eq_iff_index_eq word_unat_eq_iff)
qed

definition lower_byte :: "byte \<Rightarrow> string" where
  "lower_byte v = [hex_digit (drop_bit 4 v), hex_digit (v AND 0x0F)]"

lemma lower_byte_inject: "lower_byte u = lower_byte v \<Longrightarrow> u = v"
proof -
  assume "lower_byte u = lower_byte v"
  then have "drop_bit 4 u = drop_bit 4 v" "u AND 0x0F = v AND 0x0F"
    using nibbles by (auto simp: lower_byte_def intro: hex_digit_inject)
  moreover have "push_bit 4 (drop_bit 4 w) + (w AND 0x0F) = w" for w :: byte
    using bits_ident [of 4 w] by (simp add: take_bit_eq_mask mask_eq_exp_minus_1)
  ultimately show "u = v" by metis
qed

lemma fp_norm_colon_hex: "fp_norm (colon_hex b) = concat (map lower_byte b)"
proof -
  have one: "fp_norm (byte_hex v) = lower_byte v" for v
    using lower_hex [OF nibbles(1) [of v]] lower_hex [OF nibbles(2) [of v]]
    by (simp add: fp_norm_def byte_hex_def lower_byte_def to_lower_def)
  have app: "fp_norm (x @ y) = fp_norm x @ fp_norm y" for x y by (simp add: fp_norm_def to_lower_def)
  show ?thesis unfolding colon_hex_eq
  proof (induction b)
    case (Cons v vs)
    then show ?case by (cases vs) (auto simp: app one, simp add: fp_norm_def to_lower_def)
  qed (simp add: fp_norm_def to_lower_def)
qed

lemma concat_lower_inject: "concat (map lower_byte a) = concat (map lower_byte b) \<Longrightarrow> a = b"
proof (induction a arbitrary: b)
  case Nil
  then show ?case by (cases b) (auto simp: lower_byte_def)
next
  case (Cons v vs)
  then obtain u us where b: "b = u # us" by (cases b) (auto simp: lower_byte_def)
  have "length (lower_byte v) = length (lower_byte u)" by (simp add: lower_byte_def)
  with Cons.prems b have "lower_byte v = lower_byte u \<and> concat (map lower_byte vs) = concat (map lower_byte us)"
    by simp
  with Cons.IH lower_byte_inject b show ?case by blast
qed

text \<open>C31: A fingerprint pin accepts a certificate exactly when, colons left out and letters in lower
  case, it is the hexadecimal digits of the SHA-256 digest of the certificate, two per byte; so two
  certificates that one pin accepts have the same digest.\<close>
theorem pin_accepts_digest:
  "(fingerprint_equal (cert_fingerprint E crt) p \<longleftrightarrow>
      fp_norm p = concat (map (\<lambda>v. [''0123456789abcdef'' ! unat (drop_bit 4 v), ''0123456789abcdef'' ! unat (v AND 0x0F)])
        (env_sha256 E (CertDER crt)))) \<and>
   (fingerprint_equal (cert_fingerprint E crt) p \<and> fingerprint_equal (cert_fingerprint E crt') p \<longrightarrow>
      env_sha256 E (CertDER crt) = env_sha256 E (CertDER crt'))"
proof -
  have fp: "fp_norm (cert_fingerprint E c) = concat (map lower_byte (env_sha256 E (CertDER c)))" for c
    by (simp add: cert_fingerprint_def pki_fingerprints_def Let_def fp_norm_colon_hex)
  show ?thesis
    unfolding fingerprint_equal_def fp lower_byte_def [abs_def, symmetric] hex_digit_def [symmetric]
    using concat_lower_inject by metis
qed

theorem pin_accepts_digest_witness:
  "fingerprint_equal (cert_fingerprint ex_agent_env ex_ca_crt) ''01:2b:C4'' \<and>
   \<not> fingerprint_equal (cert_fingerprint ex_agent_env ex_ca_crt) ''01:2b:C5''"
proof -
  have "fp_norm ''01:2b:C4'' = ''012bc4''" "fp_norm ''01:2b:C5'' = ''012bc5''"
    "concat (map (\<lambda>v. [''0123456789abcdef'' ! unat (drop_bit 4 v), ''0123456789abcdef'' ! unat (v AND 0x0F)])
        (env_sha256 ex_agent_env (CertDER ex_ca_crt))) = ''012bc4''" by code_simp+
  note eqs = this
  show ?thesis
    unfolding pin_accepts_digest [THEN conjunct1] eqs by simp
qed

section \<open>Refusals\<close>

text \<open>C33: Enrollment that cannot be right is refused before anything is touched: without a server, with
  a certname that is not valid, or with a key size between 1 and 2047 bits, there is an error and files,
  clock and requests are as before; without a directory and without any trust setting it fails too,
  with no request made.\<close>
theorem refused_configurations:
  assumes "cfg_server cfg = [] \<or>
      \<not> valid_certname (if cfg_certname cfg = [] then default_certname (su_hostname S) else cfg_certname cfg) \<or>
      0 < cfg_key_bits cfg \<and> cfg_key_bits cfg < 2048 \<or>
      cfg_dir cfg = [] \<and> cfg_ca_cert cfg = [] \<and> cfg_ca_fingerprint cfg = [] \<and> \<not> cfg_tofu cfg"
  shows "\<exists>err. enroll S cfg w = (w, Inl err)"
proof (cases "new_enroller (su_hostname S) cfg")
  case (Inl err)
  then show ?thesis by (simp add: enroll_def)
next
  case (Inr e)
  note e = new_enroller_Inr [OF Inr]
  have "cfg_server cfg \<noteq> []" using Inr by (auto simp: new_enroller_def)
  with assms e consider "0 < cfg_key_bits cfg \<and> cfg_key_bits cfg < 2048"
    | "cfg_dir cfg = []" "cfg_ca_cert cfg = []" "cfg_ca_fingerprint cfg = []" "\<not> cfg_tofu cfg"
    by (auto split: if_splits)
  then show ?thesis
  proof cases
    case 1
    with Inr e show ?thesis by (simp add: enroll_def enroll_run_def)
  next
    case 2
    with Inr e show ?thesis
      by (simp add: enroll_def enroll_run_def enroll_online_def obtain_ca_def stored_ca_def trusted_ca_def Let_def)
  qed
qed

theorem refused_configurations_witness:
  "\<exists>err. enroll ex_surr (ex_cfg\<lparr>cfg_key_bits := 1024\<rparr>) ex_world = (ex_world, Inl err)"
  by (rule refused_configurations) (simp add: ex_cfg_def)

section \<open>What the pins and the key file do not cover\<close>

text \<open>
  A pin is checked against the first block of the CA text only, while every certificate block of the
  text becomes a root.
\<close>

lemma certs_of_pem_append: "certs_of_pem (a @ b) = certs_of_pem a @ certs_of_pem b"
  by (induction a rule: certs_of_pem.induct) (auto split: sum.splits)

lemma decode_cert_append: "decode_cert (encode_cert crt @ b) = decode_cert (encode_cert crt)"
  by (simp add: decode_cert_def encode_cert_def pem_encode_def)

lemma pins_see_first_block:
  "pins_agree E cfg (encode_cert crt @ rest) = pins_agree E cfg (encode_cert crt) \<and>
   set (certs_of_pem rest) \<subseteq> set (certs_of_pem (encode_cert crt @ rest))"
  by (simp add: pins_agree_def decode_cert_append certs_of_pem_append)

text \<open>A key that exists but cannot be read, whatever the reason, is replaced by a new one.\<close>

lemma unreadable_key_replaced:
  assumes "os_fault fs OpRead (private_key_path s) = Some t" and "valid_certname (sd_certname s)"
    and "ssl_load_or_create_key E s fs bits = (fs', Inr key)"
  shows "file_at fs' (private_key_path s) = Some (encode_private_key key) \<and> generate_key E bits = Inr key"
proof -
  have "os_read_file fs (private_key_path s) = Inl (EOther t)" using assms(1) by (simp add: os_read_file_def)
  with assms(3) obtain fs1 fs2 pub where wr: "os_write_file fs1 (private_key_path s) (encode_private_key key) = (fs2, None)"
    "os_write_file fs2 (public_key_path s) pub = (fs', None)" and "generate_key E bits = Inr key"
    by (auto simp: ssl_load_or_create_key_def split: prod.splits option.splits sum.splits)
  with osf.wr_done [OF wr(1)] osf.wr_done [OF wr(2)] assms(2) show ?thesis by (simp add: path_simps)
qed

text \<open>An address in brackets without a port gets a second pair of brackets, and then no host name.\<close>

lemma bracketed_server_mangled:
  "case new_enroller h (ex_cfg\<lparr>cfg_server := ''[::1]'', cfg_certname := ''node1''\<rparr>) of
     Inl _ \<Rightarrow> False | Inr e \<Rightarrow> en_server e = ''[[::1]]:8140'' \<and> en_host e = []"
  by code_simp

text \<open>A body that could not be read, under status 200, ends the first look for a certificate.\<close>

lemma failed_body_adopted: "adopt e [] ca_pem key w = (w, Inl (EWrap ''issued cert is not valid PEM'' (EMsg ''no PEM certificate found'')))"
  by (simp add: adopt_def validate_issued_cert_def decode_cert_def)

end
