(* ===== verification/AgentCa.thy ===== *)
theory AgentCa
  imports AgentExamples AgentDisk CaHandler PkiProps
begin

text \<open>
  The agent against the CA: the request an agent makes is one the CA's handlers take, the
  certificate they issue for it is one the agent adopts, and two agents of one CA authenticate
  each other.
\<close>

section \<open>The agent's request\<close>

lemma create_csr_decodes:
  assumes "create_csr key n alts exts = Inr b" and "distinct (map ext_id exts)"
    and "oid_subject_alt_name \<notin> set (map ext_id exts)"
  shows "ids_fit exts \<Longrightarrow> \<exists>req. decode_csr b = Inr req \<and> nm_cn (csr_subject req) = n \<and> csr_check_signature req \<and>
      csr_pub req = RSAKey (priv_public key) \<and> list_all is_ia5 (csr_dns req)"
    and "\<not> ids_fit exts \<Longrightarrow> \<exists>err. decode_csr b = Inl err"
proof -
  have own: "find (\<lambda>e. ext_id e = oid_subject_alt_name) exts = None"
    using assms(3) by (force simp: find_None_iff)
  obtain seen dns ips where nm: "(if alts = [] then ([], [], []) else foldl csr_add_name (csr_add_name ([], [], []) n) alts)
      = (seen, dns, ips)" by (metis prod.collapse)
  let ?san = "\<lparr>ext_id = oid_subject_alt_name, ext_critical = False, ext_value = marshal_sans dns ips\<rparr>"
  let ?req = "\<lparr>csr_subject = \<lparr>nm_cn = n, nm_rest = []\<rparr>, csr_dns = dns, csr_ips = map san_ip ips,
     csr_exts = (if dns \<noteq> [] \<or> ips \<noteq> [] then [?san] else []) @ exts, csr_pub = RSAKey (priv_public key),
     csr_signer = Some (RSAKey (priv_public key))\<rparr>"
  have b: "b = pem_encode ''CERTIFICATE REQUEST'' (CsrDER ?req)" and ia: "list_all is_ia5 dns"
    using assms(1) nm own
    by (auto simp: create_csr_def create_certificate_request_def Let_def split: if_splits)
  have fit: "ids_fit (csr_exts ?req) \<longleftrightarrow> ids_fit exts" by (simp add: oid_fits_def oid_subject_alt_name_def)
  show "\<exists>req. decode_csr b = Inr req \<and> nm_cn (csr_subject req) = n \<and> csr_check_signature req \<and>
      csr_pub req = RSAKey (priv_public key) \<and> list_all is_ia5 (csr_dns req)" if "ids_fit exts"
  proof (intro exI [of _ ?req] conjI)
    show "decode_csr b = Inr ?req"
      using assms(2,3) fit that unfolding b by (auto simp: decode_csr_def parse_csr_def)
  qed (use ia in \<open>simp_all add: csr_check_signature_def\<close>)
  show "\<exists>err. decode_csr b = Inl err" if "\<not> ids_fit exts"
    using fit that unfolding b by (simp add: decode_csr_def parse_csr_def)
qed

text \<open>Blanket autosign puts a certificate in the data base at once.\<close>

definition leaf_until :: "env \<Rightarrow> ca \<Rightarrow> time" where
  "leaf_until E c = trunc_second (min (env_now E + (if ca_ttl c \<le> 0 then DefaultCATTL else ca_ttl c))
     (crt_not_after (ca_crt c)))"

lemma ia5_certname: "valid_certname n \<Longrightarrow> is_ia5 n"
proof -
  have small: "(of_char c :: nat) < 128" if "inner_char c" for c
  proof -
    have "c \<le> CHR ''z''" using that by (auto simp: inner_char_def alnum_char_def less_eq_char_def)
    then show ?thesis by (simp add: less_eq_char_def)
  qed
  show "valid_certname n \<Longrightarrow> is_ia5 n"
    by (auto simp: is_ia5_def list_all_iff intro!: small valid_certname_chars)
qed

lemma trim_front_set: "set (trim_front s2 s3 s) \<subseteq> set s"
  by (induction s2 s3 s rule: trim_front.induct) auto

lemma trim_space_set: "set (trim_space s) \<subseteq> set s"
proof -
  have "set (trim_front space2 space3 s) \<subseteq> set s" by (rule trim_front_set)
  with trim_front_set [of "\<lambda>a b. space2 b a" "\<lambda>a b c. space3 c b a" "rev (trim_front space2 space3 s)"]
  show ?thesis by (auto simp: trim_space_def)
qed

lemma ia5_trim: "is_ia5 s \<Longrightarrow> is_ia5 (trim_space s)"
  using trim_space_set by (fastforce simp: is_ia5_def list_all_iff)

text \<open>A request of an agent is one that the CA can sign, and the leaf has no end that the CA's own
  certificate and lifetime do not set.\<close>

lemma signable:
  assumes ok: "ca_ok c" and req: "csr_check_signature req" "csr_pub req = RSAKey pub" "list_all is_ia5 (csr_dns req)"
    and n: "valid_certname (nm_cn (csr_subject req))" and ids: "distinct (map ext_id (csr_exts req))" "ids_fit (csr_exts req)" and s: "0 \<le> s"
  shows "sign_csr E req (ca_crt c) (ca_key c) ((autosign_opts c)\<lparr>so_serial := Some s,
      so_extra_exts := so_extra_exts (autosign_opts c) @ allowed_from_csr (csr_exts req)\<rparr>)
    = Inr (leaf_of E req (ca_crt c) (ca_key c) ((autosign_opts c)\<lparr>so_serial := Some s,
      so_extra_exts := so_extra_exts (autosign_opts c) @ allowed_from_csr (csr_exts req)\<rparr>) s pub)"
    (is "sign_csr _ _ _ _ ?o = _")
proof -
  have "list_all is_ia5 (fst (leaf_sans req ?o))"
  proof -
    obtain dns ips where l: "leaf_sans req ?o = (dns, ips)" by fastforce
    have "set dns \<subseteq> trim_space ` ({nm_cn (csr_subject req)} \<union> set (csr_dns req))"
      using leaf_sans_shape(1) [OF l] by (auto simp: autosign_opts_def default_sign_opts_def split: if_splits)
    then have "\<forall>d \<in> set dns. is_ia5 d"
      using ia5_certname [OF n] req(3) by (auto simp: list_all_iff intro!: ia5_trim)
    with l show ?thesis by (simp add: list_all_iff)
  qed
  moreover have allowed_fit: "ids_fit (allowed_from_csr (csr_exts req))"
    using ids(2) by (auto simp: allowed_from_csr_def list_all_iff)
  moreover have "so_extra_exts (autosign_opts c) = []" by (simp add: autosign_opts_def default_sign_opts_def)
  ultimately show ?thesis
    using ok req s allowed_distinct [OF ids(1)] allowed_fit unfolding sign_csr_Inr
    by (auto simp: leaf_serial_def ca_ok_def)
qed

text \<open>The leaf signed for a request is one that the agent which holds its key adopts.\<close>

lemma signed_leaf_verifies:
  assumes ok: "ca_ok c" and sg: "sign_csr E req (ca_crt c) (ca_key c) opts = Inr leaf"
    and "puppet_exts (so_extra_exts opts)" and t: "time_valid now leaf" "time_valid now (ca_crt c)"
    and root: "ca_crt c \<in> set roots"
  shows "x509_verify now roots leaf"
proof -
  have "crt_issuer leaf = crt_subject (ca_crt c)" "crt_signer leaf = Some (RSAKey (priv_public (ca_key c)))"
    "crt_exts leaf = so_extra_exts opts"
    using sg by (auto simp: sign_csr_Inr leaf_of_def Let_def)
  moreover have "no_unhandled_critical leaf"
    using assms(3) calculation(3) by (auto simp: no_unhandled_critical_def puppet_exts_def list_all_iff)
  ultimately have "crt_subject (ca_crt c) = crt_issuer leaf \<and> no_unhandled_critical (ca_crt c) \<and>
      time_valid now (ca_crt c) \<and> check_signature_from leaf (ca_crt c)"
    using ok t by (auto simp: ca_ok_def no_unhandled_critical_def check_signature_from_def)
  with root t \<open>no_unhandled_critical leaf\<close> show ?thesis
    unfolding x509_verify_def list_ex_iff by blast
qed

section \<open>Submission under blanket autosign\<close>

lemma submit_autosigned:
  assumes rdy: "ready c fs" and inv: "cadir_at c s fs" and auto: "ca_autosign_all c" "ca_policy_exe c = []"
    and n: "valid_certname n" and free: "file_at fs (signed_path c n) = None"
      "file_at fs (request_path c n) = None \<or> file_at fs (request_path c n) = Some pem"
    and dec: "decode_csr pem = Inr req" "nm_cn (csr_subject req) = n" "csr_check_signature req"
      "csr_pub req = RSAKey pub" "list_all is_ia5 (csr_dns req)"
    and sub: "submit_csr E run others c fs n pem ip = (fs', r)"
  obtains s' leaf opts where "r = Inr True" "ready c fs'" "cadir_at c s' fs'" "slot_cert c fs' (Host n) = Some leaf"
    "sign_csr E req (ca_crt c) (ca_key c) opts = Inr leaf" "puppet_exts (so_extra_exts opts)" "so_ttl opts = ca_ttl c"
proof -
  let ?a = "autosign_snapshot c"
  have chk: "submit_check ?a n pem ip = Inr None"
    using n dec auto by (simp add: submit_check_def autosign_snapshot_def)
  obtain o1 where st: "submit_store E c ?a fs n pem = (fs', o1)" "o1 \<noteq> AskPolicy \<longrightarrow> o1 = SubmitDone r"
    using sub chk by (auto simp: submit_csr_def Let_def split: prod.splits store_outcome.splits)
  note ref = submit_store_refines [OF rdy inv n st(1)]
  let ?d = "db_of c fs"
  let ?o = "(autosign_opts c)\<lparr>so_serial := Some s, so_extra_exts := so_extra_exts (autosign_opts c) @ allowed_from_csr (csr_exts req)\<rparr>"
  have d: "db_cert ?d n = None" "db_req ?d n = None \<or> db_req ?d n = Some pem" "db_next ?d = s"
    using n free slot_cert_present [OF inv n] inv by (auto simp: db_of_def cadir_at_def)
  have ids: "distinct (map ext_id (csr_exts req))" "ids_fit (csr_exts req)"
    using dec(1) by (auto simp: decode_csr_def parse_csr_def split: option.splits der.splits if_splits)
  obtain leaf where leaf: "sign_csr E req (ca_crt c) (ca_key c) ?o = Inr leaf"
    using signable [where c = c and req = req and pub = pub and E = E and s = s] inv dec n ids by (auto simp: cadir_at_def)
  have "db_submit E c ?a n pem ?d = (?d\<lparr>db_req := (db_req ?d)(n := None), db_next := s + 1,
      db_cert := (db_cert ?d)(n \<mapsto> leaf)\<rparr>, Some (Inr True))"
    using d auto dec(1) leaf by (auto simp: db_submit_def db_sign_def autosign_snapshot_def Let_def)
  with ref have out: "ready c fs'" "db_cert (db_of c fs') n = Some leaf" "outcome_of o1 = Some (Inr True)" by auto
  moreover have "o1 = SubmitDone (Inr True)" using out(3) by (cases o1) (auto simp: outcome_of_def)
  moreover obtain s' where "cadir_at c s' fs'"
  proof -
    have "req_ok n pem" using dec by (simp add: req_ok_def)
    from submit_store_ok [OF inv n this st(1)] that show thesis by (auto simp: ok_step_def)
  qed
  ultimately show thesis
    using leaf n st(2) puppet_allowed [of "csr_exts req"]
    by (intro that [of s' leaf ?o]) (auto simp: db_of_fields autosign_opts_def default_sign_opts_def)
qed

section \<open>Properties\<close>

lemma certs_of_cert_pem: "ca_ok c \<Longrightarrow> certs_of_pem (cert_pem c) = [ca_crt c]"
  by (simp add: cert_pem_def encode_cert_def pem_encode_def parse_certificate_def ca_ok_def)

text \<open>The first number of an encoded identifier, computed from its first two, is a Go \<open>int\<close>.\<close>

definition oid_no_wrap :: "oid \<Rightarrow> bool" where
  "oid_no_wrap a = (case a of v # w # r \<Rightarrow> 40 * v + w < 2 ^ 63 | _ \<Rightarrow> True)"

text \<open>C8: The two halves fit together. Under blanket autosign, with no certificate for the name yet and
  no other request pending, the request an agent builds (any trusted facts other than a subjectAltName
  whose identifiers have no number beyond 31 bits, any alternative names) is answered 200 by the PUT route,
  and the GET route then serves a certificate that the agent adopts: it passes all its checks against
  the CA's certificate, for its name and its key, from an hour before the signing to the end of the
  certificate's lifetime, while the CA certificate is valid. A request with a larger identifier, which
  the agent builds all the same, the CA cannot read: it is answered 400 and nothing changes (as long as
  the first two numbers together do not overflow 63 bits on the agent's side).\<close>
theorem autosigned_certificate_is_adopted:
  assumes store: "ready c fs" "cadir_at c s fs" "api_store a = c"
    and auto: "ca_autosign_all c" "ca_policy_exe c = []"
    and n: "valid_certname n" "n \<noteq> ''ca''"
    and free: "file_at fs (signed_path c n) = None"
      "file_at fs (request_path c n) = None \<or> file_at fs (request_path c n) = Some pem"
    and csr: "build_extensions m = Inr exts" "oid_subject_alt_name \<notin> set (map ext_id exts)"
      "create_csr key n alts exts = Inr pem"
    and rq: "rq_body rq = pem" "rq_size rq \<le> maxCSRBytes"
    and put: "serve_route E run others a rq (PutCsr n) fs = (fs', resp)"
  shows "if list_all oid_fits (map ext_id exts)
    then rs_status resp = 200 \<and>
      (\<exists>b. serve_route E2 run2 others2 a rq2 (GetCert n) fs' = (fs', write_pem b) \<and>
         (\<forall>now. env_now E - hour \<le> now \<and> now \<le> leaf_until E c \<and> time_valid now (ca_crt c) \<longrightarrow>
            validate_issued_cert now b (cert_pem c) n key = None))
    else list_all oid_no_wrap (map ext_id exts) \<longrightarrow> rs_status resp = 400 \<and> fs' = fs"
proof -
  note dec = create_csr_decodes [OF csr(3) build_extensions_shape(1) [OF csr(1)] csr(2)]
  obtain r where sub: "submit_csr E run others c fs n pem (direct_peer_ip (rq_remote rq)) = (fs', r)"
    and resp: "resp = (case r of Inl e \<Rightarrow> http_error (err_text e) 400 | Inr x \<Rightarrow> header_only 200)"
    using put rq store(3) by (auto simp: serve_route_def h_put_csr_def Let_def split: prod.splits sum.splits)
  show ?thesis
  proof (cases "ids_fit exts")
    case False
    with dec(2) obtain err where "decode_csr pem = Inl err" by blast
    with n(1) have "submit_check (autosign_snapshot c) n pem ip = Inl (EWrap ''bad CSR'' err)" for ip
      by (simp add: submit_check_def)
    with sub have "r = Inl (EWrap ''bad CSR'' err)" "fs' = fs" by (auto simp: submit_csr_def)
    with resp False show ?thesis by (simp add: http_error_def list.pred_map comp_def)
  next
    case True
    with dec(1) obtain req where req: "decode_csr pem = Inr req" "nm_cn (csr_subject req) = n" "csr_check_signature req"
      "csr_pub req = RSAKey (priv_public key)" "list_all is_ia5 (csr_dns req)" by blast
    obtain s' leaf opts where r: "r = Inr True" "ready c fs'" "cadir_at c s' fs'" "slot_cert c fs' (Host n) = Some leaf"
      and sg: "sign_csr E req (ca_crt c) (ca_key c) opts = Inr leaf" "puppet_exts (so_extra_exts opts)" "so_ttl opts = ca_ttl c"
      using submit_autosigned [OF store(1,2) auto n(1) free req sub] .
    note served = get_cert_on_disk [OF r(2,3) n r(4)]
    have ok: "ca_ok c" using store(2) by (simp add: cadir_at_def)
    have "validate_issued_cert now (encode_cert leaf) (cert_pem c) n key = None"
      if t: "env_now E - hour \<le> now" "now \<le> leaf_until E c" "time_valid now (ca_crt c)" for now
    proof -
      have "crt_not_before leaf = trunc_second (env_now E - hour)" "crt_not_after leaf = leaf_until E c"
        "nm_cn (crt_subject leaf) = n" "crt_pub leaf = RSAKey (priv_public key)"
        using sg req by (auto simp: sign_csr_Inr leaf_of_def leaf_until_def Let_def)
      moreover from this have "time_valid now leaf"
        using t trunc_second_le [of "env_now E - hour"] by (simp add: time_valid_def)
      ultimately show ?thesis
        using signed_leaf_verifies [OF ok sg(1,2) _ t(3), of "[ca_crt c]"] served
        by (simp add: validate_issued_cert_None certs_of_cert_pem ok decode_encode_cert)
    qed
    then show ?thesis
      using served resp r(1) store(3) True
      by (auto simp: serve_route_def header_only_def Let_def list.pred_map comp_def intro!: exI [of _ "encode_cert leaf"])
  qed
qed

definition ex_auto_ca :: ca where
  "ex_auto_ca = ex_ca\<lparr>ca_policy_exe := []\<rparr>"

definition ex_submit :: http_request where
  "ex_submit = \<lparr>rq_method = ''PUT'', rq_path = ''/puppet-ca/v1/certificate_request/node1'',
     rq_remote = ''10.0.0.9:4711'', rq_tls = None, rq_body = ex_csr_pem, rq_size = 900, rq_json = Inl ENotFound,
     rq_trailing = False\<rparr>"

definition ex_submit_fs :: "bytes os" where
  "ex_submit_fs = fst (serve_route ex_env ex_deny id \<lparr>api_store = ex_auto_ca, api_hostnames = []\<rparr> ex_submit
     (PutCsr ''node1'') ex_fs)"

theorem autosigned_certificate_is_adopted_witness:
  "\<exists>b. h_get_cert ex_auto_ca ex_submit_fs ''node1'' = write_pem b \<and>
     validate_issued_cert (ex_t0 + 3600 * second) b (cert_pem ex_auto_ca) ''node1'' ex_agent_key = None"
proof -
  let ?a = "\<lparr>api_store = ex_auto_ca, api_hostnames = []\<rparr>"
  have same: "same_ca ex_ca ex_auto_ca" by (simp add: same_ca_def ex_auto_ca_def)
  have rdy: "ready ex_auto_ca ex_fs"
    using ex_ready unfolding ready_def cadir_file_def same_ca_paths [OF same] .
  have inv: "cadir_at ex_auto_ca 2 ex_fs"
    using ex_cadir cadir_at_same_ca [OF same] by simp
  have free: "file_at ex_fs (signed_path ex_auto_ca ''node1'') = None" "file_at ex_fs (request_path ex_auto_ca ''node1'') = None"
    by code_simp+
  have ext: "build_extensions [(''pp_role'', ''web'')] = Inr (csr_exts ex_csr)" by code_simp
  have san: "oid_subject_alt_name \<notin> set (map ext_id (csr_exts ex_csr))" by code_simp
  have csr: "create_csr ex_agent_key ''node1'' [] (csr_exts ex_csr) = Inr ex_csr_pem" by code_simp
  have rq: "rq_body ex_submit = ex_csr_pem" "rq_size ex_submit \<le> maxCSRBytes"
    by (simp_all add: ex_submit_def maxCSRBytes_def)
  have auto: "ca_autosign_all ex_auto_ca" "ca_policy_exe ex_auto_ca = []"
    by (simp_all add: ex_auto_ca_def ex_ca_def)
  obtain resp where put: "serve_route ex_env ex_deny id ?a ex_submit (PutCsr ''node1'') ex_fs = (ex_submit_fs, resp)"
    by (metis ex_submit_fs_def prod.collapse)
  have t: "env_now ex_env - hour \<le> ex_t0 + 3600 * second \<and> ex_t0 + 3600 * second \<le> leaf_until ex_env ex_auto_ca \<and>
      time_valid (ex_t0 + 3600 * second) (ca_crt ex_auto_ca)" by code_simp
  have fit: "list_all oid_fits (map ext_id (csr_exts ex_csr))" by code_simp
  from autosigned_certificate_is_adopted [OF rdy inv _ auto ex_valid _ free(1) disjI1 [OF free(2)] ext san csr rq put] t fit
  show ?thesis by (fastforce simp: serve_route_def Let_def)
qed

text \<open>C18: Any two identities of one CA authenticate each other: the server configuration of one accepts
  the leaf the client configuration of the other presents, and the client accepts the server's leaf
  under every name in it, dialed or set as the server name. A client without a certificate, or with one that does not verify against the
  server's own CA text, is refused. Configurations handed out earlier present a leaf that was swapped in later.\<close>
theorem same_ca_peers_authenticate:
  assumes ca: "ca_ok c" "time_valid now (ca_crt c)"
    and l1: "sign_csr E1 r1 (ca_crt c) (ca_key c) o1 = Inr l1" "puppet_exts (so_extra_exts o1)" "time_valid now l1"
    and l2: "sign_csr E2 r2 (ca_crt c) (ca_key c) o2 = Inr l2" "puppet_exts (so_extra_exts o2)" "time_valid now l2"
    and i1: "new_identity n1 l1 k1 pem1 = Inr i1" "ca_crt c \<in> set (certs_of_pem pem1)"
    and i2: "new_identity n2 l2 k2 pem2 = Inr i2" "ca_crt c \<in> set (certs_of_pem pem2)"
  shows "server_accepts now (agent_server_tls_config i1) (Some (tls_leaf (ct_get_client_certificate (client_tls_config i2 h) i2))) \<and>
    (\<forall>dns \<in> set (crt_dns l1).
        client_accepts now (client_tls_config i2 []) dns (tls_leaf (st_get_certificate (agent_server_tls_config i1) i1)) \<and>
        (dns \<noteq> [] \<longrightarrow> client_accepts now (client_tls_config i2 dns) d (tls_leaf (st_get_certificate (agent_server_tls_config i1) i1)))) \<and>
    \<not> server_accepts now (agent_server_tls_config i1) None \<and>
    (\<forall>crt. server_accepts now (agent_server_tls_config i1) (Some crt) \<longrightarrow> x509_verify now (certs_of_pem pem1) crt) \<and>
    st_get_certificate (agent_server_tls_config i1) (set_cert i1 t) = t \<and>
    ct_get_client_certificate (client_tls_config i1 h) (set_cert i1 t) = t"
proof -
  note v1 = signed_leaf_verifies [OF ca(1) l1 ca(2) i2(2)]
  note v2 = signed_leaf_verifies [OF ca(1) l2 ca(2) i1(2)]
  have "crt_ext_key_usage l = [EkuServerAuth, EkuClientAuth]"
    if "sign_csr E r (ca_crt c) (ca_key c) op = Inr l" for E r op l
    using that by (auto simp: sign_csr_Inr leaf_of_def Let_def)
  with l1(1) l2(1) have "usable_for EkuServerAuth l1" "usable_for EkuClientAuth l2"
    by (auto simp: usable_for_def)
  with v1 v2 i1(1) i2(1) show ?thesis
    by (auto simp: new_identity_Inr server_accepts_def client_accepts_def agent_server_tls_config_def
        client_tls_config_def current_def set_cert_def)
qed

definition ex_peer_opts :: sign_opts where
  "ex_peer_opts = default_sign_opts\<lparr>so_serial := Some 5, so_dns_alt_names := [''svc'']\<rparr>"

definition ex_peer_leaf :: certificate where
  "ex_peer_leaf = projr (sign_csr ex_env ex_csr ex_ca_crt ex_key ex_peer_opts)"

definition ex_peer :: identity where
  "ex_peer = projr (new_identity ''node1'' ex_peer_leaf ex_agent_key (cert_pem ex_ca))"

theorem same_ca_peers_authenticate_witness:
  "server_accepts ex_t0 (agent_server_tls_config ex_peer)
     (Some (tls_leaf (ct_get_client_certificate (client_tls_config ex_id []) ex_id)))"
proof -
  have fields: "ca_crt ex_ca = ex_ca_crt" "ca_key ex_ca = ex_key" by (simp_all add: ex_ca_def)
  have ok: "ca_ok ex_ca" using ex_cadir by (simp add: cadir_at_def)
  have "is_ok (sign_csr ex_env ex_csr ex_ca_crt ex_key ex_peer_opts)" by code_simp
  then have l: "sign_csr ex_env ex_csr (ca_crt ex_ca) (ca_key ex_ca) ex_peer_opts = Inr ex_peer_leaf"
    by (auto simp: ex_peer_leaf_def fields is_ok_iff)
  let ?o2 = "default_sign_opts\<lparr>so_serial := Some 2, so_ttl := ca_ttl ex_ca, so_extra_exts := csr_exts ex_csr\<rparr>"
  have l2: "sign_csr ex_env ex_csr (ca_crt ex_ca) (ca_key ex_ca) ?o2 = Inr ex_leaf" by code_simp
  have p: "puppet_exts (so_extra_exts ex_peer_opts)" "puppet_exts (so_extra_exts ?o2)"
    and t: "time_valid ex_t0 (ca_crt ex_ca)" "time_valid ex_t0 ex_peer_leaf" "time_valid ex_t0 ex_leaf"
    and r: "ca_crt ex_ca \<in> set (certs_of_pem (cert_pem ex_ca))"
    by code_simp+
  have i1: "new_identity ''node1'' ex_peer_leaf ex_agent_key (cert_pem ex_ca) = Inr ex_peer"
    using certs_of_cert_pem [OF ok] by (simp add: ex_peer_def new_identity_def)
  have i2: "new_identity ''node1'' ex_leaf ex_agent_key (cert_pem ex_ca) = Inr ex_id"
    using certs_of_cert_pem [OF ok] by (simp add: new_identity_Inr ex_id_def fields)
  from same_ca_peers_authenticate [OF ok t(1) l p(1) t(2) l2 p(2) t(3) i1 r i2 r] show ?thesis by blast
qed

end
