(* ===== verification/Cli.thy ===== *)
theory Cli
  imports Agent CaHandler
begin

text \<open>
  \<open>cmd/facts-ca-cli/main.go\<close>: the command line of the agent. Arguments are lists of strings, the
  option map an association list, what is printed a list of items. What the file system does with a path that the
  user wrote is the cleaned path. Parameters: the JSON reader of a status list (\<open>ci_json\<close>), the first
  4 MiB of a longer body (\<open>ci_cut\<close>) and the build version.
\<close>

record cli_params =
  ci_json :: "bytes \<Rightarrow> cert_status list res"
  ci_cut :: "bytes \<Rightarrow> bytes"
  ci_version :: string

datatype out_item = OutText string | OutBytes bytes | OutFacts "string \<rightharpoonup> string" | ErrText string

type_synonym options = "(string \<times> string) list"

section \<open>Flags\<close>

text \<open>The loop of \<open>parseCommon\<close>: options and positional arguments so far.\<close>

fun parse_common_loop :: "options \<Rightarrow> string list \<Rightarrow> string list \<Rightarrow> options \<times> string list" where
  "parse_common_loop opts pos [] = (opts, pos)"
| "parse_common_loop opts pos (a # args) =
     (if length a > 2 \<and> take 2 a = ''--'' then
        (case str_cut (CHR ''='') (drop 2 a) of
           Some (k, v) \<Rightarrow> parse_common_loop (AList.update k v opts) pos args
         | None \<Rightarrow>
             if drop 2 a = ''onetime'' then parse_common_loop (AList.update (drop 2 a) ''true'' opts) pos args
             else (case args of
                 b # rest \<Rightarrow> parse_common_loop (AList.update (drop 2 a) b opts) pos rest
               | [] \<Rightarrow> (AList.update (drop 2 a) ''true'' opts, pos)))
      else parse_common_loop opts (pos @ [a]) args)"

definition parse_common :: "string list \<Rightarrow> options \<times> string list" where
  "parse_common args = parse_common_loop [] [] args"

definition put_ext :: "string \<Rightarrow> options \<Rightarrow> options" where
  "put_ext kv m = (case str_cut (CHR ''='') kv of
       Some (k, v) \<Rightarrow> AList.update (trim_space k) v m | None \<Rightarrow> m)"

fun parse_ext_loop :: "options \<Rightarrow> string list \<Rightarrow> options" where
  "parse_ext_loop m [] = m"
| "parse_ext_loop m (a # args) =
     (if a = ''--ext'' \<and> args \<noteq> [] then
        (case args of kv # rest \<Rightarrow> parse_ext_loop (put_ext kv m) rest | [] \<Rightarrow> m)
      else if has_prefix ''--ext='' a then parse_ext_loop (put_ext (drop 6 a) m) args
      else parse_ext_loop m args)"

definition parse_ext :: "string list \<Rightarrow> options" where
  "parse_ext args = parse_ext_loop [] args"

text \<open>\<open>maps.Copy\<close>.\<close>

definition maps_copy :: "options \<Rightarrow> options \<Rightarrow> options" where
  "maps_copy dst src = foldl (\<lambda>m (k, v). AList.update k v m) dst src"

definition collect_extensions :: "bytes os \<Rightarrow> options \<Rightarrow> string list \<Rightarrow> (options \<times> out_item list) res" where
  "collect_extensions fs opts args =
     (let p = map_get opts ''csr-attributes'' in
      if p = [] then Inr (maps_copy [] (parse_ext args), [])
      else (case parse_csr_attributes fs (filepath_clean p) of
          Inl e \<Rightarrow> Inl (EWrap (''read '' @ p) e)
        | Inr (ext_req, custom) \<Rightarrow>
            Inr (maps_copy (maps_copy [] ext_req) (parse_ext args),
              if custom = [] then []
              else [ErrText ''note: custom_attributes (e.g. challengePassword) are parsed but not embedded''])))"

definition join_keys :: "options \<Rightarrow> string" where
  "join_keys m = str_join '', '' (sort (map fst m))"

definition split_comma :: "string \<Rightarrow> string list" where
  "split_comma s = filter (\<lambda>p. p \<noteq> []) (map trim_space (str_split (CHR '','') s))"

definition atoi_or :: "string \<Rightarrow> int \<Rightarrow> int" where
  "atoi_or s def_val = (case go_atoi s of Some n \<Rightarrow> if n > 0 then n else def_val | None \<Rightarrow> def_val)"

definition duration_or :: "string \<Rightarrow> duration \<Rightarrow> duration" where
  "duration_or s def_val = (if s = [] then def_val
     else (case parse_duration s of Inl _ \<Rightarrow> def_val | Inr d \<Rightarrow> d))"

section \<open>The common settings\<close>

record common =
  cm_server :: string
  cm_host :: string
  cm_certname :: string
  cm_dir :: string

fun discover_loop :: "(string \<times> bool) list \<Rightarrow> string \<Rightarrow> string" where
  "discover_loop [] found = found"
| "discover_loop ((n, is_directory) # es) found =
     (if is_directory \<or> n = ''ca.pem'' \<or> \<not> has_suffix ''.pem'' n then discover_loop es found
      else if found \<noteq> [] then []
      else discover_loop es (trim_suffix ''.pem'' n))"

definition discover_certname :: "bytes os \<Rightarrow> string \<Rightarrow> string" where
  "discover_certname fs dir = (case os_read_dir fs (filepath_join [dir, ''certs'']) of
       Inl _ \<Rightarrow> [] | Inr entries \<Rightarrow> discover_loop entries [])"

definition cli_default_certname :: "string res \<Rightarrow> string" where
  "cli_default_certname h = (case h of Inl _ \<Rightarrow> ''agent'' | Inr s \<Rightarrow> if s = [] then ''agent'' else s)"

definition resolve_common :: "bytes os \<Rightarrow> string res \<Rightarrow> options \<Rightarrow> common res" where
  "resolve_common fs h opts =
     (if map_get opts ''server'' = [] then Inl (EMsg ''--server H:8140 is required'')
      else let server = (case split_host_port (map_get opts ''server'') of
                 None \<Rightarrow> join_host_port (map_get opts ''server'') ''8140'' | Some _ \<Rightarrow> map_get opts ''server'');
               dir = (if map_get opts ''ssldir'' = [] then ''./ssl'' else map_get opts ''ssldir'');
               name1 = (if map_get opts ''certname'' = [] then discover_certname fs dir else map_get opts ''certname'');
               name = (if name1 = [] then cli_default_certname h else name1)
        in if \<not> valid_certname name
           then Inl (EMsg (''invalid certname '' @ go_quote name @
                  '' (lowercase letters, digits, .-_ only; no path separators)''))
           else Inr \<lparr>cm_server = server,
                  cm_host = (case split_host_port server of None \<Rightarrow> [] | Some (host, port) \<Rightarrow> host),
                  cm_certname = name, cm_dir = dir\<rparr>)"

section \<open>bootstrap\<close>

definition report :: "env \<Rightarrow> identity \<Rightarrow> out_item list" where
  "report E i =
     (let crt = tls_leaf (identity_certificate i) in
      [OutText (''  subject:     CN='' @ nm_cn (crt_subject crt)),
       OutText (''  serial:      '' @ show_int (crt_serial crt)),
       OutText (''  not_after:   '' @ format_rfc3339 (crt_not_after crt)),
       OutText (''  SHA256:      '' @ cert_fingerprint E crt),
       OutFacts (describe_exts (crt_exts crt))])"

definition bootstrap_config :: "common \<Rightarrow> options \<Rightarrow> int \<Rightarrow> duration \<Rightarrow> options \<Rightarrow> agent_config" where
  "bootstrap_config c opts keylen wait ext_map =
     \<lparr>cfg_server = cm_server c, cfg_certname = cm_certname c, cfg_dir = cm_dir c, cfg_key_bits = keylen,
      cfg_dns_alt_names = split_comma (map_get opts ''dns-alt-names''), cfg_extensions = ext_map,
      cfg_ca_cert = [], cfg_ca_fingerprint = [], cfg_tofu = True, cfg_wait = wait\<rparr>"

text \<open>A command: the world and the output after it, and its error. The context has no end.\<close>

definition background :: "surroundings \<Rightarrow> surroundings" where
  "background S = S\<lparr>su_ctx := None\<rparr>"

definition cmd_bootstrap :: "surroundings \<Rightarrow> string list \<Rightarrow> world \<Rightarrow> world \<times> out_item list \<times> go_error option" where
  "cmd_bootstrap S args w =
     (let opts = fst (parse_common args) in
      case resolve_common (w_fs w) (su_hostname S) opts of
        Inl e \<Rightarrow> (w, [], Some e)
      | Inr c \<Rightarrow>
          (let keylen = atoi_or (map_get opts ''keylength'') DefaultKeyBits;
               wait = (if map_get opts ''onetime'' = ''true'' then 0
                       else duration_or (map_get opts ''waitforcert'') (120 * second))
           in if keylen < 2048 \<or> keylen > 8192
              then (w, [], Some (EMsg (''--keylength must be between 2048 and 8192 (got '' @ show_int keylen @ '')'')))
              else
                (let had = is_ok (agent_load (su_env S) (su_hostname S) (cm_dir c) (cm_certname c) (w_now w) (w_fs w)) in
                 case (if had then Inr ([], []) else collect_extensions (w_fs w) opts args) of
                   Inl e \<Rightarrow> (w, [], Some e)
                 | Inr (ext_map, notes) \<Rightarrow>
                     (let out = notes @ (if ext_map = [] then []
                            else [OutText (''requesting '' @ show_int (int (length ext_map)) @
                                    '' trusted-fact extension(s): '' @ join_keys ext_map)])
                      in case enroll (background S) (bootstrap_config c opts keylen wait ext_map) w of
                           (w1, Inl e) \<Rightarrow> (w1, out, Some e)
                         | (w1, Inr i) \<Rightarrow>
                             (w1, out @ [OutText (''certificate '' @ (if had then ''already issued'' else ''issued'') @
                                ''; stored at '' @ path_string (cert_path \<lparr>sd_dir = cm_dir c,
                                   sd_certname = identity_certname i\<rparr>))] @ report (su_env S) i, None)))))"


section \<open>mtls and ca\<close>

text \<open>\<open>do\<close> of the command line reads at most 4 MiB and does not report more.\<close>

definition cli_do :: "cli_params \<Rightarrow> surroundings \<Rightarrow> http_call \<Rightarrow> world \<Rightarrow> world \<times> bytes \<times> int \<times> go_error option" where
  "cli_do P S q w = (case http_exchange (background S) q w of
       (w1, Inl e) \<Rightarrow> (w1, [], 0, Some e)
     | (w1, Inr (code, Inl e)) \<Rightarrow> (w1, [], code, Some e)
     | (w1, Inr (code, Inr (b, n))) \<Rightarrow> (w1, if n > 4194304 then ci_cut P b else b, code, None))"

definition cli_get :: "cli_params \<Rightarrow> surroundings \<Rightarrow> go_client \<Rightarrow> string \<Rightarrow> world \<Rightarrow> world \<times> bytes \<times> int \<times> go_error option" where
  "cli_get P S c target w = cli_do P S \<lparr>hq_method = ''GET'', hq_url = target, hq_roots = cl_roots c,
     hq_server_name = cl_server_name c, hq_cert = cl_cert c, hq_body = []\<rparr> w"

definition cli_put :: "cli_params \<Rightarrow> surroundings \<Rightarrow> go_client \<Rightarrow> string \<Rightarrow> bytes \<Rightarrow> world \<Rightarrow> world \<times> bytes \<times> int \<times> go_error option" where
  "cli_put P S c target body w = cli_do P S \<lparr>hq_method = ''PUT'', hq_url = target, hq_roots = cl_roots c,
     hq_server_name = cl_server_name c, hq_cert = cl_cert c, hq_body = body\<rparr> w"

text \<open>A client from a TLS configuration, as it is when the identity's certificate is asked for.\<close>

definition client_of :: "identity \<Rightarrow> client_tls \<Rightarrow> go_client" where
  "client_of i cfg = \<lparr>cl_roots = Some (ct_roots cfg), cl_server_name = ct_server_name cfg,
     cl_cert = Some (ct_get_client_certificate cfg i)\<rparr>"

definition mtls_client :: "identity \<Rightarrow> string \<Rightarrow> go_client" where
  "mtls_client i host = client_of i (client_tls_config i host)"

definition load_identity :: "surroundings \<Rightarrow> common \<Rightarrow> world \<Rightarrow> identity res" where
  "load_identity S c w = agent_load (su_env S) (su_hostname S) (cm_dir c) (cm_certname c) (w_now w) (w_fs w)"

definition ends_in_newline :: "bytes \<Rightarrow> bool" where
  "ends_in_newline b \<longleftrightarrow> last (bytes_string b) = CHR 0x0A"

definition cmd_mtls :: "cli_params \<Rightarrow> surroundings \<Rightarrow> string list \<Rightarrow> world \<Rightarrow> world \<times> out_item list \<times> go_error option" where
  "cmd_mtls P S args w =
     (let opts = fst (parse_common args); target = map_get opts ''url'' in
      case resolve_common (w_fs w) (su_hostname S) opts of
        Inl e \<Rightarrow> (w, [], Some e)
      | Inr c \<Rightarrow>
          if target = [] then (w, [], Some (EMsg ''--url https://host/path is required''))
          else (case load_identity S c w of
              Inl e \<Rightarrow> (w, [], Some e)
            | Inr i \<Rightarrow>
                (case cli_get P S (client_of i (hc_tls (identity_http_client i))) target w of
                   (w1, body, code, Some e) \<Rightarrow> (w1, [], Some e)
                 | (w1, body, code, None) \<Rightarrow>
                     (w1, [OutText (''HTTP '' @ show_int code @ '' from '' @ target @ '' using client cert CN='' @
                         identity_certname i), OutBytes body] @
                       (if body \<noteq> [] \<and> \<not> ends_in_newline body then [OutText []] else []), None))))"

text \<open>\<open>url.PathEscape\<close>.\<close>

definition path_plain :: "char \<Rightarrow> bool" where
  "path_plain c \<longleftrightarrow> CHR ''a'' \<le> c \<and> c \<le> CHR ''z'' \<or> CHR ''A'' \<le> c \<and> c \<le> CHR ''Z'' \<or>
     CHR ''0'' \<le> c \<and> c \<le> CHR ''9'' \<or> c \<in> set ''-_.~$&+:=@''"

definition path_escape :: "string \<Rightarrow> string" where
  "path_escape s = concat (map (\<lambda>c. if path_plain c then [c]
     else [CHR ''%'', digit_char (of_char c div 16), digit_char (of_char c mod 16)]) s)"

definition pad_right :: "nat \<Rightarrow> string \<Rightarrow> string" where
  "pad_right n s = s @ replicate (n - length s) (CHR '' '')"

definition status_line :: "cert_status \<Rightarrow> string" where
  "status_line s = pad_right 40 (Name s) @ '' '' @ pad_right 10 (State s) @ '' '' @ Fingerprint s"

definition json_quote :: "string \<Rightarrow> string" where
  "json_quote s = CHR 0x22 # s @ [CHR 0x22]"

text \<open>\<open>json.Marshal\<close> of a desired state with the state field only.\<close>

definition desired_payload :: "string \<Rightarrow> bytes" where
  "desired_payload st = text_bytes (''{'' @ json_quote ''desired_state'' @ '':'' @ json_quote st @ ''}'')"

definition ca_list :: "cli_params \<Rightarrow> surroundings \<Rightarrow> go_client \<Rightarrow> string \<Rightarrow> world \<Rightarrow> world \<times> out_item list \<times> go_error option" where
  "ca_list P S client base w = (case cli_get P S client (base @ ''/certificate_statuses/all'') w of
       (w1, body, code, Some e) \<Rightarrow> (w1, [], Some e)
     | (w1, body, code, None) \<Rightarrow>
         if code \<noteq> 200
         then (w1, [], Some (EMsg (''server returned '' @ show_int code @ '': '' @ bytes_string body)))
         else (case ci_json P body of
             Inl e \<Rightarrow> (w1, [], Some e)
           | Inr l \<Rightarrow> (w1, map (\<lambda>s. OutText (status_line s)) l, None)))"

definition ca_put_state :: "cli_params \<Rightarrow> surroundings \<Rightarrow> go_client \<Rightarrow> string \<Rightarrow> string \<Rightarrow> string \<Rightarrow> world
    \<Rightarrow> world \<times> out_item list \<times> go_error option" where
  "ca_put_state P S client base verb name w =
     (let state = (if verb = ''revoke'' then StateRevoked else StateSigned) in
      case cli_put P S client (base @ ''/certificate_status/'' @ path_escape name) (desired_payload state) w of
        (w1, body, code, Some e) \<Rightarrow> (w1, [], Some e)
      | (w1, body, code, None) \<Rightarrow>
          if code \<noteq> 204 \<and> code \<noteq> 200 then (w1, [], Some (EMsg (''server returned '' @ show_int code)))
          else (w1, [OutText (name @ '': '' @ (if verb = ''sign'' then ''signed'' else ''revoked''))], None))"

definition cmd_ca :: "cli_params \<Rightarrow> surroundings \<Rightarrow> string list \<Rightarrow> world \<Rightarrow> world \<times> out_item list \<times> go_error option" where
  "cmd_ca P S args w =
     (case parse_common args of
        (opts, []) \<Rightarrow> (w, [], Some (EMsg ''ca <list|sign|revoke> [name]''))
      | (opts, verb # names) \<Rightarrow>
          (case resolve_common (w_fs w) (su_hostname S) opts of
             Inl e \<Rightarrow> (w, [], Some e)
           | Inr c \<Rightarrow>
               (case load_identity S c w of
                  Inl e \<Rightarrow> (w, [], Some e)
                | Inr i \<Rightarrow>
                    (let client = mtls_client i (cm_host c); base = ''https://'' @ cm_server c @ Base in
                     if verb = ''list'' then ca_list P S client base w
                     else if verb = ''sign'' \<or> verb = ''revoke'' then
                       (case names of
                          [] \<Rightarrow> (w, [], Some (EMsg (''ca '' @ verb @ '' <name>'')))
                        | name # others \<Rightarrow> ca_put_state P S client base verb name w)
                     else (w, [], Some (EMsg (''unknown ca subcommand '' @ go_quote verb)))))))"

section \<open>main\<close>

definition finish :: "world \<times> out_item list \<times> go_error option \<Rightarrow> world \<times> out_item list \<times> int" where
  "finish r = (case r of
       (w, out, None) \<Rightarrow> (w, out, 0)
     | (w, out, Some e) \<Rightarrow> (w, out @ [ErrText (''error: '' @ err_text e)], 1))"

definition usage_text :: out_item where
  "usage_text = ErrText ''facts-ca-cli'' \<comment> \<open>the first word of the usage text\<close>"

definition cli_main :: "cli_params \<Rightarrow> surroundings \<Rightarrow> string list \<Rightarrow> world \<Rightarrow> world \<times> out_item list \<times> int" where
  "cli_main P S argv w = (case argv of
       [] \<Rightarrow> (w, [usage_text], 2)
     | cmd # args \<Rightarrow>
         if cmd = ''bootstrap'' then finish (cmd_bootstrap S args w)
         else if cmd = ''mtls'' then finish (cmd_mtls P S args w)
         else if cmd = ''ca'' then finish (cmd_ca P S args w)
         else if cmd \<in> {''version'', ''--version'', ''-v''} then (w, [OutText (ci_version P)], 0)
         else if cmd \<in> {''-h'', ''--help'', ''help''} then (w, [usage_text], 2)
         else (w, [ErrText (''unknown command '' @ go_quote cmd), usage_text], 2))"

end
