(* ===== verification/ServerMain.thy ===== *)
theory ServerMain
  imports CaHandler
begin

text \<open>
  \<open>cmd/facts-ca-server/main.go\<close>: flags (the loop of the standard \<open>flag\<close> package over the kinds of
  flag the program declares), the offline operations on the cadir, and the start of the service up
  to the TLS configuration it listens with. The host name is an argument; logging and the texts of
  usage messages are not modelled.
\<close>

section \<open>Flags\<close>

datatype flag_kind = StringFlag | BoolFlag | DurationFlag

datatype flag_error = FlagHelp | FlagBad string

type_synonym flag_values = "(string \<times> string) list"

text \<open>\<open>strconv.ParseBool\<close>.\<close>

definition parse_bool :: "string \<Rightarrow> bool option" where
  "parse_bool s =
     (if s \<in> {''1'', ''t'', ''T'', ''TRUE'', ''true'', ''True''} then Some True
      else if s \<in> {''0'', ''f'', ''F'', ''FALSE'', ''false'', ''False''} then Some False
      else None)"

definition flag_value_ok :: "flag_kind \<Rightarrow> string \<Rightarrow> bool" where
  "flag_value_ok k v = (case k of StringFlag \<Rightarrow> True | BoolFlag \<Rightarrow> parse_bool v \<noteq> None
     | DurationFlag \<Rightarrow> is_ok (parse_duration v))"

text \<open>The name and value of one argument: \<open>None\<close> ends the flags; dashes are cut off.\<close>

definition flag_name :: "string \<Rightarrow> string option" where
  "flag_name s =
     (if length s < 2 \<or> hd s \<noteq> CHR ''-'' then None
      else Some (if s ! 1 = CHR ''-'' then drop 2 s else drop 1 s))"

text \<open>The value follows the first \<open>=\<close> after the first character of the name.\<close>

definition split_flag :: "string \<Rightarrow> string \<times> string option" where
  "split_flag n = (case str_cut (CHR ''='') (tl n) of
       None \<Rightarrow> (n, None) | Some (a, v) \<Rightarrow> (hd n # a, Some v))"

definition set_flag :: "(string \<times> flag_kind) list \<Rightarrow> string \<Rightarrow> string \<Rightarrow> flag_values \<Rightarrow> flag_error + flag_values" where
  "set_flag decls n v vals = (case map_of decls n of
       None \<Rightarrow> Inl (FlagBad (''flag provided but not defined: -'' @ n))
     | Some k \<Rightarrow> if flag_value_ok k v then Inr (AList.update n v vals)
         else Inl (FlagBad (''invalid value '' @ go_quote v @ '' for flag -'' @ n)))"

fun flag_parse :: "(string \<times> flag_kind) list \<Rightarrow> flag_values \<Rightarrow> string list \<Rightarrow> flag_error + (flag_values \<times> string list)" where
  "flag_parse decls vals [] = Inr (vals, [])"
| "flag_parse decls vals (s # args) = (case flag_name s of
       None \<Rightarrow> Inr (vals, s # args)
     | Some [] \<Rightarrow> Inr (vals, args)
     | Some (ch # rest) \<Rightarrow>
         (let (n, v) = split_flag (ch # rest) in
          if ch = CHR ''-'' \<or> ch = CHR ''='' then Inl (FlagBad (''bad flag syntax: '' @ s))
          else (case map_of decls n of
              None \<Rightarrow> if n = ''help'' \<or> n = ''h'' then Inl FlagHelp
                      else Inl (FlagBad (''flag provided but not defined: -'' @ n))
            | Some k \<Rightarrow>
                (case v of
                   Some x \<Rightarrow> (case set_flag decls n x vals of Inl e \<Rightarrow> Inl e | Inr vals' \<Rightarrow> flag_parse decls vals' args)
                 | None \<Rightarrow>
                     if k = BoolFlag
                     then (case set_flag decls n ''true'' vals of Inl e \<Rightarrow> Inl e | Inr vals' \<Rightarrow> flag_parse decls vals' args)
                     else (case args of
                         [] \<Rightarrow> Inl (FlagBad (''flag needs an argument: -'' @ n))
                       | x # args' \<Rightarrow>
                           (case set_flag decls n x vals of Inl e \<Rightarrow> Inl e
                            | Inr vals' \<Rightarrow> flag_parse decls vals' args'))))))"

text \<open>The declared defaults show where no flag set the value.\<close>

definition string_flag :: "flag_values \<Rightarrow> string \<Rightarrow> string \<Rightarrow> string" where
  "string_flag vals n d = (case map_of vals n of Some v \<Rightarrow> v | None \<Rightarrow> d)"

definition bool_flag :: "flag_values \<Rightarrow> string \<Rightarrow> bool" where
  "bool_flag vals n = (case map_of vals n of Some v \<Rightarrow> parse_bool v = Some True | None \<Rightarrow> False)"

definition duration_flag :: "flag_values \<Rightarrow> string \<Rightarrow> duration \<Rightarrow> duration" where
  "duration_flag vals n d = (case map_of vals n of
       None \<Rightarrow> d | Some v \<Rightarrow> (case parse_duration v of Inl _ \<Rightarrow> d | Inr t \<Rightarrow> t))"

section \<open>Offline operations\<close>

definition admin_flags :: "(string \<times> flag_kind) list" where
  "admin_flags = [(''cadir'', StringFlag), (''ttl'', DurationFlag)]"

definition admin_options :: "flag_values \<Rightarrow> ca_options" where
  "admin_options vals = \<lparr>co_dir = string_flag vals ''cadir'' ''./cadir'', co_name = [], co_hostnames = [],
     co_ttl = duration_flag vals ''ttl'' DefaultCATTL, co_autosign_all = False, co_allow_alt_san = False,
     co_policy_exe = [], co_policy_timeout = 0\<rparr>"

definition pad_to :: "nat \<Rightarrow> string \<Rightarrow> string" where
  "pad_to n s = s @ replicate (n - length s) (CHR '' '')"

definition list_line :: "cert_status \<Rightarrow> string" where
  "list_line s = pad_to 40 (Name s) @ '' '' @ pad_to 10 (State s) @ '' '' @ Fingerprint s"

text \<open>The directory after a run, the lines printed and the exit status.\<close>

definition admin_action :: "env \<Rightarrow> ca_api \<Rightarrow> string \<Rightarrow> string \<Rightarrow> bytes os \<Rightarrow> bytes os \<times> go_error option" where
  "admin_action E a action name fs =
     (if action = ''sign'' then api_sign E a name default_sign_opts fs
      else if action = ''revoke'' then api_revoke E a name fs
      else api_clean a name (fst (api_revoke E a name fs)))"

definition admin_main :: "env \<Rightarrow> string res \<Rightarrow> string \<Rightarrow> string list \<Rightarrow> bytes os \<Rightarrow> bytes os \<times> string list \<times> int" where
  "admin_main E h action args fs = (case flag_parse admin_flags [] args of
       Inl FlagHelp \<Rightarrow> (fs, [], 0)
     | Inl (FlagBad m) \<Rightarrow> (fs, [], 2)
     | Inr (vals, rest) \<Rightarrow>
         (case api_open h fs (admin_options vals) of
            Inl e \<Rightarrow> (fs, [], 1)
          | Inr a \<Rightarrow>
              if action = ''list'' then
                (case api_statuses E a fs of
                   Inl e \<Rightarrow> (fs, [], 1) | Inr l \<Rightarrow> (fs, map list_line l, 0))
              else
                (let name = (case rest of [] \<Rightarrow> [] | n # others \<Rightarrow> n) in
                 if name = [] then (fs, [], 1)
                 else (case admin_action E a action name fs of
                     (fs', Some e) \<Rightarrow> (fs', [], 1)
                   | (fs', None) \<Rightarrow> (fs', [name @ '': '' @ action @ ''d''], 0)))))"

section \<open>The service\<close>

record serve_config =
  sc_listen :: string
  sc_init :: bool
  sc_ca :: ca_options

definition serve_flags :: "(string \<times> flag_kind) list" where
  "serve_flags = [(''cadir'', StringFlag), (''listen'', StringFlag), (''hostname'', StringFlag),
     (''ca-name'', StringFlag), (''init'', BoolFlag), (''autosign'', BoolFlag),
     (''autosign-policy-executable'', StringFlag), (''autosign-policy-timeout'', DurationFlag),
     (''ttl'', DurationFlag), (''allow-dns-alt-names'', BoolFlag)]"

definition server_split_comma :: "string \<Rightarrow> string list" where
  "server_split_comma s = filter (\<lambda>p. p \<noteq> []) (map trim_space (str_split (CHR '','') s))"

definition server_default_hostname :: "string res \<Rightarrow> string" where
  "server_default_hostname h = (case h of Inl _ \<Rightarrow> ''localhost'' | Inr s \<Rightarrow> if s = [] then ''localhost'' else s)"

definition parse_serve_config :: "string res \<Rightarrow> string list \<Rightarrow> flag_error + serve_config" where
  "parse_serve_config h args = (case flag_parse serve_flags [] args of
       Inl e \<Rightarrow> Inl e
     | Inr (vals, rest) \<Rightarrow>
         (let hostnames = server_split_comma (string_flag vals ''hostname'' (server_default_hostname h)) in
          if hostnames = [] then Inl (FlagBad ''-hostname must contain at least one non-empty hostname'')
          else Inr \<lparr>sc_listen = string_flag vals ''listen'' '':8140'', sc_init = bool_flag vals ''init'',
                 sc_ca = \<lparr>co_dir = string_flag vals ''cadir'' ''./cadir'', co_name = string_flag vals ''ca-name'' [],
                   co_hostnames = hostnames, co_ttl = duration_flag vals ''ttl'' DefaultCATTL,
                   co_autosign_all = bool_flag vals ''autosign'',
                   co_allow_alt_san = bool_flag vals ''allow-dns-alt-names'',
                   co_policy_exe = string_flag vals ''autosign-policy-executable'' [],
                   co_policy_timeout = duration_flag vals ''autosign-policy-timeout'' 0\<rparr>\<rparr>))"

text \<open>A run ends with an exit status or listens, with a CA and a TLS configuration.\<close>

datatype served = Exited int | Serving string ca_api tls_config

definition listen_and_serve :: "env \<Rightarrow> ca_api \<Rightarrow> bytes os \<Rightarrow> string \<Rightarrow> bytes os \<times> served" where
  "listen_and_serve E a fs addr = (case server_tls_config E a fs of
       (fs', Inl e) \<Rightarrow> (fs', Exited 1) | (fs', Inr cfg) \<Rightarrow> (fs', Serving addr a cfg))"

definition serve_main :: "env \<Rightarrow> string res \<Rightarrow> string list \<Rightarrow> bytes os \<Rightarrow> bytes os \<times> served" where
  "serve_main E h args fs = (case parse_serve_config h args of
       Inl e \<Rightarrow> (fs, Exited 1)
     | Inr cfg \<Rightarrow>
         (case api_open h fs (sc_ca cfg) of
            Inr a \<Rightarrow> listen_and_serve E a fs (sc_listen cfg)
          | Inl e \<Rightarrow>
              if \<not> is_not_exist (Some e) then (fs, Exited 1)
              else if \<not> sc_init cfg then (fs, Exited 1)
              else (case api_init E h fs (sc_ca cfg) of
                  (fs1, Inl e1) \<Rightarrow> (fs1, Exited 1)
                | (fs1, Inr a) \<Rightarrow> listen_and_serve E a fs1 (sc_listen cfg))))"

datatype server_run = AdminRun "string list" int | ServeRun served | VersionRun string

definition server_main :: "env \<Rightarrow> string res \<Rightarrow> string \<Rightarrow> string list \<Rightarrow> bytes os \<Rightarrow> bytes os \<times> server_run" where
  "server_main E h version argv fs = (case argv of
       cmd # args \<Rightarrow>
         if cmd \<in> {''version'', ''--version'', ''-v''} then (fs, VersionRun version)
         else if cmd \<in> {''sign'', ''revoke'', ''list'', ''clean''}
           then (let (fs', out, code) = admin_main E h cmd args fs in (fs', AdminRun out code))
         else (let (fs', r) = serve_main E h argv fs in (fs', ServeRun r))
     | [] \<Rightarrow> (let (fs', r) = serve_main E h argv fs in (fs', ServeRun r)))"

end
