(* ===== verification/MainProps.thy ===== *)
theory MainProps
  imports Cli ServerMain AgentProps HttpProps
begin

text \<open>
  What the two programs guarantee around the libraries: flags, the admin client against the routes of
  the service, the offline operations against the admin API, and starting the service again.
\<close>

section \<open>Restart\<close>

definition persists :: "bytes os \<Rightarrow> bytes os \<Rightarrow> bool" where
  "persists fs fs' \<longleftrightarrow> os_fault fs' = os_fault fs \<and> (\<forall>q. file_at fs q \<noteq> None \<longrightarrow> file_at fs' q \<noteq> None)"

lemma persists_refl: "persists fs fs"
  by (simp add: persists_def)

lemma persists_trans: "persists a b \<Longrightarrow> persists b c \<Longrightarrow> persists a c"
  by (simp add: persists_def)

lemma persists_write: "os_write_file fs p b = (fs', e) \<Longrightarrow> persists fs fs'"
  using os_write_keeps(2) [of fs p b fs' e]
  by (cases e) (auto simp: persists_def dest!: osf.wr_done osf.wr_fail)

lemma persists_mkdir_list: "mkdir_list fs ps = (fs', e) \<Longrightarrow> persists fs fs'"
  by (auto simp: persists_def dest!: mkdir_list_file_at)

lemma persists_write_list: "write_list fs ws = (fs', e) \<Longrightarrow> persists fs fs'"
proof (induction fs ws rule: write_list.induct)
  case (2 fs p b ws)
  then show ?case
    by (auto split: prod.splits option.splits dest: persists_write intro: persists_trans)
qed (simp add: persists_refl)

lemma persists_append: "persists fs (append_inventory c fs crt)"
  by (auto simp: append_inventory_def os_append_file_def intro: persists_write [OF prod.collapse [symmetric]])

lemma persists_next: "next_serial c fs = (fs', r) \<Longrightarrow> persists fs fs'"
  by (auto simp: next_serial_def Let_def persists_refl dest: persists_write split: sum.splits option.splits prod.splits if_splits)

lemma persists_init:
  assumes "castore_init E fs dir name bits opts = (fs', Inr c)"
  shows "persists fs fs'"
  using assms
  by (auto simp: castore_init_def Let_def write_crl_def simp del: mkdir_list.simps write_list.simps intro!: persists_trans [OF _ persists_append]
      dest!: persists_mkdir_list persists_write_list persists_write intro: persists_trans
      split: sum.splits prod.splits option.splits)

lemma persists_tls: "server_tls_cert E c fs names = (fs', r) \<Longrightarrow> persists fs fs'"
  by (auto simp: server_tls_cert_def Let_def persists_refl intro!: persists_trans [OF _ persists_append]
      dest!: persists_next persists_write intro: persists_trans split: if_splits sum.splits prod.splits option.splits)

lemma validate_options_persists:
  assumes "validate_options fs o1 = Inr o2" and "persists fs fs'" and "no_faults fs"
  shows "validate_options fs' o1 = Inr o2"
proof -
  have stat: "os_stat fs' p = Inr False" if "os_stat fs p = Inr False" for p
  proof -
    have "file_at fs p \<noteq> None"
      using that by (auto simp: os_stat_def file_at_def split: option.splits if_splits)
    then have "file_at fs' p \<noteq> None" "os_fault fs' OpStat p = None"
      using assms(2,3) by (auto simp: persists_def no_faults_def)
    then show ?thesis by (auto simp: os_stat_def file_at_def split: option.splits if_splits)
  qed
  from assms(1) show ?thesis
    by (auto simp: validate_options_def dest!: stat split: if_splits sum.splits)
qed

lemma no_faults_persists: "persists fs fs' \<Longrightarrow> no_faults fs \<Longrightarrow> no_faults fs'"
  by (simp add: persists_def no_faults_def)

lemma server_tls_again:
  assumes nf: "no_faults fs" and run: "server_tls_cert E c fs names = (fs', Inr t)"
  shows "server_tls_cert E2 c fs' names = (fs', Inr t)"
proof -
  let ?cp = "ca_path c [''server_crt.pem'']" and ?kp = "ca_path c [''server_key.pem'']"
  consider (old) cb kb where "fs' = fs" "os_read_file fs ?cp = Inr cb" "os_read_file fs ?kp = Inr kb"
    | (new) fs1 fs2 fs3 leaf key where "wf_cert leaf"
      "os_write_file fs1 ?cp (encode_cert leaf) = (fs2, None)" "os_write_file fs2 ?kp (encode_private_key key) = (fs3, None)"
      "fs' = append_inventory c fs3 leaf" "t = \<lparr>tls_chain = [CertDER leaf, CertDER (ca_crt c)], tls_key = key, tls_leaf = leaf\<rparr>"
    using run
    by (auto simp: server_tls_cert_def Let_def dest: wf_leaf split: if_splits sum.splits prod.splits option.splits)
  then show ?thesis
  proof cases
    case old
    with run show ?thesis by (auto simp: server_tls_cert_def Let_def split: if_splits sum.splits)
  next
    case new
    have "names \<noteq> []" using run by (auto simp: server_tls_cert_def)
    have p: "?cp = top_file c ''server_crt.pem''" "?kp = top_file c ''server_key.pem''" by (simp_all add: path_simps)
    have "file_at fs' ?cp = Some (encode_cert leaf)" "file_at fs' ?kp = Some (encode_private_key key)"
      using osf.wr_done [OF new(2)] osf.wr_done [OF new(3)] same_off_at [OF append_inventory_same [of c fs3 leaf]] new(4)
      by (simp_all add: p)
    moreover have "no_faults fs'" using persists_tls [OF run] nf by (rule no_faults_persists)
    ultimately have "os_read_file fs' ?cp = Inr (encode_cert leaf)" "os_read_file fs' ?kp = Inr (encode_private_key key)"
      by (simp_all add: os_read_at)
    with new(1) \<open>names \<noteq> []\<close> new(5) key_pem.dec_enc [of key] show ?thesis
      by (simp add: server_tls_cert_def Let_def decode_encode_cert res_opt_Some)
  qed
qed

text \<open>The files that \<open>Open\<close> reads are not the server's own.\<close>

lemma open_after_tls:
  assumes op: "castore_open fs dir opts = Inr c" and run: "server_tls_cert E c fs names = (fs', r)" and nf: "no_faults fs"
  shows "castore_open fs' dir opts = Inr c"
proof -
  have nf': "no_faults fs'" using persists_tls [OF run] nf by (rule no_faults_persists)
  have off: "file_at fs' (top_file c t) = file_at fs (top_file c t)" if "t \<in> {''ca_crt.pem'', ''ca_key.pem''}" for t
    using run
  proof (cases rule: server_tls_cases)
    case (2 s)
    then show ?thesis using that same_off_at [OF next_serial_same [OF 2]] by auto
  next
    case (3 s fs1 req leaf)
    show ?thesis
      using that same_off_at [OF 3(4), of "top_file c t"] same_off_at [OF next_serial_same [OF 3(1)], of "top_file c t"]
      by auto
  qed simp
  from op obtain o2 crt key where o2: "validate_options fs opts = Inr o2" and c: "c = new_ca dir key crt o2"
    by (auto simp: castore_open_def split: sum.splits)
  have fp: "filepath_join [dir, n] = top_file c n" if "plain_comp n" for n
    using that by (simp add: ca_path_new [of _ _ key crt o2] c [symmetric] ca_path_top)
  have rd: "os_read_file fs' (top_file c t) = Inr b"
    if "t \<in> {''ca_crt.pem'', ''ca_key.pem''}" "os_read_file fs (top_file c t) = Inr b" for t b
    using off [OF that(1)] osf.rd_found [OF that(2)] nf' by (simp add: os_read_at)
  from op validate_options_persists [OF o2 persists_tls [OF run] nf] o2 rd show ?thesis
    by (auto simp: castore_open_def fp split: sum.splits)
qed

lemma open_after_init_same:
  assumes init: "castore_init E fs dir name bits opts = (fs', Inr c)" and nf: "no_faults fs"
  shows "castore_open fs' dir opts = Inr c"
  using init
proof (rule init_done)
  fix o2 key crt crl
  assume o2: "validate_options fs opts = Inr o2" and c: "c = new_ca dir key crt o2"
  from open_after_init [OF init nf validate_options_persists [OF o2 persists_init [OF init] nf]] c
  show ?thesis by (simp add: new_ca_def)
qed

text \<open>C19: Starting the service is stable. When a start, with or without creating the CA, has come as far
  as listening and no file call fails, then starting it again with the same arguments listens on the
  same address with the same CA, key and server certificate, and leaves the directory as it is.\<close>
theorem restart_is_stable:
  assumes "serve_main E h args fs = (fs', Serving addr a tc)" and nf: "no_faults fs"
  shows "serve_main E2 h args fs' = (fs', Serving addr a tc)"
proof -
  obtain cfg fs1 where cfg: "parse_serve_config h args = Inr cfg"
    and run: "listen_and_serve E a fs1 (sc_listen cfg) = (fs', Serving addr a tc)"
    and first: "castore_open fs1 (co_dir (sc_ca cfg)) (store_opts (sc_ca cfg)) = Inr (api_store a)"
      "api_hostnames a = opt_hostnames h (sc_ca cfg)" "co_dir (sc_ca cfg) \<noteq> []" "no_faults fs1"
  proof -
    obtain cfg where cfg: "parse_serve_config h args = Inr cfg"
      using assms(1) by (auto simp: serve_main_def split: sum.splits)
    consider b where "api_open h fs (sc_ca cfg) = Inr b" "listen_and_serve E b fs (sc_listen cfg) = (fs', Serving addr a tc)"
      | fs1 b where "api_init E h fs (sc_ca cfg) = (fs1, Inr b)" "listen_and_serve E b fs1 (sc_listen cfg) = (fs', Serving addr a tc)"
      using assms(1) cfg by (auto simp: serve_main_def split: sum.splits prod.splits if_splits)
    then show thesis
    proof cases
      case 1
      moreover from 1(2) have "b = a" by (auto simp: listen_and_serve_def split: prod.splits sum.splits)
      ultimately show thesis using cfg nf
        by (intro that [of cfg fs]) (auto simp: api_open_def split: if_splits sum.splits)
    next
      case 2
      from 2(2) have "b = a" by (auto simp: listen_and_serve_def split: prod.splits sum.splits)
      with 2(1) obtain name where i: "castore_init E fs (co_dir (sc_ca cfg)) name 0 (store_opts (sc_ca cfg)) = (fs1, Inr (api_store a))"
        "api_hostnames a = opt_hostnames h (sc_ca cfg)" "co_dir (sc_ca cfg) \<noteq> []"
        by (auto simp: api_init_def Let_def split: if_splits prod.splits sum.splits)
      with 2(2) \<open>b = a\<close> cfg open_after_init_same [OF i(1) nf] no_faults_persists [OF persists_init [OF i(1)] nf]
      show thesis by (intro that [of cfg fs1]) auto
    qed
  qed
  from run obtain leaf where leaf: "server_tls_cert E (api_store a) fs1 (api_hostnames a) = (fs', Inr leaf)"
    and out: "addr = sc_listen cfg" "tc = \<lparr>tc_cert = leaf, tc_pool = [ca_crt (api_store a)],
      tc_auth = VerifyClientCertIfGiven, tc_min_version = ''TLS 1.2''\<rparr>"
    by (auto simp: listen_and_serve_def server_tls_config_def split: prod.splits sum.splits)
  have "api_open h fs' (sc_ca cfg) = Inr a"
    using open_after_tls [OF first(1) leaf first(4)] first(2,3) by (simp add: api_open_def)
  moreover have "listen_and_serve E2 a fs' (sc_listen cfg) = (fs', Serving addr a tc)"
    using server_tls_again [OF first(4) leaf] out by (simp add: listen_and_serve_def server_tls_config_def)
  ultimately show ?thesis using cfg by (simp add: serve_main_def)
qed

lemma ex_no_faults: "no_faults (w_fs ex_world)"
  by (simp add: ex_world_def no_faults_def)

definition ex_serve_args :: "string list" where
  "ex_serve_args = [''--cadir=/srv'', ''-init'', ''-hostname'', ''ca.test,puppet'', ''-autosign'']"

definition ex_served :: "bytes os \<times> served" where
  "ex_served = serve_main ex_env (Inr ''box'') ex_serve_args (w_fs ex_world)"

lemma ex_serving: "case snd ex_served of Exited _ \<Rightarrow> False | Serving addr a tc \<Rightarrow> addr = '':8140''"
  by code_simp

theorem restart_is_stable_witness:
  "serve_main (ex_env\<lparr>env_now := 1800000000000000000\<rparr>) (Inr ''box'') ex_serve_args (fst ex_served) = ex_served"
proof -
  obtain addr a tc where s: "snd ex_served = Serving addr a tc"
    using ex_serving by (auto split: served.splits)
  then have "serve_main ex_env (Inr ''box'') ex_serve_args (w_fs ex_world) = (fst ex_served, Serving addr a tc)"
    by (metis ex_served_def prod.collapse)
  from restart_is_stable [OF this] s show ?thesis
    by (metis ex_no_faults prod.collapse)
qed

section \<open>Offline operations and the admin API\<close>

definition signed_state :: desired_state where
  "signed_state = \<lparr>DesiredState = StateSigned, DNSAltNames = [], CertTTL = []\<rparr>"

definition revoked_state :: desired_state where
  "revoked_state = \<lparr>DesiredState = StateRevoked, DNSAltNames = [], CertTTL = []\<rparr>"

lemma default_desired_opts: "desired_opts signed_state = Inr default_sign_opts"
  by (simp add: desired_opts_def signed_state_def default_sign_opts_def)

text \<open>Two CAs loaded from one cadir differ in their options only, and only signing looks at those.\<close>

lemma opened_alike:
  assumes c: "castore_open fs dir o1 = Inr c" and d: "castore_open fs0 dir o2 = Inr d"
    and same: "\<forall>t \<in> {''ca_crt.pem'', ''ca_key.pem''}. file_at fs0 (filepath_join [dir, t]) = file_at fs (filepath_join [dir, t])"
  shows "same_ca c d" and "op_ttl o1 = op_ttl o2 \<Longrightarrow> ca_ttl d = ca_ttl c"
    and "op_allow_alt_san o1 = op_allow_alt_san o2 \<Longrightarrow> ca_allow_alt_san d = ca_allow_alt_san c"
proof -
  have shape: "\<exists>b1 b2 crt key o2. file_at fs' (filepath_join [dir, ''ca_crt.pem'']) = Some b1 \<and>
      file_at fs' (filepath_join [dir, ''ca_key.pem'']) = Some b2 \<and> decode_cert b1 = Inr crt \<and>
      decode_private_key b2 = Inr key \<and> x = new_ca dir key crt o2 \<and> op_ttl o2 = op_ttl ops \<and>
      op_allow_alt_san o2 = op_allow_alt_san ops"
    if "castore_open fs' dir ops = Inr x" for fs' ops x
  proof -
    obtain o2 b1 b2 crt key where "validate_options fs' ops = Inr o2"
      "os_read_file fs' (filepath_join [dir, ''ca_crt.pem'']) = Inr b1"
      "os_read_file fs' (filepath_join [dir, ''ca_key.pem'']) = Inr b2"
      "decode_cert b1 = Inr crt" "decode_private_key b2 = Inr key" "x = new_ca dir key crt o2"
      using \<open>castore_open fs' dir ops = Inr x\<close> by (auto simp: castore_open_def split: sum.splits)
    moreover from this(1) have "op_ttl o2 = op_ttl ops" "op_allow_alt_san o2 = op_allow_alt_san ops"
      by (auto simp: validate_options_def split: if_splits sum.splits)
    ultimately show ?thesis by (blast dest: osf.rd_found)
  qed
  from shape [OF c] shape [OF d] same show "same_ca c d" "op_ttl o1 = op_ttl o2 \<Longrightarrow> ca_ttl d = ca_ttl c"
    "op_allow_alt_san o1 = op_allow_alt_san o2 \<Longrightarrow> ca_allow_alt_san d = ca_allow_alt_san c"
    by (auto simp: same_ca_def new_ca_def)
qed

lemma same_ca_store:
  assumes "same_ca c d"
  shows "ca_revoke E d fs n = ca_revoke E c fs n" and "ca_clean d fs n = ca_clean c fs n"
    and "ca_ttl d = ca_ttl c \<Longrightarrow> ca_allow_alt_san d = ca_allow_alt_san c \<Longrightarrow> ca_sign E d fs n opts = ca_sign E c fs n opts"
proof -
  have p: "ca_path d = ca_path c" "ca_crt d = ca_crt c" "ca_key d = ca_key c"
    "signed_path d = signed_path c" "request_path d = request_path c"
    using assms by (simp_all add: fun_eq_iff ca_path_def signed_path_def request_path_def same_ca_def)
  have crl: "read_revoked d = read_revoked c" "write_crl E d = write_crl E c"
    unfolding fun_eq_iff read_revoked_def write_crl_def p by simp_all
  have sign: "next_serial d = next_serial c" "append_inventory d = append_inventory c"
    unfolding fun_eq_iff next_serial_def append_inventory_def p by simp_all
  show "ca_revoke E d fs n = ca_revoke E c fs n" unfolding ca_revoke_def p crl by (rule refl)
  show "ca_clean d fs n = ca_clean c fs n" unfolding ca_clean_def p by (rule refl)
  show "ca_sign E d fs n opts = ca_sign E c fs n opts"
    if "ca_ttl d = ca_ttl c" "ca_allow_alt_san d = ca_allow_alt_san c"
    unfolding ca_sign_def sign_locked_def sign_leaf_def that p sign by (rule refl)
qed

text \<open>C21: The offline operations agree with the admin API of the service. The service was started on a
  cadir with options of its own, perhaps earlier, and the CA's certificate and key are as they were;
  an operator runs the server program with the same cadir and a name. Then \<open>revoke\<close> and \<open>clean\<close> do to the
  directory exactly what the service does for a verified client's PUT of revoked and DELETE of
  that name, whatever options the service has, and exit with status 0 exactly when it answers 204.
  For \<open>sign\<close> and PUT of signed the same holds when the service runs without
  \<open>-allow-dns-alt-names\<close>, which the offline command does not know, and with the lifetime the operator gives.\<close>
theorem offline_admin_is_the_api:
  assumes args: "flag_parse admin_flags [] args = Inr (vals, name # rest)" "name \<noteq> []"
    and offline: "api_open h fs (admin_options vals) = Inr off"
    and service: "parse_serve_config h2 sargs = Inr cfg" "api_open h2 fs0 (sc_ca cfg) = Inr a"
    and dir: "co_dir (sc_ca cfg) = co_dir (admin_options vals)"
    and files: "\<forall>t \<in> {''ca_crt.pem'', ''ca_key.pem''}.
      file_at fs0 (filepath_join [co_dir (sc_ca cfg), t]) = file_at fs (filepath_join [co_dir (sc_ca cfg), t])"
    and tls: "rq_tls rq1 = Some (Suc k)" "rq_tls rq2 = Some (Suc k)" "rq_tls rq3 = Some (Suc k)"
    and routes: "mux_match (rq_method rq1) (rq_path rq1) = Matched (PutStatus name)"
      "mux_match (rq_method rq2) (rq_path rq2) = Matched (PutStatus name)"
      "mux_match (rq_method rq3) (rq_path rq3) = Matched (DelStatus name)"
    and json: "rq_json rq1 = Inr signed_state" "\<not> rq_trailing rq1" "rq_json rq2 = Inr revoked_state" "\<not> rq_trailing rq2"
  shows "let same = (\<lambda>action rq. case (admin_main E h action args fs, handle E run others a rq fs) of
        ((fs1, out, code), (fs2, ans)) \<Rightarrow> fs1 = fs2 \<and> (code = 0 \<longleftrightarrow> (\<exists>resp. ans = Respond resp \<and> rs_status resp = 204)))
    in same ''revoke'' rq2 \<and> same ''clean'' rq3 \<and>
       (\<not> co_allow_alt_san (sc_ca cfg) \<and> co_ttl (sc_ca cfg) = co_ttl (admin_options vals) \<longrightarrow> same ''sign'' rq1)"
proof -
  let ?c = "api_store off" and ?d = "api_store a" and ?o = "sc_ca cfg" and ?p = "admin_options vals"
  have open_off: "castore_open fs (co_dir ?p) (store_opts ?p) = Inr ?c"
    using offline by (auto simp: api_open_def split: if_splits sum.splits)
  have open_srv: "castore_open fs0 (co_dir ?p) (store_opts ?o) = Inr ?d"
    using service(2) dir by (auto simp: api_open_def split: if_splits sum.splits)
  note alike = opened_alike [OF open_off open_srv files [unfolded dir]]
  note store = same_ca_store [OF alike(1)]
  have sign: "ca_sign E ?d fs name op = ca_sign E ?c fs name op"
    if "\<not> co_allow_alt_san ?o" "co_ttl ?o = co_ttl ?p" for op
    using that by (intro store(3) alike(2,3)) (simp_all add: store_opts_def admin_options_def)
  have err: "rs_status (error_response code e) \<noteq> 204" if "code \<noteq> 204" for code e
    using that by (simp add: error_response_def http_error_def)
  have ok: "rs_status (header_only 204) = 204" by (simp add: header_only_def)
  have main: "admin_main E h action args fs = (case admin_action E off action name fs of
       (fs', Some e) \<Rightarrow> (fs', [], 1) | (fs', None) \<Rightarrow> (fs', [name @ '': '' @ action @ ''d''], 0))"
    if "action \<noteq> ''list''" for action
    using that args offline by (simp add: admin_main_def split: prod.split option.split)
  have st: "StateRevoked \<noteq> StateSigned" by (simp add: StateRevoked_def StateSigned_def)
  obtain s1 e1 where s1: "ca_sign E ?d fs name default_sign_opts = (s1, e1)" by fastforce
  obtain s2 e2 where s2: "ca_revoke E ?d fs name = (s2, e2)" by fastforce
  obtain s3 e3 where s3: "ca_clean ?d s2 name = (s3, e3)" by fastforce
  have "handle E run others a rq1 fs =
      (s1, Respond (case e1 of None \<Rightarrow> header_only 204 | Some e \<Rightarrow> error_response 409 e))"
    using tls(1) json(1,2) s1 default_desired_opts routes(1)
    by (simp add: handle_def serve_route_def admin_gate_def h_put_status_def Let_def signed_state_def split: option.splits)
  moreover have "handle E run others a rq2 fs =
      (s2, Respond (case e2 of None \<Rightarrow> header_only 204 | Some e \<Rightarrow> error_response 409 e))"
    using tls(2) json(3,4) s2 st routes(2)
    by (simp add: handle_def serve_route_def admin_gate_def h_put_status_def Let_def revoked_state_def split: option.splits)
  moreover have "handle E run others a rq3 fs =
      (s3, Respond (case e3 of None \<Rightarrow> header_only 204 | Some e \<Rightarrow> error_response 500 e))"
    using tls(3) s2 s3 routes(3)
    by (simp add: handle_def serve_route_def admin_gate_def h_del_status_def Let_def split: option.splits)
  moreover have "ca_sign E ?c fs name default_sign_opts = (s1, e1)"
    if "\<not> co_allow_alt_san ?o" "co_ttl ?o = co_ttl ?p"
    using s1 sign [OF that] by simp
  moreover have "ca_revoke E ?c fs name = (s2, e2)" "ca_clean ?c s2 name = (s3, e3)"
    using s2 s3 store(1,2) by simp_all
  ultimately show ?thesis
    using err ok by (cases e1; cases e2; cases e3) (simp_all add: main admin_action_def Let_def)
qed

theorem offline_admin_is_the_api_witness:
  "\<exists>cfg a. parse_serve_config (Inr ''box'') [''--cadir=/ca'', ''-allow-dns-alt-names''] = Inr cfg \<and>
    api_open (Inr ''box'') ex_fs (sc_ca cfg) = Inr a \<and> co_allow_alt_san (sc_ca cfg) \<and>
    fst (admin_main ex_env (Inr ''box'') ''revoke'' [''--cadir=/ca'', ''node1''] ex_signed) =
      fst (handle ex_env ex_approve id a (ex_put\<lparr>rq_path := ''/puppet-ca/v1/certificate_status/node1'',
        rq_tls := Some 1, rq_json := Inr revoked_state\<rparr>) ex_signed)"
proof -
  let ?h = "Inr ''box'' :: string res" and ?vals = "[(''cadir'', ''/ca'')]"
  let ?sargs = "[''--cadir=/ca'', ''-allow-dns-alt-names'']"
  let ?put = "\<lambda>d. ex_put\<lparr>rq_path := ''/puppet-ca/v1/certificate_status/node1'', rq_tls := Some 1, rq_json := Inr d\<rparr>"
  let ?del = "\<lparr>rq_method = ''DELETE'', rq_path = ''/puppet-ca/v1/certificate_status/node1'', rq_remote = [],
     rq_tls = Some 1, rq_body = [], rq_size = 0, rq_json = Inl ENotFound, rq_trailing = False\<rparr>"
  have parse: "flag_parse admin_flags [] [''--cadir=/ca'', ''node1''] = Inr (?vals, ''node1'' # [])"
    by code_simp
  have "is_ok (api_open ?h ex_signed (admin_options ?vals))" by code_simp
  then obtain off where off: "api_open ?h ex_signed (admin_options ?vals) = Inr off" by (auto simp: is_ok_iff)
  have "case parse_serve_config ?h ?sargs of Inl _ \<Rightarrow> False
      | Inr cfg \<Rightarrow> co_dir (sc_ca cfg) = ''/ca'' \<and> co_allow_alt_san (sc_ca cfg) \<and> is_ok (api_open ?h ex_fs (sc_ca cfg))"
    by code_simp
  then obtain cfg a where cfg: "parse_serve_config ?h ?sargs = Inr cfg" "api_open ?h ex_fs (sc_ca cfg) = Inr a"
    "co_dir (sc_ca cfg) = ''/ca''" "co_allow_alt_san (sc_ca cfg)"
    by (auto simp: is_ok_iff split: sum.splits)
  have dir: "co_dir (sc_ca cfg) = co_dir (admin_options ?vals)" using cfg(3) by (simp add: admin_options_def string_flag_def)
  have files: "\<forall>t \<in> {''ca_crt.pem'', ''ca_key.pem''}.
      file_at ex_fs (filepath_join [co_dir (sc_ca cfg), t]) = file_at ex_signed (filepath_join [co_dir (sc_ca cfg), t])"
    unfolding cfg(3) by code_simp
  have m: "mux_match ''PUT'' ''/puppet-ca/v1/certificate_status/node1'' = Matched (PutStatus ''node1'')"
    "mux_match ''DELETE'' ''/puppet-ca/v1/certificate_status/node1'' = Matched (DelStatus ''node1'')" by code_simp+
  have rq: "rq_tls (?put d) = Some (Suc 0)" "rq_json (?put d) = Inr d" "\<not> rq_trailing (?put d)"
    "mux_match (rq_method (?put d)) (rq_path (?put d)) = Matched (PutStatus ''node1'')" for d
    using m(1) by (simp_all add: ex_put_def)
  have del: "rq_tls ?del = Some (Suc 0)" "mux_match (rq_method ?del) (rq_path ?del) = Matched (DelStatus ''node1'')"
    using m(2) by simp_all
  from offline_admin_is_the_api [OF parse _ off cfg(1,2) dir files rq(1) rq(1) del(1) rq(4) rq(4) del(2)
      rq(2) rq(3) rq(2) rq(3), of ex_env ex_approve id]
  show ?thesis using cfg by (auto simp: Let_def split: prod.splits)
qed

section \<open>Server flags\<close>

text \<open>The forms of a flag agree. For a declared flag whose name has no equals sign and does not start
  with a dash, \<open>-name=value\<close>, \<open>--name=value\<close>, and, unless the flag is boolean, \<open>-name value\<close> and \<open>--name value\<close>
  parse alike whatever follows; a boolean flag alone means true and takes no argument.\<close>
lemma flag_forms_agree:
  assumes "map_of decls n = Some k" and "n \<noteq> []" and "CHR ''='' \<notin> set n" and "hd n \<noteq> CHR ''-''"
  shows "flag_parse decls vals ((''--'' @ n @ ''='' @ v) # args) = flag_parse decls vals ((''-'' @ n @ ''='' @ v) # args) \<and>
    (k \<noteq> BoolFlag \<longrightarrow> flag_parse decls vals ((''-'' @ n) # v # args) = flag_parse decls vals ((''-'' @ n @ ''='' @ v) # args) \<and>
       flag_parse decls vals ((''--'' @ n) # v # args) = flag_parse decls vals ((''-'' @ n @ ''='' @ v) # args)) \<and>
    (k = BoolFlag \<longrightarrow> flag_parse decls vals ((''-'' @ n) # args) = flag_parse decls vals ((''-'' @ n @ ''=true'') # args))"
proof -
  obtain ch r where n: "n = ch # r" using assms(2) by (cases n) auto
  have cut: "str_cut (CHR ''='') (w @ CHR ''='' # v) = Some (w, v)" "str_cut (CHR ''='') w = None"
    if "CHR ''='' \<notin> set w" for w v
    using that by (induction w) auto
  have sf: "split_flag (n @ CHR ''='' # u) = (n, Some u)" "split_flag n = (n, None)" for u
    using assms(3) cut [of r] by (simp_all add: split_flag_def n)
  have "ch \<noteq> CHR ''-''" "ch \<noteq> CHR ''=''" using assms(3,4) by (auto simp: n)
  with assms(1) sf show ?thesis by (auto simp: flag_name_def n Let_def)
qed

lemma flag_forms_agree_example:
  "flag_parse serve_flags [] [''--listen'', ''[::1]:8140'', ''-init''] =
     flag_parse serve_flags [] [''-listen=[::1]:8140'', ''-init''] \<and>
   flag_parse serve_flags [] [''-init''] = flag_parse serve_flags [] [''-init=true'']"
proof -
  have "map_of serve_flags ''listen'' = Some StringFlag" "map_of serve_flags ''init'' = Some BoolFlag"
    by (simp_all add: serve_flags_def)
  with flag_forms_agree [of serve_flags "''listen''" StringFlag "[]" "''[::1]:8140''" "[''-init'']"]
    flag_forms_agree [of serve_flags "''init''" BoolFlag "[]" "[]" "[]"]
  show ?thesis by simp
qed

section \<open>The admin client and the routes\<close>

lemma str_split_none: "c \<notin> set s \<Longrightarrow> str_split c s = [s]"
  by (induction s) auto

lemma path_plain_not: "\<not> path_plain (CHR ''/'')" "\<not> path_plain (CHR ''%'')"
  by (simp_all add: path_plain_def less_eq_char_def)

lemma unescape_escape: "path_unescape (path_escape s) = Some s"
proof (induction s)
  case Nil
  then show ?case by (simp add: path_escape_def)
next
  case (Cons c cs)
  have d: "(of_char c :: nat) div 16 < 16" "(of_char c :: nat) mod 16 < 16"
    by (simp_all add: less_mult_imp_div_less)
  have c: "char_of (16 * (of_char c div 16) + of_char c mod 16 :: nat) = c" by simp
  have step: "path_escape (c # cs) = (if path_plain c then [c]
     else [CHR ''%'', digit_char (of_char c div 16), digit_char (of_char c mod 16)]) @ path_escape cs"
    by (simp add: path_escape_def)
  have "c = CHR ''%'' \<Longrightarrow> \<not> path_plain c" by (simp add: path_plain_not)
  then show ?case using Cons d c by (auto simp: step digit_val_char)
qed

lemma escape_no_slash: "CHR ''/'' \<notin> set (path_escape s)"
proof -
  have "digit_char d \<noteq> CHR ''/''" if "d < 16" for d
    using digit_val_char [OF that] by (auto simp: digit_val_def less_eq_char_def)
  moreover have "(of_char c :: nat) div 16 < 16" "(of_char c :: nat) mod 16 < 16" for c
    by (simp_all add: less_mult_imp_div_less)
  ultimately have digits: "CHR ''/'' \<noteq> digit_char (of_char c div 16)" "CHR ''/'' \<noteq> digit_char (of_char c mod 16)" for c
    by metis+
  have "CHR ''/'' \<notin> set (if path_plain c then [c]
      else [CHR ''%'', digit_char (of_char c div 16), digit_char (of_char c mod 16)])" for c
    using path_plain_not(1) digits [of c] by (cases "c = CHR ''/''") auto
  then show ?thesis unfolding path_escape_def set_concat set_map by blast
qed

lemma escape_dots: "path_escape s = ''.'' \<longleftrightarrow> s = ''.''" "path_escape s = ''..'' \<longleftrightarrow> s = ''..''" "path_escape s = [] \<longleftrightarrow> s = []"
proof -
  have e: "path_escape ''.'' = ''.''" "path_escape ''..'' = ''..''" "path_escape [] = []" by code_simp+
  show "path_escape s = ''.'' \<longleftrightarrow> s = ''.''" "path_escape s = ''..'' \<longleftrightarrow> s = ''..''" "path_escape s = [] \<longleftrightarrow> s = []"
    using e unescape_escape by (metis option.inject)+
qed

text \<open>The path of a status request matches the status route for the name that was escaped.\<close>

lemma mux_match_status:
  "mux_match ''PUT'' (Base @ ''/certificate_status/'' @ path_escape name) =
     (if name = [] then NoRoute else if name = ''.'' \<or> name = ''..'' then Unclean else Matched (PutStatus name))"
proof -
  let ?e = "path_escape name"
  have split: "str_split (CHR ''/'') ?e = [?e]"
    by (rule str_split_none) (rule escape_no_slash)
  have "Base @ ''/certificate_status/'' @ ?e = ''/puppet-ca/v1/certificate_status'' @ CHR ''/'' # ?e"
    by (simp add: Base_def)
  then have "str_split (CHR ''/'') (Base @ ''/certificate_status/'' @ ?e) =
      ['''', ''puppet-ca'', ''v1'', ''certificate_status''] @ [?e]"
    by (simp only: str_split_append split) (simp add: Base_def)
  then have "path_segments (Base @ ''/certificate_status/'' @ ?e) =
      (if name = ''.'' \<or> name = ''..'' then None else Some [''puppet-ca'', ''v1'', ''certificate_status'', ?e])"
    by (simp add: path_segments_def escape_dots)
  moreover have "segment ?e = name" by (simp add: segment_def unescape_escape)
  moreover have "segment ''puppet-ca'' = ''puppet-ca''" "segment ''v1'' = ''v1''"
    "segment ''certificate_status'' = ''certificate_status''" by code_simp+
  ultimately show ?thesis
    by (simp add: mux_match_def unescape_escape base_segments_def resource_routes_def escape_dots Let_def)
qed

lemma mux_match_statuses: "mux_match ''GET'' (Base @ ''/certificate_statuses/all'') = Matched (GetStatuses ''all'')"
  by code_simp

lemma cli_do_call:
  assumes "cli_do P S q w = (w1, body, code, err)"
  shows "w_calls w1 = w_calls w @ [q] \<and>
    (err = None \<longrightarrow> rp_head (su_net S (w_now w) (length (w_calls w)) q) = Inr code)"
  using assms
  by (auto simp: cli_do_def http_exchange_def background_def ctx_err_def Let_def split: prod.splits sum.splits if_splits)

text \<open>The request of the admin client: over TLS verified against the identity's CA and under the
  server's host name, with the identity's certificate.\<close>

definition admin_call :: "common \<Rightarrow> identity \<Rightarrow> string \<Rightarrow> string \<Rightarrow> bytes \<Rightarrow> http_call" where
  "admin_call c i meth p body = \<lparr>hq_method = meth, hq_url = ''https://'' @ cm_server c @ p, hq_roots = Some (id_pool i),
     hq_server_name = cm_host c, hq_cert = Some (id_cert i), hq_body = body\<rparr>"

lemma admin_call_sel [simp]:
  "hq_method (admin_call c i meth p body) = meth" "hq_url (admin_call c i meth p body) = ''https://'' @ cm_server c @ p"
  by (simp_all add: admin_call_def)

lemma ca_list_call:
  assumes "ca_list P S (mtls_client i (cm_host c)) (''https://'' @ cm_server c @ Base) w = (w', out, err)"
  defines "q \<equiv> admin_call c i ''GET'' (Base @ ''/certificate_statuses/all'') []"
  shows "w_calls w' = w_calls w @ [q] \<and>
    (err = None \<longrightarrow> rp_head (su_net S (w_now w) (length (w_calls w)) q) = Inr 200)"
proof -
  obtain w1 body code e where d: "cli_do P S q w = (w1, body, code, e)" by (metis prod_cases4)
  have "cli_get P S (mtls_client i (cm_host c)) ((''https://'' @ cm_server c @ Base) @ ''/certificate_statuses/all'') w =
      (w1, body, code, e)"
    using d by (simp add: cli_get_def q_def admin_call_def mtls_client_def client_of_def client_tls_config_def current_def)
  with assms(1) cli_do_call [OF d] show ?thesis
    by (auto simp: ca_list_def split: option.splits if_splits sum.splits)
qed

lemma ca_put_state_call:
  assumes "ca_put_state P S (mtls_client i (cm_host c)) (''https://'' @ cm_server c @ Base) verb name w = (w', out, err)"
  defines "q \<equiv> admin_call c i ''PUT'' (Base @ ''/certificate_status/'' @ path_escape name)
      (desired_payload (if verb = ''revoke'' then StateRevoked else StateSigned))"
  shows "w_calls w' = w_calls w @ [q] \<and>
    (err = None \<longrightarrow> rp_head (su_net S (w_now w) (length (w_calls w)) q) \<in> {Inr 200, Inr 204})"
proof -
  obtain w1 body code e where d: "cli_do P S q w = (w1, body, code, e)" by (metis prod_cases4)
  have "cli_put P S (mtls_client i (cm_host c)) ((''https://'' @ cm_server c @ Base) @ ''/certificate_status/'' @ path_escape name)
      (desired_payload (if verb = ''revoke'' then StateRevoked else StateSigned)) w = (w1, body, code, e)"
    using d by (simp add: cli_put_def q_def admin_call_def mtls_client_def client_of_def client_tls_config_def current_def)
  with assms(1) cli_do_call [OF d] show ?thesis
    by (auto simp: ca_put_state_def Let_def split: option.splits if_splits)
qed

section \<open>The commands\<close>

definition ex_cli :: cli_params where
  "ex_cli = \<lparr>ci_json = (\<lambda>_. Inr []), ci_cut = id, ci_version = ''dev''\<rparr>"

definition ex_cli_args :: "string list" where
  "ex_cli_args = [''--server'', ''ca.test'', ''--ssldir=/agent'', ''--certname=node1'']"

text \<open>C28: The admin client asks for what its command line says. With a loadable identity, \<open>ca list\<close>,
  \<open>ca sign\<close> and \<open>ca revoke\<close> send exactly one request: to the server of the command line, whose text
  stands in the URL as it was resolved, verified against the identity's CA under the server's host name,
  presenting the identity's certificate. In the service's own routes its method and path select the listing
  of all statuses, or the status update of exactly the name given, whatever characters it has (a name of one
  or two dots is redirected, an empty one is not found), and its body asks for the state of the verb. The
  command succeeds only when the server answered 200, or 204 for an update.\<close>
theorem admin_client_reaches_its_route:
  assumes run: "cmd_ca P S args w = (w', out, err)"
    and args: "parse_common args = (opts, verb # names)"
    and c: "resolve_common (w_fs w) (su_hostname S) opts = Inr c"
    and i: "load_identity S c w = Inr i"
    and v: "verb = ''list'' \<or> verb \<in> {''sign'', ''revoke''} \<and> names = name # others"
  shows "\<exists>p. let
         q = (if verb = ''list'' then admin_call c i ''GET'' p []
              else admin_call c i ''PUT'' p (desired_payload (if verb = ''sign'' then ''signed'' else ''revoked'')))
       in w_calls w' = w_calls w @ [q] \<and>
         mux_match (hq_method q) p =
           (if verb = ''list'' then Matched (GetStatuses ''all'')
            else if name = [] then NoRoute
            else if name = ''.'' \<or> name = ''..'' then Unclean
            else Matched (PutStatus name)) \<and>
         (err = None \<longrightarrow> rp_head (su_net S (w_now w) (length (w_calls w)) q)
           \<in> (if verb = ''list'' then {Inr 200} else {Inr 200, Inr 204}))"
proof (cases "verb = ''list''")
  case True
  with run args c i
  have "ca_list P S (mtls_client i (cm_host c)) (''https://'' @ cm_server c @ Base) w = (w', out, err)"
    by (simp add: cmd_ca_def Let_def)
  from ca_list_call [OF this] True show ?thesis
    by (intro exI [of _ "Base @ ''/certificate_statuses/all''"])
      (simp only: Let_def if_True simp_thms admin_call_sel mux_match_statuses singleton_iff, blast)
next
  case False
  with v have v: "verb = ''sign'' \<or> verb = ''revoke''" and n: "names = name # others" by auto
  have run: "ca_put_state P S (mtls_client i (cm_host c)) (''https://'' @ cm_server c @ Base) verb name w = (w', out, err)"
    using run False v by (simp only: cmd_ca_def args c i n Let_def prod.case list.case sum.case if_False if_True)
  have st: "(if verb = ''revoke'' then StateRevoked else StateSigned) = (if verb = ''sign'' then ''signed'' else ''revoked'')"
    using v by (auto simp: StateSigned_def StateRevoked_def)
  from ca_put_state_call [OF run] False show ?thesis
    by (intro exI [of _ "Base @ ''/certificate_status/'' @ path_escape name"])
      (simp only: Let_def if_False simp_thms admin_call_sel mux_match_status st, blast)
qed

theorem admin_client_reaches_its_route_witness:
  "\<exists>p. map hq_url (drop 6 (w_calls (fst (cmd_ca ex_cli ex_surr (''sign'' # ''no/de 2'' # ex_cli_args) (fst ex_enrolled))))) =
      [''https://ca.test:8140'' @ p] \<and> mux_match ''PUT'' p = Matched (PutStatus ''no/de 2'')"
proof -
  have c: "resolve_common (w_fs (fst ex_enrolled)) (su_hostname ex_surr)
      [(''server'', ''ca.test''), (''ssldir'', ''/agent''), (''certname'', ''node1'')] =
      Inr \<lparr>cm_server = ''ca.test:8140'', cm_host = ''ca.test'', cm_certname = ''node1'', cm_dir = ''/agent''\<rparr>"
    (is "_ = Inr ?c")
    by code_simp
  have args: "parse_common (''sign'' # ''no/de 2'' # ex_cli_args) =
      ([(''server'', ''ca.test''), (''ssldir'', ''/agent''), (''certname'', ''node1'')], [''sign'', ''no/de 2''])"
    by code_simp
  have load: "load_identity ex_surr ?c (fst ex_enrolled) = Inr ex_id" by code_simp
  have six: "length (w_calls (fst ex_enrolled)) = 6" using ex_enroll_rest by simp
  obtain w' out err where r: "cmd_ca ex_cli ex_surr (''sign'' # ''no/de 2'' # ex_cli_args) (fst ex_enrolled) = (w', out, err)"
    by (metis prod.collapse)
  obtain p where p: "w_calls w' = w_calls (fst ex_enrolled) @ [admin_call ?c ex_id ''PUT'' p (desired_payload ''signed'')]"
      "mux_match ''PUT'' p = Matched (PutStatus ''no/de 2'')"
    using admin_client_reaches_its_route [OF r args c load, of "''no/de 2''" "[]"]
    by (simp add: Let_def) blast
  then have "map hq_url (drop 6 (w_calls w')) = [''https://ca.test:8140'' @ p]"
    by (simp add: six)
  with p(2) r show ?thesis by auto
qed

text \<open>C24: The commands that only use an identity never enroll: \<open>mtls\<close> and \<open>ca\<close> leave the files as they are
  and make at most one request, and only with an identity loaded from the directory, whose certificate
  they present, to a server verified against its CA.\<close>
theorem commands_never_enroll:
  assumes "cmd_mtls P S args w = (w', out, err) \<or> cmd_ca P S args w = (w', out, err)"
  shows "w_fs w' = w_fs w \<and> (w_calls w' = w_calls w \<or>
    (\<exists>q c i. w_calls w' = w_calls w @ [q] \<and>
       resolve_common (w_fs w) (su_hostname S) (fst (parse_common args)) = Inr c \<and>
       agent_load (su_env S) (su_hostname S) (cm_dir c) (cm_certname c) (w_now w) (w_fs w) = Inr i \<and>
       hq_roots q = Some (id_pool i) \<and> hq_cert q = Some (id_cert i)))"
proof -
  have get: "w_fs w1 = w_fs w \<and> (w_calls w1 = w_calls w \<or>
      (\<exists>q. w_calls w1 = w_calls w @ [q] \<and> hq_roots q = cl_roots cl \<and> hq_cert q = cl_cert cl))"
    if "cli_get P S cl u w = (w1, r) \<or> cli_put P S cl u b w = (w1, r)" for cl u b w1 r
  proof -
    from that obtain q x where "http_exchange (background S) q w = (w1, x)" "hq_roots q = cl_roots cl" "hq_cert q = cl_cert cl"
      by (auto simp: cli_get_def cli_put_def cli_do_def split: prod.splits sum.splits)
    with http_exchange_effect [OF this(1)] show ?thesis by auto
  qed
  have cl: "cl_roots (client_of i (client_tls_config i h)) = Some (id_pool i)" "cl_cert (client_of i (client_tls_config i h)) = Some (id_cert i)"
    for i h by (simp_all add: client_of_def client_tls_config_def current_def)
  from assms show ?thesis
  proof
    assume "cmd_mtls P S args w = (w', out, err)"
    then show ?thesis
      by (auto simp: cmd_mtls_def Let_def load_identity_def identity_http_client_def cl dest!: get [OF disjI1]
          split: sum.splits prod.splits option.splits if_splits)
  next
    assume "cmd_ca P S args w = (w', out, err)"
    then show ?thesis
      by (auto simp: cmd_ca_def ca_list_def ca_put_state_def mtls_client_def Let_def load_identity_def cl
          dest!: get [OF disjI1] get [OF disjI2]
          split: sum.splits prod.splits option.splits if_splits list.splits)
  qed
qed

theorem commands_never_enroll_witness:
  "w_fs (fst (cmd_ca ex_cli ex_surr (''list'' # ex_cli_args) (fst ex_enrolled))) = w_fs (fst ex_enrolled)"
proof -
  obtain w' out err where r: "cmd_ca ex_cli ex_surr (''list'' # ex_cli_args) (fst ex_enrolled) = (w', out, err)"
    by (metis prod.collapse)
  from commands_never_enroll [OF disjI2 [OF r]] r show ?thesis by simp
qed

section \<open>Extension requests of the command line\<close>

abbreviation distinct_keys :: "(string \<times> string) list \<Rightarrow> bool" where
  "distinct_keys m \<equiv> distinct (map fst m)"

lemma put_ext_keys: "distinct_keys m \<Longrightarrow> distinct_keys (put_ext kv m)"
  by (auto simp: put_ext_def distinct_update split: option.splits)

lemma parse_ext_keys: "distinct_keys m \<Longrightarrow> distinct_keys (parse_ext_loop m args)"
  by (induction m args rule: parse_ext_loop.induct) (auto simp: put_ext_keys split: list.splits)

lemma attr_line_keys: "distinct_keys (at_ext st) \<Longrightarrow> distinct_keys (at_ext (attr_line st l))"
  by (auto simp: attr_line_def attr_put_def Let_def distinct_update split: attr_section.splits option.splits)

lemma attr_lines_keys: "distinct_keys (at_ext st) \<Longrightarrow> distinct_keys (at_ext (foldl attr_line st ls))"
  by (induction ls arbitrary: st) (simp_all add: attr_line_keys)

lemma csr_attributes_keys: "parse_csr_attributes fs p = Inr (e, c) \<Longrightarrow> distinct_keys e"
  using attr_lines_keys [of "\<lparr>at_ext = [], at_custom = [], at_cur = NoSection\<rparr>"]
  by (auto simp: parse_csr_attributes_def Let_def split: sum.splits)

lemma maps_copy_get: "distinct_keys src \<Longrightarrow> map_of (maps_copy dst src) = map_of dst ++ map_of src"
proof (induction src arbitrary: dst)
  case Nil
  then show ?case by (simp add: maps_copy_def)
next
  case (Cons kv src)
  obtain k v where kv: "kv = (k, v)" by fastforce
  have "k \<notin> dom (map_of src)" using Cons.prems by (simp add: kv dom_map_of_conv_image_fst)
  moreover have "map_of (maps_copy dst ((k, v) # src)) = map_of (AList.update k v dst) ++ map_of src"
    using Cons by (simp add: maps_copy_def kv)
  ultimately show ?case by (auto simp: kv fun_eq_iff map_add_def dom_def split: option.splits)
qed

text \<open>C40: Extension requests given by flags win over those of the attributes file: the requested value
  of a key is the flag's, and only without a flag the file's; there is none of any other key. An
  unreadable file is an error.\<close>
theorem extension_flags_win:
  "case collect_extensions fs opts args of
     Inr (m, notes) \<Rightarrow> map_of m k = (case map_of (parse_ext args) k of Some v \<Rightarrow> Some v
       | None \<Rightarrow> if map_get opts ''csr-attributes'' = [] then None
           else map_of (fst (projr (parse_csr_attributes fs (filepath_clean (map_get opts ''csr-attributes''))))) k)
   | Inl e \<Rightarrow> map_get opts ''csr-attributes'' \<noteq> [] \<and>
       \<not> is_ok (parse_csr_attributes fs (filepath_clean (map_get opts ''csr-attributes'')))"
proof -
  have flags: "distinct_keys (parse_ext args)" using parse_ext_keys [of "[]"] by (simp add: parse_ext_def)
  show ?thesis
  proof (cases "map_get opts ''csr-attributes'' = []")
    case True
    then show ?thesis
      by (auto simp: collect_extensions_def maps_copy_get [OF flags] map_add_def split: option.splits)
  next
    case False
    show ?thesis
    proof (cases "parse_csr_attributes fs (filepath_clean (map_get opts ''csr-attributes''))")
      case (Inl e)
      with False show ?thesis by (simp add: collect_extensions_def Let_def)
    next
      case (Inr r)
      then obtain e c where r: "parse_csr_attributes fs (filepath_clean (map_get opts ''csr-attributes'')) = Inr (e, c)"
        by (cases r) auto
      show ?thesis using False r
        by (auto simp: collect_extensions_def Let_def maps_copy_get [OF flags]
            maps_copy_get [OF csr_attributes_keys [OF r]] map_add_def split: option.splits)
    qed
  qed
qed

section \<open>Bootstrapping again\<close>

lemma resolve_common_Inr:
  assumes "resolve_common fs h opts = Inr c"
  shows "cm_server c \<noteq> [] \<and> valid_certname (cm_certname c) \<and> cm_certname c \<noteq> []"
  using assms
  by (auto simp: resolve_common_def Let_def join_host_port_def valid_certname_def split: if_splits option.splits)

text \<open>C34: Bootstrapping an already bootstrapped directory is a no-op: when the identity loads and the key
  length is in range, \<open>bootstrap\<close> succeeds without a request and without a change of the files,
  whatever its other flags say, and reports the stored certificate as already issued.\<close>
theorem bootstrap_reuses_identity:
  assumes c: "resolve_common (w_fs w) (su_hostname S) (fst (parse_common args)) = Inr c"
    and load: "agent_load (su_env S) (su_hostname S) (cm_dir c) (cm_certname c) (w_now w) (w_fs w) = Inr i"
    and len: "atoi_or (map_get (fst (parse_common args)) ''keylength'') DefaultKeyBits \<in> {2048..8192}"
  shows "cmd_bootstrap S args w = (w, OutText (''certificate already issued; stored at '' @
      path_string (cert_path \<lparr>sd_dir = cm_dir c, sd_certname = cm_certname c\<rparr>)) # report (su_env S) i, None)"
proof -
  let ?keylen = "atoi_or (map_get (fst (parse_common args)) ''keylength'') DefaultKeyBits"
  have name: "identity_certname i = cm_certname c"
    using agent_load_Inr [OF load] load_from_disk_ok resolve_common_Inr [OF c] by (fastforce simp: identity_certname_def)
  have en: "enroll (background S) (bootstrap_config c opts ?keylen wait m) w = (w, Inr i)" for opts wait m
    using provisioned_enroll [of "background S" "bootstrap_config c opts ?keylen wait m" w i] load len resolve_common_Inr [OF c]
    by (simp add: background_def bootstrap_config_def pins_agree_def)
  have "\<not> (?keylen < 2048 \<or> ?keylen > 8192)" using len by simp
  then show ?thesis
    using c load en name by (simp add: cmd_bootstrap_def Let_def)
qed

theorem bootstrap_reuses_identity_witness:
  "fst (cmd_bootstrap ex_surr ex_cli_args (fst ex_enrolled)) = fst ex_enrolled \<and>
   snd (snd (cmd_bootstrap ex_surr ex_cli_args (fst ex_enrolled))) = None"
proof -
  have c: "resolve_common (w_fs (fst ex_enrolled)) (su_hostname ex_surr) (fst (parse_common ex_cli_args)) =
      Inr \<lparr>cm_server = ''ca.test:8140'', cm_host = ''ca.test'', cm_certname = ''node1'', cm_dir = ''/agent''\<rparr>"
    by code_simp
  have load: "agent_load ex_agent_env (Inr ''Node1'') ''/agent'' ''node1'' (w_now (fst ex_enrolled)) (w_fs (fst ex_enrolled))
      = Inr ex_id" by code_simp
  have len: "atoi_or (map_get (fst (parse_common ex_cli_args)) ''keylength'') DefaultKeyBits = 4096" by code_simp
  show ?thesis
    using bootstrap_reuses_identity [OF c, of ex_id] load len by (simp add: ex_fields)
qed

end
