(* ===== verification/Spec2Isabelle.thy ===== *)
theory Spec2Isabelle
  imports StoreProps PkiProps HttpProps AgentProps AgentCa MainProps
begin

text \<open>
  A Puppet-compatible certificate authority in Go: a CA kept in a directory and served over HTTPS,
  an agent that enrolls against it and holds an identity for mutual TLS, and two programs around
  these libraries.

  \<^bold>\<open>Parts and theories.\<close> Each theory below names the file it models; a definition keeps the name of
  its Go function in snake case, a struct is a record, a method takes the state first and
  returns it changed.

  \<^item> Ground: \<open>Prelude\<close> (errors, results, general lemmas, the locales \<open>codec\<close>, \<open>preserved\<close> and
    \<open>growing\<close>), and what the program uses of the Go library: \<open>GoStrings\<close>, \<open>GoOS\<close> (a file
    system as a list of files and directories, where any call on any path may fail as its
    fault function says), \<open>GoTime\<close>, \<open>GoNet\<close>, \<open>GoAsn1\<close>, \<open>GoX509\<close>, \<open>Regexp\<close>.
  \<^item> Wire names and trusted facts: \<open>Capi\<close> (\<open>internal/capi/capi.go\<close>), \<open>Ppext\<close> and \<open>Requests\<close>
    (\<open>internal/ppext/ppext.go\<close>, \<open>requests.go\<close>).
  \<^item> Keys, requests, certificates, revocation lists: \<open>Pki\<close> (\<open>pki/pki.go\<close>).
  \<^item> The CA on disk: \<open>Policy\<close>, \<open>Castore\<close>, \<open>CastoreStatus\<close> (\<open>internal/castore/policy.go\<close>,
    \<open>castore.go\<close>). State: the loaded CA and the directory. \<open>CastoreInv\<close> has the invariant
    \<open>cadir_at\<close> of the directory and its preservation, failing file calls included; \<open>CastoreSys\<close>
    the system of interleaved critical sections, policy runs, restarts and faults as a step
    relation; \<open>StoreSpec\<close> the abstract data base of requests, certificates, next serial
    and revoked serials, and the refinement.
  \<^item> The service: \<open>CaHandler\<close> (\<open>ca/ca.go\<close>, \<open>ca/handler.go\<close>). A handler takes request and
    directory to directory and response; \<open>handle\<close> is routing, gate and handler.
  \<^item> The agent: \<open>Ssldir\<close> (\<open>internal/ssldir/ssldir.go\<close>), \<open>Identity\<close> (\<open>agent/identity.go\<close>), \<open>Agent\<close>
    (\<open>agent/agent.go\<close>). State: files, clock and the requests made so far; the network, the
    context, the host name, random keys and digests are parameters. \<open>AgentInv\<close> shows every
    operation to be a run of small steps and its invariants; \<open>AgentDisk\<close> what a
    success leaves on disk.
  \<^item> The programs: \<open>Cli\<close> (\<open>cmd/facts-ca-cli/main.go\<close>), \<open>ServerMain\<close> (\<open>cmd/facts-ca-server/main.go\<close>).
  \<^item> \<open>Examples\<close> and \<open>AgentExamples\<close> hold one concrete CA and one concrete enrollment, on which the
    properties are instantiated.

  \<^bold>\<open>How the parts meet.\<close> The handlers and the offline operations call the store; the store calls
  \<open>Pki\<close>, and \<open>Policy\<close> between two of its critical sections (\<open>submit_store\<close>, \<open>submit_finish\<close>), where
  \<open>others\<close> stands for whatever other callers do meanwhile. The agent makes its request with \<open>Pki\<close> and
  \<open>Requests\<close>, checks what it gets with \<open>certs_of_pem\<close> and \<open>x509_verify\<close>, and keeps it in the ssldir.

  \<^bold>\<open>What is shown.\<close>

  \<^item> \<open>StoreProps\<close>: serial numbers are never issued twice and certificates on disk are sound, in every
    interleaving and under faults; a policy's approval is for the request that is signed; the
    operations refine the data base; revocation, resubmission, initialisation, listing, paths.
  \<^item> \<open>PkiProps\<close>: what a leaf can carry, trusted facts from the agent's configuration to the
    certificate, identifiers and their names, the policy's input, fingerprints, the attributes file.
  \<^item> \<open>HttpProps\<close>: every request keeps the invariant; who passes the gate and who can change what;
    status codes; what DELETE and the certificate route do.
  \<^item> \<open>AgentProps\<close>: the identity returned is the one asked for and agrees with the pins; no request
    goes to an unverified server except the configured fetch of the CA; the files kept;
    waiting is bounded, and finds a certificate that is there; load after enroll; refusals; pins.
  \<^item> \<open>AgentCa\<close>: agent and CA together, and two agents of one CA with each other.
  \<^item> \<open>MainProps\<close>: restart, offline operations against the admin API of a service with options of its
    own, the admin client's requests and the routes they reach, the commands' effects.

  \<^bold>\<open>Bounds and termination.\<close> All definitions are total and there is no fuel. Loops over data are
  structural, or end by the length of what is left (\<open>duration_terms\<close>, \<open>san_names\<close>) or the size of the
  number (\<open>show_base_int\<close>). \<open>poll_loop\<close> ends because each round that waits brings the clock nearer to
  the deadline; \<open>waiting_is_bounded\<close> says by how much it can overshoot and how many requests it makes.
  Limits of the code are kept: 1 MiB for a request (\<open>maxCSRBytes\<close>), 4 MiB for a response, 4096 bytes
  of a policy's error output, 30 seconds for a request. Serial numbers are unbounded, as \<open>big.Int\<close> is;
  bytes are 8-bit words; times are integers, in nanoseconds. Object identifiers are lists of numbers as
  \<open>ResolveOID\<close> reads them (up to \<open>2^63 - 1\<close>), and what Go's parsers refuse, a number beyond 31 bits, is refused
  by \<open>parse_csr\<close> and \<open>parse_certificate\<close> (\<open>ids_fit\<close>).

  \<^bold>\<open>Idealisations.\<close> A signature is the public key of the key pair that made it, and a DER encoding is
  the object itself, so that distinct objects have distinct encodings; chain building finds roots in the
  pool only, as none of the programs' chains has intermediates. A digest is any function.
  A locked section is one step. An operator's own extensions in \<open>Sign\<close> override what the CA puts into a
  leaf; \<open>sign_csr\<close> models them as they are, and the steps of \<open>CastoreSys\<close> take any list, but properties of the
  leaves' contents are for runs in which they are non-critical Puppet extensions (\<open>puppet_event\<close>; every call in
  the repository hands in none). A file write
  either happens or leaves the file as it was. Wildcards and addresses are left out of the
  host-name check of a client, which then accepts less than the library.

  \<^bold>\<open>Not modelled.\<close> Logging and the text of usage messages; file modes; the loop of \<open>net/http\<close> and the
  TLS handshake below the certificate checks (redirects, proxies, keep-alive, HTTP/2); JSON decoding (its result
  is a field of the request); \<open>internal/version\<close> (one string, a parameter); tests, scripts and examples.

  \<^bold>\<open>Divergences found\<close> are stated as lemmas beside the properties: \<open>pins_see_first_block\<close>,
  \<open>unreadable_key_replaced\<close>, \<open>bracketed_server_mangled\<close>, \<open>failed_body_adopted\<close> (\<open>AgentProps\<close>),
  \<open>cert_path_ca\<close> (\<open>Ssldir\<close>), \<open>gate_ignores_revocation\<close> (\<open>HttpProps\<close>).
\<close>

end
